(* ===== verification/Mesh_Prelude.thy ===== *)
theory Mesh_Prelude
  imports Main "HOL-Library.Word" "HOL-Library.Multiset"
begin

text \<open>
  Shared vocabulary of the development: the C integer types as machine words, the
  result type of operations that can fault, bounds-checked access to byte buffers,
  the little-endian layout of 16-bit and 32-bit values, and the generic lemmas on
  lists and words that the component theories rely on.

  Nothing here models a line of \<^verbatim>\<open>mesh_packet.c\<close>; the definitions are the
  memory discipline under which that file is read: an access outside the bounds of
  an array is a value (\<open>Inl OutOfBounds\<close>), never an unspecified \<open>xs ! i\<close>, and
  the macro \<^verbatim>\<open>APP_ERROR_CHECK\<close> of the SDK ends the operation in \<open>Inl (APP_ERROR e)\<close>.
\<close>

section \<open>Fact collections\<close>

named_theorems mesh_consts \<open>numeric values of the constants of the C headers\<close>
named_theorems buf_simps \<open>outcomes of bounds-checked buffer accesses\<close>

section \<open>Machine integers\<close>

type_synonym uint8_t = "8 word"
type_synonym uint16_t = "16 word"
type_synonym uint32_t = "32 word"

section \<open>Error codes, faults and results\<close>

text \<open>
  The \<^verbatim>\<open>uint32_t\<close> status codes the source names, plus the codes a SoftDevice call
  may hand back, which the source passes through unchanged.
\<close>

datatype nrf_error =
    NRF_SUCCESS
  | NRF_ERROR_NO_MEM
  | NRF_ERROR_NULL
  | NRF_ERROR_INVALID_LENGTH
  | NRF_ERROR_INVALID_DATA
  | NRF_ERROR_SOFTDEVICE uint32_t

text \<open>
  A fault ends the run of an operation: an access outside an array (undefined
  behaviour in C), or the entry into the application error handler through
  \<^verbatim>\<open>APP_ERROR_CHECK\<close> with a code other than success.
\<close>

datatype fault = OutOfBounds | APP_ERROR nrf_error

type_synonym 'a result = "fault + 'a"

definition bindR :: "'a result \<Rightarrow> ('a \<Rightarrow> 'b result) \<Rightarrow> 'b result" where
  "bindR m f = (case m of Inl e \<Rightarrow> Inl e | Inr x \<Rightarrow> f x)"

lemma bindR_Inr [simp]: "bindR (Inr x) f = f x"
  by (simp add: bindR_def)

lemma bindR_Inl [simp]: "bindR (Inl e) f = Inl e"
  by (simp add: bindR_def)

lemma bindR_eq_Inr_iff: "bindR m f = Inr y \<longleftrightarrow> (\<exists>x. m = Inr x \<and> f x = Inr y)"
  by (cases m) simp_all

lemma bindR_eq_Inl_iff:
  "bindR m f = Inl e \<longleftrightarrow> m = Inl e \<or> (\<exists>x. m = Inr x \<and> f x = Inl e)"
  by (cases m) simp_all

lemma bindR_cong [fundef_cong]:
  "m = m' \<Longrightarrow> (\<And>x. m' = Inr x \<Longrightarrow> f x = f' x) \<Longrightarrow> bindR m f = bindR m' f'"
  by (cases m') simp_all

lemma bindR_assoc: "bindR (bindR m f) g = bindR m (\<lambda>x. bindR (f x) g)"
  by (cases m) simp_all

text \<open>
  The macro \<^verbatim>\<open>APP_ERROR_CHECK(ERR_CODE)\<close>: it calls the application error handler when
  the code is not \<^verbatim>\<open>NRF_SUCCESS\<close>. The handler is not part of the sources and is
  taken not to return.
\<close>

definition APP_ERROR_CHECK :: "nrf_error \<Rightarrow> unit result" where
  "APP_ERROR_CHECK err_code =
     (if err_code \<noteq> NRF_SUCCESS then Inl (APP_ERROR err_code) else Inr ())"

lemma APP_ERROR_CHECK_simps [simp]:
  "APP_ERROR_CHECK NRF_SUCCESS = Inr ()"
  "err_code \<noteq> NRF_SUCCESS \<Longrightarrow> APP_ERROR_CHECK err_code = Inl (APP_ERROR err_code)"
  by (simp_all add: APP_ERROR_CHECK_def)

section \<open>Bounds-checked buffers\<close>

definition rd :: "'a list \<Rightarrow> nat \<Rightarrow> 'a result" where
  "rd xs i = (if i < length xs then Inr (xs ! i) else Inl OutOfBounds)"

definition wr :: "'a list \<Rightarrow> nat \<Rightarrow> 'a \<Rightarrow> 'a list result" where
  "wr xs i v = (if i < length xs then Inr (xs[i := v]) else Inl OutOfBounds)"

lemma rd_in [buf_simps]: "i < length xs \<Longrightarrow> rd xs i = Inr (xs ! i)"
  by (simp add: rd_def)

lemma rd_out [buf_simps]: "length xs \<le> i \<Longrightarrow> rd xs i = Inl OutOfBounds"
  by (simp add: rd_def)

lemma wr_in [buf_simps]: "i < length xs \<Longrightarrow> wr xs i v = Inr (xs[i := v])"
  by (simp add: wr_def)

lemma wr_out [buf_simps]: "length xs \<le> i \<Longrightarrow> wr xs i v = Inl OutOfBounds"
  by (simp add: wr_def)

lemma rd_eq_Inr_iff: "rd xs i = Inr v \<longleftrightarrow> i < length xs \<and> xs ! i = v"
  by (auto simp: rd_def)

lemma rd_eq_Inl_iff: "rd xs i = Inl e \<longleftrightarrow> length xs \<le> i \<and> e = OutOfBounds"
  by (auto simp: rd_def)

lemma wr_eq_Inr_iff: "wr xs i v = Inr ys \<longleftrightarrow> i < length xs \<and> ys = xs[i := v]"
  by (auto simp: wr_def)

lemma length_wr: "wr xs i v = Inr ys \<Longrightarrow> length ys = length xs"
  by (auto simp: wr_def split: if_splits)

lemma rd_wr_same: "wr xs i v = Inr ys \<Longrightarrow> rd ys i = Inr v"
  by (auto simp: wr_def rd_def split: if_splits)

lemma rd_wr_other: "wr xs i v = Inr ys \<Longrightarrow> j \<noteq> i \<Longrightarrow> rd ys j = rd xs j"
  by (auto simp: wr_def rd_def split: if_splits)

section \<open>Little-endian fields\<close>

text \<open>
  The target is a little-endian Cortex-M0 and the structures are packed, so a
  \<^verbatim>\<open>uint16_t\<close> member at byte offset \<open>i\<close> is the byte at \<open>i\<close> (low) and the byte
  at \<open>i + 1\<close> (high).
\<close>

definition lo_byte :: "uint16_t \<Rightarrow> uint8_t" where
  "lo_byte w = ucast w"

definition hi_byte :: "uint16_t \<Rightarrow> uint8_t" where
  "hi_byte w = ucast (drop_bit 8 w)"

definition u16_of_bytes :: "uint8_t \<Rightarrow> uint8_t \<Rightarrow> uint16_t" where
  "u16_of_bytes lo hi = or (ucast lo) (push_bit 8 (ucast hi))"

lemma u16_of_bytes_split [simp]: "u16_of_bytes (lo_byte w) (hi_byte w) = w"
  unfolding u16_of_bytes_def lo_byte_def hi_byte_def
  by (rule bit_word_eqI) (auto simp add: bit_simps)

lemma lo_byte_u16_of_bytes [simp]: "lo_byte (u16_of_bytes lo hi) = lo"
  unfolding u16_of_bytes_def lo_byte_def
  by (rule bit_word_eqI) (auto simp add: bit_simps dest: bit_imp_le_length)

lemma hi_byte_u16_of_bytes [simp]: "hi_byte (u16_of_bytes lo hi) = hi"
  unfolding u16_of_bytes_def hi_byte_def
  by (rule bit_word_eqI) (auto simp add: bit_simps dest: bit_imp_le_length)

lemma u16_of_bytes_inject:
  "u16_of_bytes lo hi = u16_of_bytes lo' hi' \<longleftrightarrow> lo = lo' \<and> hi = hi'"
  by (metis lo_byte_u16_of_bytes hi_byte_u16_of_bytes)

lemma u16_eq_iff_bytes: "w = w' \<longleftrightarrow> lo_byte w = lo_byte w' \<and> hi_byte w = hi_byte w'"
  by (metis u16_of_bytes_split)

definition rd16 :: "uint8_t list \<Rightarrow> nat \<Rightarrow> uint16_t result" where
  "rd16 xs i = bindR (rd xs i) (\<lambda>lo. bindR (rd xs (i + 1)) (\<lambda>hi. Inr (u16_of_bytes lo hi)))"

definition wr16 :: "uint8_t list \<Rightarrow> nat \<Rightarrow> uint16_t \<Rightarrow> uint8_t list result" where
  "wr16 xs i w = bindR (wr xs i (lo_byte w)) (\<lambda>ys. wr ys (i + 1) (hi_byte w))"

lemma rd16_in [buf_simps]:
  "i + 1 < length xs \<Longrightarrow> rd16 xs i = Inr (u16_of_bytes (xs ! i) (xs ! (i + 1)))"
  by (simp add: rd16_def rd_def)

lemma rd16_out [buf_simps]: "length xs \<le> i + 1 \<Longrightarrow> rd16 xs i = Inl OutOfBounds"
  by (simp add: rd16_def rd_def)

lemma wr16_in [buf_simps]:
  "i + 1 < length xs \<Longrightarrow> wr16 xs i w = Inr (xs[i := lo_byte w, i + 1 := hi_byte w])"
  by (simp add: wr16_def wr_def)

lemma wr16_out [buf_simps]: "length xs \<le> i + 1 \<Longrightarrow> wr16 xs i w = Inl OutOfBounds"
  by (simp add: wr16_def wr_def)

lemma rd16_wr16_same: "wr16 xs i w = Inr ys \<Longrightarrow> rd16 ys i = Inr w"
  by (auto simp: wr16_def rd16_def wr_def rd_def bindR_eq_Inr_iff split: if_splits)

text \<open>The four bytes of a 32-bit register, lowest address first.\<close>

definition le_bytes32 :: "uint32_t \<Rightarrow> uint8_t list" where
  "le_bytes32 w = [ucast w, ucast (drop_bit 8 w), ucast (drop_bit 16 w), ucast (drop_bit 24 w)]"

lemma length_le_bytes32 [simp]: "length (le_bytes32 w) = 4"
  by (simp add: le_bytes32_def)

section \<open>Block copy between distinct buffers\<close>

text \<open>
  \<^verbatim>\<open>memcpy(dst + at, src, n)\<close> of the C library, for a source that is not part of
  the destination: both ranges must lie inside their buffers.
\<close>

definition memcpy :: "uint8_t list \<Rightarrow> nat \<Rightarrow> uint8_t list \<Rightarrow> nat \<Rightarrow> uint8_t list result" where
  "memcpy dst at src n =
     (if n \<le> length src \<and> at + n \<le> length dst
      then Inr (take at dst @ take n src @ drop (at + n) dst)
      else Inl OutOfBounds)"

lemma memcpy_in [buf_simps]:
  "n \<le> length src \<Longrightarrow> at + n \<le> length dst \<Longrightarrow>
   memcpy dst at src n = Inr (take at dst @ take n src @ drop (at + n) dst)"
  by (simp add: memcpy_def)

lemma length_memcpy: "memcpy dst at src n = Inr ys \<Longrightarrow> length ys = length dst"
  by (auto simp: memcpy_def split: if_splits)

lemma memcpy_zero [simp]: "at \<le> length dst \<Longrightarrow> memcpy dst at src 0 = Inr dst"
  by (simp add: memcpy_def)

lemma nth_memcpy:
  assumes "memcpy dst at src n = Inr ys" and "k < length dst"
  shows "ys ! k = (if at \<le> k \<and> k < at + n then src ! (k - at) else dst ! k)"
proof -
  from assms(1) have n: "n \<le> length src" and fit: "at + n \<le> length dst"
    and ys: "ys = take at dst @ take n src @ drop (at + n) dst"
    by (auto simp: memcpy_def split: if_splits)
  show ?thesis
    using n fit assms(2) unfolding ys
    by (auto simp: nth_append min_def)
qed

lemma memcpy_after_prefix:
  "length front = at \<Longrightarrow> n \<le> length src \<Longrightarrow> n \<le> length rest \<Longrightarrow>
   memcpy (front @ rest) at src n = Inr (front @ take n src @ drop n rest)"
  by (simp add: memcpy_def)

section \<open>Lists\<close>

lemma list_update_prefix8:
  assumes "8 \<le> length xs"
  shows "xs[0 := a0, 1 := a1, 2 := a2, 3 := a3, 4 := a4, 5 := a5, 6 := a6, 7 := a7] =
         [a0, a1, a2, a3, a4, a5, a6, a7] @ drop 8 xs"
proof -
  from assms obtain x0 x1 x2 x3 x4 x5 x6 x7 r where
    "xs = x0 # x1 # x2 # x3 # x4 # x5 # x6 # x7 # r"
    by (auto simp: eval_nat_numeral Suc_le_length_iff)
  then show ?thesis by simp
qed

lemma fold_list_update_const:
  "n \<le> length xs \<Longrightarrow> fold (\<lambda>i ys. ys[i := c]) [0..<n] xs = replicate n c @ drop n xs"
proof (induction n)
  case 0
  then show ?case by simp
next
  case (Suc n)
  then have "n < length (replicate n c @ drop n xs)" by simp
  then have "(replicate n c @ drop n xs)[n := c] = replicate n c @ c # drop (Suc n) xs"
    by (simp add: list_update_append upd_conv_take_nth_drop drop_Suc [symmetric] Suc_le_lessD
        del: replicate_Suc)
  with Suc show ?case
    by (simp add: replicate_append_same)
qed

lemma list_update_replicate_split:
  "k < n \<Longrightarrow> (replicate k a @ replicate (n - k) b)[k := a] = replicate (Suc k) a @ replicate (n - Suc k) b"
proof -
  assume "k < n"
  then obtain m where m: "n - k = Suc m" and m': "n - Suc k = m"
    by (cases "n - k") auto
  show ?thesis
    unfolding m m' by (simp add: list_update_append replicate_append_same)
qed

section \<open>Words\<close>

lemma unat_of_nat8: "k < 256 \<Longrightarrow> unat (of_nat k :: uint8_t) = k"
  by (simp add: unat_of_nat)

lemma unat_of_nat32: "k < 2 ^ 32 \<Longrightarrow> unat (of_nat k :: uint32_t) = k"
  by (simp add: unat_of_nat)

lemma unat_add_of_nat_sub:
  "k < 2 ^ 32 \<Longrightarrow> unat ((b + of_nat k) - (b :: uint32_t)) = k"
  by (simp add: unat_of_nat)

lemma unat_plus_one_u8: "(r :: uint8_t) \<noteq> 255 \<Longrightarrow> unat (r + 1) = unat r + 1"
proof -
  assume "r \<noteq> 255"
  then have "unat r \<noteq> 255" by (simp add: word_unat_eq_iff)
  moreover have "unat r < 256" using unsigned_less [of r, where ?'a = nat] by simp
  ultimately show ?thesis by (simp add: unat_word_ariths)
qed

lemma unat_minus_one_u8: "(r :: uint8_t) \<noteq> 0 \<Longrightarrow> unat (r - 1) = unat r - 1"
  by (simp add: unat_minus_one)

lemma u8_plus_one_eq_0_iff: "(r :: uint8_t) + 1 = 0 \<longleftrightarrow> r = 255"
proof
  assume "r + 1 = 0"
  then have "r = - 1" by (simp add: eq_neg_iff_add_eq_0)
  then show "r = 255" by simp
qed simp

lemma u8_minus_one_plus_one [simp]: "(r :: uint8_t) + 1 - 1 = r"
  by simp

end
