(* ===== verification/Mesh_Types.thy ===== *)
theory Mesh_Types
  imports Mesh_Prelude
begin

text \<open>
  The data that \<^verbatim>\<open>mesh_packet.c\<close> works on and that its header
  \<^verbatim>\<open>mesh_packet.h\<close> declares: the constants of the wire format, the packet
  structure \<^verbatim>\<open>mesh_packet_t\<close> as a record, the byte layout of the mesh
  advertisement structure \<^verbatim>\<open>mesh_adv_data_t\<close> inside the payload, and the
  accessors for its members at a byte offset of the payload. The header is not part
  of the sources under \<^verbatim>\<open>src/\<close>; the values follow the wire format of the
  specification (section 6) and the Bluetooth advertising PDU.
\<close>

section \<open>Constants of the wire format\<close>

definition BLE_GAP_ADDR_LEN :: nat where
  [mesh_consts]: "BLE_GAP_ADDR_LEN = 6"

definition BLE_ADV_PACKET_PAYLOAD_MAX_LENGTH :: nat where
  [mesh_consts]: "BLE_ADV_PACKET_PAYLOAD_MAX_LENGTH = 31"

definition RBC_MESH_VALUE_MAX_LEN :: nat where
  [mesh_consts]: "RBC_MESH_VALUE_MAX_LEN = 23"

text \<open>Type tag, magic, handle and version: the bytes the length field counts besides the data.\<close>

definition MESH_PACKET_ADV_OVERHEAD :: nat where
  [mesh_consts]: "MESH_PACKET_ADV_OVERHEAD = 1 + 2 + 2 + 2"

text \<open>
  The header's length counts the address and the payload; a payload that holds only
  the mesh structure is its length byte and the bytes that byte counts.
\<close>

definition MESH_PACKET_OVERHEAD :: nat where
  [mesh_consts]: "MESH_PACKET_OVERHEAD = BLE_GAP_ADDR_LEN + 1 + MESH_PACKET_ADV_OVERHEAD"

definition MESH_UUID :: uint16_t where
  [mesh_consts]: "MESH_UUID = 0xFEE4"

definition MESH_ADV_DATA_TYPE :: uint8_t where
  [mesh_consts]: "MESH_ADV_DATA_TYPE = 0x16"

definition RBC_MESH_INVALID_HANDLE :: uint16_t where
  [mesh_consts]: "RBC_MESH_INVALID_HANDLE = 0xFFFF"

definition BLE_PACKET_TYPE_ADV_NONCONN_IND :: "4 word" where
  [mesh_consts]: "BLE_PACKET_TYPE_ADV_NONCONN_IND = 2"

section \<open>The packet structure\<close>

text \<open>
  \<^verbatim>\<open>ble_packet_header_t\<close>: the PDU type (a 4-bit field), the TxAdd bit and the
  length byte. The member names \<^verbatim>\<open>type\<close> and \<^verbatim>\<open>length\<close> carry a suffix here.
\<close>

record ble_packet_header_t =
  type_field :: "4 word"
  addr_type :: "1 word"
  length_field :: uint8_t

record mesh_packet_t =
  header :: ble_packet_header_t
  addr :: "uint8_t list"
  payload :: "uint8_t list"

text \<open>The two arrays of a packet have their declared sizes.\<close>

definition packet_wf :: "mesh_packet_t \<Rightarrow> bool" where
  "packet_wf p \<longleftrightarrow>
     length (addr p) = BLE_GAP_ADDR_LEN \<and>
     length (payload p) = BLE_ADV_PACKET_PAYLOAD_MAX_LENGTH"

text \<open>Sizes of the packed structures: three header bytes, address, payload.\<close>

definition sizeof_mesh_packet_t :: nat where
  [mesh_consts]: "sizeof_mesh_packet_t = 3 + BLE_GAP_ADDR_LEN + BLE_ADV_PACKET_PAYLOAD_MAX_LENGTH"

definition sizeof_mesh_adv_data_t :: nat where
  [mesh_consts]: "sizeof_mesh_adv_data_t = 1 + MESH_PACKET_ADV_OVERHEAD + RBC_MESH_VALUE_MAX_LEN"

lemma sizeof_mesh_packet_t_eq: "sizeof_mesh_packet_t = 40"
  by (simp add: mesh_consts)

lemma sizeof_mesh_adv_data_t_eq: "sizeof_mesh_adv_data_t = 31"
  by (simp add: mesh_consts)

lemma packet_wf_lengths:
  "packet_wf p \<Longrightarrow> length (addr p) = 6"
  "packet_wf p \<Longrightarrow> length (payload p) = 31"
  by (simp_all add: packet_wf_def mesh_consts)

lemma packet_wf_header_update [simp]: "packet_wf (p\<lparr>header := h\<rparr>) = packet_wf p"
  by (simp add: packet_wf_def)

lemma packet_wf_addr_update [simp]:
  "packet_wf (p\<lparr>addr := a\<rparr>) \<longleftrightarrow> length a = 6 \<and> length (payload p) = 31"
  by (simp add: packet_wf_def mesh_consts)

lemma packet_wf_payload_update [simp]:
  "packet_wf (p\<lparr>payload := b\<rparr>) \<longleftrightarrow> length (addr p) = 6 \<and> length b = 31"
  by (simp add: packet_wf_def mesh_consts)

text \<open>
  A packet of static storage before anything is written to it: C initialises objects
  of static storage duration to zero.
\<close>

definition blank_packet :: mesh_packet_t where
  "blank_packet =
     \<lparr>header = \<lparr>type_field = 0, addr_type = 0, length_field = 0\<rparr>,
      addr = replicate 6 0, payload = replicate 31 0\<rparr>"

lemma blank_packet_wf [simp]: "packet_wf blank_packet"
  by (simp add: packet_wf_def blank_packet_def mesh_consts)

section \<open>Members of the mesh advertisement structure\<close>

text \<open>
  A \<^verbatim>\<open>mesh_adv_data_t*\<close> into the payload is the byte offset \<open>off\<close> of the
  structure from \<^verbatim>\<open>&payload[0]\<close>. Its members are read and written through the
  bounds-checked accessors: \<^verbatim>\<open>adv_data_length\<close> at \<open>off\<close>, \<^verbatim>\<open>adv_data_type\<close>
  at \<open>off + 1\<close>, \<^verbatim>\<open>mesh_uuid\<close> at \<open>off + 2\<close>, \<^verbatim>\<open>handle\<close> at \<open>off + 4\<close>,
  \<^verbatim>\<open>version\<close> at \<open>off + 6\<close> and \<^verbatim>\<open>data\<close> from \<open>off + 8\<close>.
\<close>

definition adv_data_length :: "uint8_t list \<Rightarrow> nat \<Rightarrow> uint8_t result" where
  "adv_data_length pl off = rd pl off"

definition adv_data_type :: "uint8_t list \<Rightarrow> nat \<Rightarrow> uint8_t result" where
  "adv_data_type pl off = rd pl (off + 1)"

definition mesh_uuid :: "uint8_t list \<Rightarrow> nat \<Rightarrow> uint16_t result" where
  "mesh_uuid pl off = rd16 pl (off + 2)"

definition handle :: "uint8_t list \<Rightarrow> nat \<Rightarrow> uint16_t result" where
  "handle pl off = rd16 pl (off + 4)"

definition version :: "uint8_t list \<Rightarrow> nat \<Rightarrow> uint16_t result" where
  "version pl off = rd16 pl (off + 6)"

definition adv_data_offset_data :: nat where
  "adv_data_offset_data = 8"

lemmas adv_member_defs =
  adv_data_length_def adv_data_type_def mesh_uuid_def handle_def version_def

text \<open>
  The test of both scanning loops, \<^verbatim>\<open>adv_data_type != MESH_ADV_DATA_TYPE ||
  mesh_uuid != MESH_UUID\<close>, with C's left-to-right evaluation: the magic is read only
  when the type tag matches.
\<close>

definition not_mesh_adv_data :: "uint8_t list \<Rightarrow> nat \<Rightarrow> bool result" where
  "not_mesh_adv_data pl off =
     bindR (adv_data_type pl off) (\<lambda>t.
       if t \<noteq> MESH_ADV_DATA_TYPE then Inr True
       else bindR (mesh_uuid pl off) (\<lambda>u. Inr (u \<noteq> MESH_UUID)))"

lemma not_mesh_adv_data_in:
  "off + 3 < length pl \<Longrightarrow>
   not_mesh_adv_data pl off =
     Inr (pl ! (off + 1) \<noteq> MESH_ADV_DATA_TYPE \<or>
          u16_of_bytes (pl ! (off + 2)) (pl ! (off + 3)) \<noteq> MESH_UUID)"
  by (simp add: not_mesh_adv_data_def adv_member_defs rd_def rd16_def add.assoc eval_nat_numeral)

lemma not_mesh_adv_data_type_out:
  "length pl \<le> off + 1 \<Longrightarrow> not_mesh_adv_data pl off = Inl OutOfBounds"
  by (simp add: not_mesh_adv_data_def adv_member_defs buf_simps)

lemma not_mesh_adv_data_fault:
  "not_mesh_adv_data pl off = Inl e \<Longrightarrow> e = OutOfBounds \<and> length pl \<le> off + 3"
  by (auto simp: not_mesh_adv_data_def adv_member_defs bindR_eq_Inl_iff rd_def rd16_def
           split: if_splits)

end
