(* ===== verification/Packet_Pool.thy ===== *)
theory Packet_Pool
  imports Mesh_Types
begin

text \<open>
  The packet pool of \<^verbatim>\<open>mesh_packet.c\<close>: the static arrays \<^verbatim>\<open>g_packet_pool\<close>
  and \<^verbatim>\<open>g_packet_refs\<close> and the functions \<^verbatim>\<open>mesh_packet_init\<close>,
  \<^verbatim>\<open>mesh_packet_on_ts_begin\<close>, \<^verbatim>\<open>mesh_packet_acquire\<close>,
  \<^verbatim>\<open>mesh_packet_ref_count_inc\<close> and \<^verbatim>\<open>mesh_packet_ref_count_dec\<close>.

  A packet pointer is a 32-bit address. The two reference-count functions recover
  the slot from the address by the source's own arithmetic on \<^verbatim>\<open>uint32_t\<close>, and
  their guard \<^verbatim>\<open>index > MESH_PACKET_POOL_SIZE\<close> is kept as written: an index
  equal to the pool size passes it and the access to \<^verbatim>\<open>g_packet_refs\<close> that
  follows is outside the array. \<open>T_acquire_scan\<close> counts the passes of the scan.
\<close>

section \<open>State\<close>

text \<open>
  \<open>pool_addr\<close> is \<^verbatim>\<open>(uint32_t) &g_packet_pool[0]\<close>, fixed when the image is
  linked; no operation writes it. The pool size is the length of the count array.
\<close>

record mesh_pool =
  pool_addr :: uint32_t
  g_packet_pool :: "mesh_packet_t list"
  g_packet_refs :: "uint8_t list"

definition MESH_PACKET_POOL_SIZE :: "mesh_pool \<Rightarrow> nat" where
  "MESH_PACKET_POOL_SIZE pl = length (g_packet_refs pl)"

text \<open>\<^verbatim>\<open>&g_packet_pool[i]\<close> as an address.\<close>

definition packet_ptr :: "mesh_pool \<Rightarrow> nat \<Rightarrow> uint32_t" where
  "packet_ptr pl i = pool_addr pl + of_nat (i * sizeof_mesh_packet_t)"

text \<open>
  Both arrays have the pool's size, every slot is a packet of the declared layout,
  and the pool lies in the 32-bit address space without wrapping.
\<close>

definition pool_wf :: "mesh_pool \<Rightarrow> bool" where
  "pool_wf pl \<longleftrightarrow>
     length (g_packet_pool pl) = MESH_PACKET_POOL_SIZE pl \<and>
     list_all packet_wf (g_packet_pool pl) \<and>
     unat (pool_addr pl) + MESH_PACKET_POOL_SIZE pl * sizeof_mesh_packet_t < 2 ^ 32"

text \<open>
  The pool when \<^verbatim>\<open>main\<close> is entered: both arrays are static and therefore
  zero, wherever the linker has put them.
\<close>

definition boot_pool :: "uint32_t \<Rightarrow> nat \<Rightarrow> mesh_pool" where
  "boot_pool base n =
     \<lparr>pool_addr = base, g_packet_pool = replicate n blank_packet, g_packet_refs = replicate n 0\<rparr>"

section \<open>Operations\<close>

definition mesh_packet_init :: "mesh_pool \<Rightarrow> mesh_pool" where
  "mesh_packet_init pl =
     pl\<lparr>g_packet_refs :=
          fold (\<lambda>i refs. refs[i := 0]) [0..<MESH_PACKET_POOL_SIZE pl] (g_packet_refs pl)\<rparr>"

definition mesh_packet_on_ts_begin :: "mesh_pool \<Rightarrow> mesh_pool" where
  "mesh_packet_on_ts_begin pl = pl"

text \<open>The loop of \<^verbatim>\<open>mesh_packet_acquire\<close>: the first index from \<open>i\<close> whose count is 0.\<close>

function acquire_scan :: "uint8_t list \<Rightarrow> nat \<Rightarrow> nat option" where
  "acquire_scan refs i =
     (if i < length refs
      then (if refs ! i = 0 then Some i else acquire_scan refs (Suc i))
      else None)"
  by pat_completeness auto
termination
  by (relation "measure (\<lambda>(refs, i). length refs - i)") auto

declare acquire_scan.simps [simp del]

text \<open>
  The running time of the loop: the number of times its condition
  \<^verbatim>\<open>i < MESH_PACKET_POOL_SIZE\<close> is evaluated.
\<close>

function T_acquire_scan :: "uint8_t list \<Rightarrow> nat \<Rightarrow> nat" where
  "T_acquire_scan refs i =
     (if i < length refs
      then (if refs ! i = 0 then 1 else 1 + T_acquire_scan refs (Suc i))
      else 1)"
  by pat_completeness auto
termination
  by (relation "measure (\<lambda>(refs, i). length refs - i)") auto

declare T_acquire_scan.simps [simp del]

text \<open>
  \<open>Some p\<close> is the return value \<^verbatim>\<open>true\<close> with \<^verbatim>\<open>*pp_packet = p\<close>; \<open>None\<close> is
  \<^verbatim>\<open>false\<close>, with \<^verbatim>\<open>*pp_packet\<close> not written.
\<close>

definition mesh_packet_acquire :: "mesh_pool \<Rightarrow> uint32_t option \<times> mesh_pool" where
  "mesh_packet_acquire pl =
     (case acquire_scan (g_packet_refs pl) 0 of
        Some i \<Rightarrow> (Some (packet_ptr pl i), pl\<lparr>g_packet_refs := (g_packet_refs pl)[i := 1]\<rparr>)
      | None \<Rightarrow> (None, pl))"

text \<open>The slot of a pointer: subtraction and division on \<^verbatim>\<open>uint32_t\<close>.\<close>

definition packet_index :: "mesh_pool \<Rightarrow> uint32_t \<Rightarrow> nat" where
  "packet_index pl p = unat ((p - pool_addr pl) div of_nat sizeof_mesh_packet_t)"

definition mesh_packet_ref_count_inc :: "mesh_pool \<Rightarrow> uint32_t \<Rightarrow> (bool \<times> mesh_pool) result" where
  "mesh_packet_ref_count_inc pl p_packet =
     (let index = packet_index pl p_packet in
      if index > MESH_PACKET_POOL_SIZE pl then Inr (False, pl)
      else bindR (rd (g_packet_refs pl) index) (\<lambda>r.
           bindR (if r + 1 = 0 then APP_ERROR_CHECK NRF_ERROR_NO_MEM else Inr ()) (\<lambda>_.
             Inr (True, pl\<lparr>g_packet_refs := (g_packet_refs pl)[index := r + 1]\<rparr>))))"

definition mesh_packet_ref_count_dec :: "mesh_pool \<Rightarrow> uint32_t \<Rightarrow> (bool \<times> mesh_pool) result" where
  "mesh_packet_ref_count_dec pl p_packet =
     (let index = packet_index pl p_packet in
      if index > MESH_PACKET_POOL_SIZE pl then Inr (False, pl)
      else bindR (rd (g_packet_refs pl) index) (\<lambda>r.
             if r = 0 then Inr (False, pl)
             else Inr (True, pl\<lparr>g_packet_refs := (g_packet_refs pl)[index := r - 1]\<rparr>)))"

section \<open>Well-formedness\<close>

lemma pool_wf_refs_update [simp]:
  "length refs = length (g_packet_refs pl) \<Longrightarrow> pool_wf (pl\<lparr>g_packet_refs := refs\<rparr>) = pool_wf pl"
  by (simp add: pool_wf_def MESH_PACKET_POOL_SIZE_def)

lemma pool_size_refs_update [simp]:
  "MESH_PACKET_POOL_SIZE (pl\<lparr>g_packet_refs := refs\<rparr>) = length refs"
  by (simp add: MESH_PACKET_POOL_SIZE_def)

lemma pool_wf_size_bound: "pool_wf pl \<Longrightarrow> MESH_PACKET_POOL_SIZE pl * 40 < 2 ^ 32"
  by (simp add: pool_wf_def sizeof_mesh_packet_t_eq)

lemma boot_pool_wf:
  "unat base + n * 40 < 2 ^ 32 \<Longrightarrow> pool_wf (boot_pool base n)"
  by (simp add: pool_wf_def boot_pool_def MESH_PACKET_POOL_SIZE_def sizeof_mesh_packet_t_eq
      list_all_length)

lemma boot_pool_size [simp]: "MESH_PACKET_POOL_SIZE (boot_pool base n) = n"
  by (simp add: boot_pool_def MESH_PACKET_POOL_SIZE_def)

section \<open>Initialisation\<close>

lemma mesh_packet_init_refs:
  "g_packet_refs (mesh_packet_init pl) = replicate (MESH_PACKET_POOL_SIZE pl) 0"
  by (simp add: mesh_packet_init_def MESH_PACKET_POOL_SIZE_def fold_list_update_const)

lemma mesh_packet_init_frame [simp]:
  "g_packet_pool (mesh_packet_init pl) = g_packet_pool pl"
  "pool_addr (mesh_packet_init pl) = pool_addr pl"
  "MESH_PACKET_POOL_SIZE (mesh_packet_init pl) = MESH_PACKET_POOL_SIZE pl"
  by (simp_all add: mesh_packet_init_def MESH_PACKET_POOL_SIZE_def fold_list_update_const)

lemma mesh_packet_init_wf: "pool_wf (mesh_packet_init pl) = pool_wf pl"
  by (simp add: pool_wf_def)

section \<open>The scan for a free slot\<close>

lemma acquire_scan_Some:
  "acquire_scan refs i = Some k \<Longrightarrow>
   i \<le> k \<and> k < length refs \<and> refs ! k = 0 \<and> (\<forall>j. i \<le> j \<and> j < k \<longrightarrow> refs ! j \<noteq> 0)"
proof (induction refs i rule: acquire_scan.induct)
  case (1 refs i)
  show ?case
  proof (cases "i < length refs \<and> refs ! i \<noteq> 0")
    case True
    with "1.prems" have "acquire_scan refs (Suc i) = Some k"
      by (simp add: acquire_scan.simps [of refs i])
    with True "1.IH" have IH: "Suc i \<le> k" "k < length refs" "refs ! k = 0"
        "\<And>j. Suc i \<le> j \<Longrightarrow> j < k \<Longrightarrow> refs ! j \<noteq> 0"
      by simp_all
    have "refs ! j \<noteq> 0" if "i \<le> j" "j < k" for j
      using that True IH(4) [of j] by (cases "j = i") auto
    with IH show ?thesis by auto
  next
    case False
    with "1.prems" show ?thesis
      by (auto simp: acquire_scan.simps [of refs i] split: if_splits)
  qed
qed

lemma acquire_scan_None:
  "acquire_scan refs i = None \<longleftrightarrow> (\<forall>j. i \<le> j \<and> j < length refs \<longrightarrow> refs ! j \<noteq> 0)"
proof (induction refs i rule: acquire_scan.induct)
  case (1 refs i)
  show ?case
  proof (cases "i < length refs \<and> refs ! i \<noteq> 0")
    case True
    with "1.IH" have IH: "acquire_scan refs (Suc i) = None \<longleftrightarrow>
        (\<forall>j. Suc i \<le> j \<and> j < length refs \<longrightarrow> refs ! j \<noteq> 0)"
      by simp
    have "(\<forall>j. Suc i \<le> j \<and> j < length refs \<longrightarrow> refs ! j \<noteq> 0) \<longleftrightarrow>
          (\<forall>j. i \<le> j \<and> j < length refs \<longrightarrow> refs ! j \<noteq> 0)"
      using True by (metis Suc_leD Suc_leI le_neq_implies_less)
    with True IH show ?thesis
      by (simp add: acquire_scan.simps [of refs i])
  next
    case False
    then show ?thesis
      by (auto simp: acquire_scan.simps [of refs i])
  qed
qed

lemma T_acquire_scan_bound: "T_acquire_scan refs i \<le> length refs - i + 1"
proof (induction refs i rule: T_acquire_scan.induct)
  case (1 refs i)
  then show ?case
    by (subst T_acquire_scan.simps) (auto simp: Suc_diff_Suc)
qed

lemma T_acquire_scan_found:
  "acquire_scan refs i = Some k \<Longrightarrow> T_acquire_scan refs i = k - i + 1"
proof (induction refs i rule: acquire_scan.induct)
  case (1 refs i)
  show ?case
  proof (cases "i < length refs \<and> refs ! i \<noteq> 0")
    case True
    with "1.prems" have s: "acquire_scan refs (Suc i) = Some k"
      by (simp add: acquire_scan.simps [of refs i])
    from acquire_scan_Some [OF s] have "Suc i \<le> k" by simp
    with True "1.IH" s show ?thesis
      by (simp add: T_acquire_scan.simps [of refs i])
  next
    case False
    with "1.prems" show ?thesis
      by (auto simp: acquire_scan.simps [of refs i] T_acquire_scan.simps [of refs i]
          split: if_splits)
  qed
qed

text \<open>A scan that finds no free slot has tested every slot and the bound once more.\<close>

lemma T_acquire_scan_full:
  "acquire_scan refs i = None \<Longrightarrow> T_acquire_scan refs i = length refs - i + 1"
proof (induction refs i rule: acquire_scan.induct)
  case (1 refs i)
  show ?case
  proof (cases "i < length refs")
    case True
    with "1.prems" have "refs ! i \<noteq> 0" and "acquire_scan refs (Suc i) = None"
      by (auto simp: acquire_scan.simps [of refs i] split: if_splits)
    with True "1.IH" show ?thesis
      by (simp add: T_acquire_scan.simps [of refs i] Suc_diff_Suc)
  next
    case False
    then show ?thesis by (simp add: T_acquire_scan.simps [of refs i])
  qed
qed

text \<open>The reference definition of the scan: the least free index, if there is one.\<close>

definition first_free :: "uint8_t list \<Rightarrow> nat option" where
  "first_free refs =
     (if 0 \<in> set refs then Some (length (takeWhile (\<lambda>r. r \<noteq> 0) refs)) else None)"

lemma acquire_scan_eq_first_free: "acquire_scan refs 0 = first_free refs"
proof (cases "acquire_scan refs 0")
  case None
  then have "0 \<notin> set refs"
    by (auto simp: acquire_scan_None in_set_conv_nth)
  with None show ?thesis by (simp add: first_free_def)
next
  case (Some k)
  from acquire_scan_Some [OF Some]
  have k: "k < length refs" "refs ! k = 0" "\<forall>j<k. refs ! j \<noteq> 0" by auto
  then have "0 \<in> set refs" by (metis nth_mem)
  moreover have "takeWhile (\<lambda>r. r \<noteq> 0) refs = take k refs"
    using k by (intro takeWhile_eq_take_P_nth) auto
  then have "length (takeWhile (\<lambda>r. r \<noteq> 0) refs) = k"
    using k by simp
  ultimately show ?thesis using Some by (simp add: first_free_def)
qed

section \<open>Pointers and slots\<close>

lemma packet_index_alt: "packet_index pl p = unat (p - pool_addr pl) div 40"
  by (simp add: packet_index_def sizeof_mesh_packet_t_eq unat_div)

lemma packet_ptr_sub: "packet_ptr pl i - pool_addr pl = of_nat (i * 40)"
  by (simp add: packet_ptr_def sizeof_mesh_packet_t_eq)

lemma pool_wf_slot_bound:
  "pool_wf pl \<Longrightarrow> i \<le> MESH_PACKET_POOL_SIZE pl \<Longrightarrow> i * 40 < 2 ^ 32"
proof -
  assume "pool_wf pl" and i: "i \<le> MESH_PACKET_POOL_SIZE pl"
  then have "MESH_PACKET_POOL_SIZE pl * 40 < 2 ^ 32" by (rule_tac pool_wf_size_bound)
  moreover from i have "i * 40 \<le> MESH_PACKET_POOL_SIZE pl * 40" by simp
  ultimately show ?thesis by linarith
qed

text \<open>An address inside slot \<open>i\<close>, aligned or not, is mapped to \<open>i\<close>.\<close>

lemma packet_index_inside:
  assumes "i * 40 + d < 2 ^ 32" and "d < 40"
  shows "packet_index pl (packet_ptr pl i + of_nat d) = i"
proof -
  have eq: "packet_ptr pl i + of_nat d - pool_addr pl = (of_nat (i * 40 + d) :: uint32_t)"
    by (simp add: packet_ptr_def sizeof_mesh_packet_t_eq)
  have "unat (of_nat (i * 40 + d) :: uint32_t) = i * 40 + d"
    using assms(1) by (rule unat_of_nat32)
  then have "unat (packet_ptr pl i + of_nat d - pool_addr pl) = i * 40 + d"
    by (simp only: eq)
  with assms(2) show ?thesis by (simp add: packet_index_alt)
qed

lemma packet_index_ptr:
  "pool_wf pl \<Longrightarrow> i \<le> MESH_PACKET_POOL_SIZE pl \<Longrightarrow> packet_index pl (packet_ptr pl i) = i"
  using packet_index_inside [of i 0 pl] pool_wf_slot_bound [of pl i] by simp

lemma packet_ptr_inject:
  assumes "pool_wf pl" "i \<le> MESH_PACKET_POOL_SIZE pl" "j \<le> MESH_PACKET_POOL_SIZE pl"
  shows "packet_ptr pl i = packet_ptr pl j \<longleftrightarrow> i = j"
  using assms by (metis packet_index_ptr)

lemma packet_index_refs_update [simp]:
  "packet_index (pl\<lparr>g_packet_refs := refs\<rparr>) p = packet_index pl p"
  by (simp add: packet_index_def)

lemma packet_ptr_refs_update [simp]:
  "packet_ptr (pl\<lparr>g_packet_refs := refs\<rparr>) i = packet_ptr pl i"
  by (simp add: packet_ptr_def)

section \<open>Acquisition\<close>

lemma mesh_packet_acquire_Some_iff:
  "mesh_packet_acquire pl = (Some p, pl') \<longleftrightarrow>
     (\<exists>i. first_free (g_packet_refs pl) = Some i \<and> p = packet_ptr pl i \<and>
          pl' = pl\<lparr>g_packet_refs := (g_packet_refs pl)[i := 1]\<rparr>)"
  by (auto simp: mesh_packet_acquire_def acquire_scan_eq_first_free split: option.splits)

lemma mesh_packet_acquire_None_iff:
  "mesh_packet_acquire pl = (None, pl') \<longleftrightarrow> 0 \<notin> set (g_packet_refs pl) \<and> pl' = pl"
  by (auto simp: mesh_packet_acquire_def acquire_scan_eq_first_free first_free_def
           split: option.splits if_splits)

lemma first_free_Some:
  "first_free refs = Some i \<longleftrightarrow> i < length refs \<and> refs ! i = 0 \<and> (\<forall>j<i. refs ! j \<noteq> 0)"
proof
  assume "first_free refs = Some i"
  then have "acquire_scan refs 0 = Some i" by (simp add: acquire_scan_eq_first_free)
  from acquire_scan_Some [OF this]
  show "i < length refs \<and> refs ! i = 0 \<and> (\<forall>j<i. refs ! j \<noteq> 0)" by simp
next
  assume r: "i < length refs \<and> refs ! i = 0 \<and> (\<forall>j<i. refs ! j \<noteq> 0)"
  then have "acquire_scan refs 0 \<noteq> None"
    by (auto simp: acquire_scan_None)
  then obtain k where k: "acquire_scan refs 0 = Some k" by auto
  from acquire_scan_Some [OF k] r have "k = i"
    by (metis le0 linorder_neqE_nat)
  with k show "first_free refs = Some i" by (simp add: acquire_scan_eq_first_free)
qed

lemma mesh_packet_acquire_wf:
  "mesh_packet_acquire pl = (r, pl') \<Longrightarrow> pool_wf pl' = pool_wf pl"
  by (cases r) (auto simp: mesh_packet_acquire_None_iff mesh_packet_acquire_Some_iff)

section \<open>Reference counts\<close>

text \<open>The four outcomes of \<^verbatim>\<open>mesh_packet_ref_count_inc\<close>, by the slot of the pointer.\<close>

lemma ref_count_inc_foreign:
  "MESH_PACKET_POOL_SIZE pl < packet_index pl p \<Longrightarrow>
   mesh_packet_ref_count_inc pl p = Inr (False, pl)"
  by (simp add: mesh_packet_ref_count_inc_def)

lemma ref_count_inc_past_end:
  "packet_index pl p = MESH_PACKET_POOL_SIZE pl \<Longrightarrow>
   mesh_packet_ref_count_inc pl p = Inl OutOfBounds"
  by (simp add: mesh_packet_ref_count_inc_def MESH_PACKET_POOL_SIZE_def rd_def)

lemma ref_count_inc_overflow:
  "packet_index pl p < MESH_PACKET_POOL_SIZE pl \<Longrightarrow>
   g_packet_refs pl ! packet_index pl p = 255 \<Longrightarrow>
   mesh_packet_ref_count_inc pl p = Inl (APP_ERROR NRF_ERROR_NO_MEM)"
  by (simp add: mesh_packet_ref_count_inc_def MESH_PACKET_POOL_SIZE_def rd_def)

lemma ref_count_inc_slot:
  "packet_index pl p < MESH_PACKET_POOL_SIZE pl \<Longrightarrow>
   g_packet_refs pl ! packet_index pl p \<noteq> 255 \<Longrightarrow>
   mesh_packet_ref_count_inc pl p =
     Inr (True, pl\<lparr>g_packet_refs :=
                   (g_packet_refs pl)[packet_index pl p := g_packet_refs pl ! packet_index pl p + 1]\<rparr>)"
  by (simp add: mesh_packet_ref_count_inc_def MESH_PACKET_POOL_SIZE_def rd_def
      u8_plus_one_eq_0_iff Let_def)

text \<open>The four outcomes of \<^verbatim>\<open>mesh_packet_ref_count_dec\<close>.\<close>

lemma ref_count_dec_foreign:
  "MESH_PACKET_POOL_SIZE pl < packet_index pl p \<Longrightarrow>
   mesh_packet_ref_count_dec pl p = Inr (False, pl)"
  by (simp add: mesh_packet_ref_count_dec_def)

lemma ref_count_dec_past_end:
  "packet_index pl p = MESH_PACKET_POOL_SIZE pl \<Longrightarrow>
   mesh_packet_ref_count_dec pl p = Inl OutOfBounds"
  by (simp add: mesh_packet_ref_count_dec_def MESH_PACKET_POOL_SIZE_def rd_def)

lemma ref_count_dec_zero:
  "packet_index pl p < MESH_PACKET_POOL_SIZE pl \<Longrightarrow>
   g_packet_refs pl ! packet_index pl p = 0 \<Longrightarrow>
   mesh_packet_ref_count_dec pl p = Inr (False, pl)"
  by (simp add: mesh_packet_ref_count_dec_def MESH_PACKET_POOL_SIZE_def rd_def)

lemma ref_count_dec_slot:
  "packet_index pl p < MESH_PACKET_POOL_SIZE pl \<Longrightarrow>
   g_packet_refs pl ! packet_index pl p \<noteq> 0 \<Longrightarrow>
   mesh_packet_ref_count_dec pl p =
     Inr (True, pl\<lparr>g_packet_refs :=
                   (g_packet_refs pl)[packet_index pl p := g_packet_refs pl ! packet_index pl p - 1]\<rparr>)"
  by (simp add: mesh_packet_ref_count_dec_def MESH_PACKET_POOL_SIZE_def rd_def Let_def)

lemmas ref_count_inc_cases =
  ref_count_inc_foreign ref_count_inc_past_end ref_count_inc_overflow ref_count_inc_slot

lemmas ref_count_dec_cases =
  ref_count_dec_foreign ref_count_dec_past_end ref_count_dec_zero ref_count_dec_slot

text \<open>Inversion: what a returned value says about the call.\<close>

lemma ref_count_inc_True:
  assumes "mesh_packet_ref_count_inc pl p = Inr (True, pl')"
  shows "packet_index pl p < MESH_PACKET_POOL_SIZE pl"
    and "g_packet_refs pl ! packet_index pl p \<noteq> 255"
    and "pl' = pl\<lparr>g_packet_refs :=
                (g_packet_refs pl)[packet_index pl p := g_packet_refs pl ! packet_index pl p + 1]\<rparr>"
  using assms
  by (auto simp: mesh_packet_ref_count_inc_def MESH_PACKET_POOL_SIZE_def rd_def Let_def
      u8_plus_one_eq_0_iff split: if_splits)

lemma ref_count_inc_False:
  "mesh_packet_ref_count_inc pl p = Inr (False, pl') \<Longrightarrow>
   MESH_PACKET_POOL_SIZE pl < packet_index pl p \<and> pl' = pl"
  by (auto simp: mesh_packet_ref_count_inc_def MESH_PACKET_POOL_SIZE_def rd_def Let_def
      split: if_splits)

lemma ref_count_dec_True:
  assumes "mesh_packet_ref_count_dec pl p = Inr (True, pl')"
  shows "packet_index pl p < MESH_PACKET_POOL_SIZE pl"
    and "g_packet_refs pl ! packet_index pl p \<noteq> 0"
    and "pl' = pl\<lparr>g_packet_refs :=
                (g_packet_refs pl)[packet_index pl p := g_packet_refs pl ! packet_index pl p - 1]\<rparr>"
  using assms
  by (auto simp: mesh_packet_ref_count_dec_def MESH_PACKET_POOL_SIZE_def rd_def Let_def
      split: if_splits)

lemma ref_count_dec_False:
  "mesh_packet_ref_count_dec pl p = Inr (False, pl') \<Longrightarrow> pl' = pl"
  by (auto simp: mesh_packet_ref_count_dec_def MESH_PACKET_POOL_SIZE_def rd_def Let_def
      split: if_splits)

lemma ref_count_inc_wf:
  "mesh_packet_ref_count_inc pl p = Inr (b, pl') \<Longrightarrow> pool_wf pl' = pool_wf pl"
  by (cases b) (auto dest: ref_count_inc_True(3) ref_count_inc_False)

lemma ref_count_dec_wf:
  "mesh_packet_ref_count_dec pl p = Inr (b, pl') \<Longrightarrow> pool_wf pl' = pool_wf pl"
  by (cases b) (auto dest: ref_count_dec_True(3) ref_count_dec_False)

section \<open>A pool of two packets\<close>

text \<open>
  The concrete pool of the examples: two packets at address \<open>0x20000000\<close>, the
  start of the nRF51's RAM, given by the counts of its two slots.
\<close>

definition two_pool :: "uint8_t list \<Rightarrow> mesh_pool" where
  "two_pool refs = (boot_pool 0x20000000 2)\<lparr>g_packet_refs := refs\<rparr>"

lemma two_pool_simps [simp]:
  "pool_addr (two_pool refs) = 0x20000000"
  "g_packet_refs (two_pool refs) = refs"
  "MESH_PACKET_POOL_SIZE (two_pool [a, b]) = 2"
  "two_pool refs\<lparr>g_packet_refs := refs'\<rparr> = two_pool refs'"
  by (simp_all add: two_pool_def boot_pool_def MESH_PACKET_POOL_SIZE_def)

lemma two_pool_wf [simp]: "length refs = 2 \<Longrightarrow> pool_wf (two_pool refs)"
  by (simp add: two_pool_def boot_pool_def pool_wf_def MESH_PACKET_POOL_SIZE_def
      sizeof_mesh_packet_t_eq list_all_iff)

lemma two_pool_ptr [simp]:
  "packet_ptr (two_pool refs) 0 = 0x20000000"
  "packet_ptr (two_pool refs) 1 = 0x20000028"
  "packet_ptr (two_pool refs) (Suc 0) = 0x20000028"
  "packet_ptr (two_pool refs) 2 = 0x20000050"
  by (simp_all add: packet_ptr_def sizeof_mesh_packet_t_eq)

lemma two_pool_index [simp]:
  "packet_index (two_pool refs) 0x20000000 = 0"
  "packet_index (two_pool refs) 0x20000028 = 1"
  "packet_index (two_pool refs) 0x20000050 = 2"
  by (simp_all add: packet_index_alt)

lemma two_pool_init [simp]: "mesh_packet_init (two_pool [a, b]) = two_pool [0, 0]"
  by (simp add: mesh_packet_init_def two_pool_def boot_pool_def MESH_PACKET_POOL_SIZE_def
      upt_rec)

lemma two_pool_acquire [simp]:
  "mesh_packet_acquire (two_pool [0, b]) = (Some 0x20000000, two_pool [1, b])"
  "a \<noteq> 0 \<Longrightarrow> mesh_packet_acquire (two_pool [a, 0]) = (Some 0x20000028, two_pool [a, 1])"
  "a \<noteq> 0 \<Longrightarrow> b \<noteq> 0 \<Longrightarrow> mesh_packet_acquire (two_pool [a, b]) = (None, two_pool [a, b])"
  by (simp_all add: mesh_packet_acquire_def acquire_scan_eq_first_free first_free_def)

section \<open>Properties of the scan\<close>

text \<open>
  C40. The loop of \<^verbatim>\<open>mesh_packet_acquire\<close>, started at index 0, returns the least
  index whose reference count is 0, and returns none exactly when no count is 0.
\<close>

theorem acquire_scan_first_free:
  "acquire_scan refs 0 =
     (if \<exists>i < length refs. refs ! i = 0
      then Some (LEAST i. i < length refs \<and> refs ! i = 0) else None)"
proof (cases "acquire_scan refs 0")
  case None
  then show ?thesis
    by (auto simp: acquire_scan_None)
next
  case (Some k)
  from acquire_scan_Some [OF Some]
  have k: "k < length refs" "refs ! k = 0" and least: "\<And>j. j < k \<Longrightarrow> refs ! j \<noteq> 0"
    by auto
  have "(LEAST i. i < length refs \<and> refs ! i = 0) = k"
    using k least by (intro Least_equality) (auto simp: not_less [symmetric])
  with k Some show ?thesis by auto
qed

section \<open>Properties of the reference counts\<close>

text \<open>
  C37. Retain followed by release is the identity on the pool: when
  \<^verbatim>\<open>mesh_packet_ref_count_inc\<close> returns true, \<^verbatim>\<open>mesh_packet_ref_count_dec\<close> on
  the same pointer returns true and restores every count.
\<close>

theorem ref_count_inc_dec_inverse:
  assumes "mesh_packet_ref_count_inc pl p = Inr (True, pl')"
  shows "mesh_packet_ref_count_dec pl' p = Inr (True, pl)"
proof -
  let ?i = "packet_index pl p" and ?r = "g_packet_refs pl ! packet_index pl p"
  note inc = ref_count_inc_True [OF assms]
  have i: "?i < length (g_packet_refs pl)"
    using inc(1) by (simp add: MESH_PACKET_POOL_SIZE_def)
  have nz: "?r + 1 \<noteq> 0"
    using inc(2) by (simp add: u8_plus_one_eq_0_iff)
  show ?thesis
    unfolding inc(3) using i nz
    by (simp add: mesh_packet_ref_count_dec_def MESH_PACKET_POOL_SIZE_def rd_def Let_def)
qed

theorem ref_count_inc_dec_inverse_witness:
  "mesh_packet_ref_count_inc (two_pool [1, 0]) 0x20000000 = Inr (True, two_pool [2, 0]) \<and>
   mesh_packet_ref_count_dec (two_pool [2, 0]) 0x20000000 = Inr (True, two_pool [1, 0])"
proof -
  have inc: "mesh_packet_ref_count_inc (two_pool [1, 0]) 0x20000000 = Inr (True, two_pool [2, 0])"
    by (simp add: ref_count_inc_slot)
  from inc ref_count_inc_dec_inverse [OF inc] show ?thesis by simp
qed

text \<open>
  A release with the count already at 0 returns false and changes nothing: the
  count does not wrap to 255. This holds for every address inside the slot.
\<close>

lemma ref_count_dec_at_zero:
  assumes "pool_wf pl" and "i < MESH_PACKET_POOL_SIZE pl" and "d < 40"
    and "g_packet_refs pl ! i = 0"
  shows "mesh_packet_ref_count_dec pl (packet_ptr pl i + of_nat d) = Inr (False, pl)"
proof -
  have "i * 40 + d < 2 ^ 32"
    using pool_wf_slot_bound [of pl "Suc i"] assms(1-3) by simp
  from this assms(3) have "packet_index pl (packet_ptr pl i + of_nat d) = i"
    by (rule packet_index_inside)
  with assms(2,4) show ?thesis by (simp add: ref_count_dec_zero)
qed

lemma ref_count_dec_at_zero_witness:
  "pool_wf (two_pool [1, 0]) \<and> (1::nat) < MESH_PACKET_POOL_SIZE (two_pool [1, 0]) \<and> (3::nat) < 40 \<and>
   g_packet_refs (two_pool [1, 0]) ! 1 = 0 \<and>
   mesh_packet_ref_count_dec (two_pool [1, 0]) 0x2000002B = Inr (False, two_pool [1, 0])"
  using ref_count_dec_at_zero [of "two_pool [1, 0]" 1 3] by simp

text \<open>
  C9. The guard \<^verbatim>\<open>index > MESH_PACKET_POOL_SIZE\<close> lets the index equal to the
  pool size through: for the one-past-the-end pointer \<^verbatim>\<open>&g_packet_pool[SIZE]\<close> both
  reference-count functions access \<^verbatim>\<open>g_packet_refs\<close> outside its bounds.
\<close>

theorem ref_count_past_end_out_of_bounds:
  assumes "pool_wf pl"
  shows "mesh_packet_ref_count_inc pl (packet_ptr pl (MESH_PACKET_POOL_SIZE pl)) = Inl OutOfBounds \<and>
         mesh_packet_ref_count_dec pl (packet_ptr pl (MESH_PACKET_POOL_SIZE pl)) = Inl OutOfBounds"
  using assms by (simp add: packet_index_ptr ref_count_inc_past_end ref_count_dec_past_end)

theorem ref_count_past_end_out_of_bounds_witness:
  "pool_wf (two_pool [1, 1]) \<and>
   mesh_packet_ref_count_inc (two_pool [1, 1]) 0x20000050 = Inl OutOfBounds \<and>
   mesh_packet_ref_count_dec (two_pool [1, 1]) 0x20000050 = Inl OutOfBounds"
  using ref_count_past_end_out_of_bounds [of "two_pool [1, 1]"] by simp

end
