(* ===== verification/Pool_Pointers.thy ===== *)
theory Pool_Pointers
  imports Packet_Pool
begin

text \<open>
  The two reference-count functions over the whole address space. They take any
  \<^verbatim>\<open>mesh_packet_t*\<close> and find its slot by subtracting the address of the pool and
  dividing by the size of a packet, both on \<^verbatim>\<open>uint32_t\<close>. This theory says what
  that arithmetic does to every 32-bit address: which addresses are refused,
  which reach a reference count, and which reach the byte behind the count array.
  An address below the pool is the case in which the subtraction wraps.
\<close>

section \<open>Classes of addresses\<close>

text \<open>
  An address is in one of the slots (anywhere in it, aligned or not), in the 40
  bytes behind the last slot, or elsewhere.
\<close>

datatype ptr_class = Foreign | PastEnd | Slot nat

definition ptr_class_of :: "mesh_pool \<Rightarrow> uint32_t \<Rightarrow> ptr_class" where
  "ptr_class_of pl p =
     (let a = unat p; b = unat (pool_addr pl); n = MESH_PACKET_POOL_SIZE pl in
      if a < b \<or> b + (n + 1) * sizeof_mesh_packet_t \<le> a then Foreign
      else if b + n * sizeof_mesh_packet_t \<le> a then PastEnd
      else Slot ((a - b) div sizeof_mesh_packet_t))"

text \<open>
  There is room for one more packet between the pool and the end of the address
  space, as there is wherever the pool is not the last object in memory.
\<close>

definition pool_room :: "mesh_pool \<Rightarrow> bool" where
  "pool_room pl \<longleftrightarrow>
     unat (pool_addr pl) + (MESH_PACKET_POOL_SIZE pl + 1) * sizeof_mesh_packet_t \<le> 2 ^ 32"

section \<open>The index of an address\<close>

text \<open>The index computed on words, as a quotient of natural numbers.\<close>

lemma packet_index_address:
  "packet_index pl p =
     (if unat (pool_addr pl) \<le> unat p then (unat p - unat (pool_addr pl)) div 40
      else (unat p + 2 ^ 32 - unat (pool_addr pl)) div 40)"
  by (simp add: packet_index_alt unat_sub_if')

lemma offset_index:
  fixes d n :: nat
  shows "d < n * 40 \<Longrightarrow> d div 40 < n"
    and "n * 40 \<le> d \<Longrightarrow> d < (n + 1) * 40 \<Longrightarrow> d div 40 = n"
    and "(n + 1) * 40 \<le> d \<Longrightarrow> n < d div 40"
  by (simp_all add: div_less_iff_less_mult less_eq_div_iff_mult_less_eq Suc_le_eq [symmetric]
      div_nat_eqI)

lemma ptr_class_of_cases:
  "unat p < unat (pool_addr pl) \<or>
   unat (pool_addr pl) + (MESH_PACKET_POOL_SIZE pl + 1) * 40 \<le> unat p \<Longrightarrow>
   ptr_class_of pl p = Foreign"
  "unat (pool_addr pl) + MESH_PACKET_POOL_SIZE pl * 40 \<le> unat p \<Longrightarrow>
   unat p < unat (pool_addr pl) + (MESH_PACKET_POOL_SIZE pl + 1) * 40 \<Longrightarrow>
   ptr_class_of pl p = PastEnd"
  "unat (pool_addr pl) \<le> unat p \<Longrightarrow>
   unat p < unat (pool_addr pl) + MESH_PACKET_POOL_SIZE pl * 40 \<Longrightarrow>
   ptr_class_of pl p = Slot ((unat p - unat (pool_addr pl)) div 40)"
  by (simp_all add: ptr_class_of_def Let_def sizeof_mesh_packet_t_eq)

lemma packet_index_class:
  assumes "pool_room pl"
  shows "case ptr_class_of pl p of
           Foreign \<Rightarrow> MESH_PACKET_POOL_SIZE pl < packet_index pl p
         | PastEnd \<Rightarrow> packet_index pl p = MESH_PACKET_POOL_SIZE pl
         | Slot i \<Rightarrow> packet_index pl p = i \<and> i < MESH_PACKET_POOL_SIZE pl"
proof -
  let ?a = "unat p" and ?b = "unat (pool_addr pl)" and ?n = "MESH_PACKET_POOL_SIZE pl"
  from assms have room: "?b + (?n + 1) * 40 \<le> 2 ^ 32"
    by (simp add: pool_room_def sizeof_mesh_packet_t_eq)
  consider (below) "?a < ?b" | (slot) "?b \<le> ?a" "?a < ?b + ?n * 40"
    | (past) "?b + ?n * 40 \<le> ?a" "?a < ?b + (?n + 1) * 40" | (above) "?b + (?n + 1) * 40 \<le> ?a"
    by linarith
  then show ?thesis
  proof cases
    case below
    with room have "(?n + 1) * 40 \<le> ?a + 2 ^ 32 - ?b" by linarith
    then have "?n < (?a + 2 ^ 32 - ?b) div 40" by (rule offset_index(3))
    with below show ?thesis
      by (simp add: ptr_class_of_cases(1) packet_index_address)
  next
    case slot
    then have "?a - ?b < ?n * 40" by linarith
    then have "(?a - ?b) div 40 < ?n" by (rule offset_index(1))
    with slot show ?thesis
      by (simp add: ptr_class_of_cases(3) packet_index_address)
  next
    case past
    then have le: "?b \<le> ?a" by linarith
    from past have "?n * 40 \<le> ?a - ?b" "?a - ?b < (?n + 1) * 40" by linarith+
    then have "(?a - ?b) div 40 = ?n" by (rule offset_index(2))
    with past le show ?thesis
      by (simp add: ptr_class_of_cases(2) packet_index_address)
  next
    case above
    then have le: "?b \<le> ?a" by linarith
    from above have "(?n + 1) * 40 \<le> ?a - ?b" by linarith
    then have "?n < (?a - ?b) div 40" by (rule offset_index(3))
    with above le show ?thesis
      by (simp add: ptr_class_of_cases(1) packet_index_address)
  qed
qed

lemma packet_index_classD:
  assumes "pool_room pl"
  shows "ptr_class_of pl p = Foreign \<Longrightarrow> MESH_PACKET_POOL_SIZE pl < packet_index pl p"
    and "ptr_class_of pl p = PastEnd \<Longrightarrow> packet_index pl p = MESH_PACKET_POOL_SIZE pl"
    and "ptr_class_of pl p = Slot i \<Longrightarrow> packet_index pl p = i \<and> i < MESH_PACKET_POOL_SIZE pl"
  using packet_index_class [OF assms, of p] by simp_all

text \<open>The address of a slot, and every address inside it, is in the class of the slot.\<close>

lemma ptr_class_of_slot:
  assumes "pool_wf pl" and "i < MESH_PACKET_POOL_SIZE pl" and "d < 40"
  shows "ptr_class_of pl (packet_ptr pl i + of_nat d) = Slot i"
proof -
  let ?b = "unat (pool_addr pl)" and ?n = "MESH_PACKET_POOL_SIZE pl"
  from assms have fit: "?b + (i * 40 + d) < 2 ^ 32" and less: "i * 40 + d < ?n * 40"
    by (simp_all add: pool_wf_def sizeof_mesh_packet_t_eq)
  have "packet_ptr pl i + of_nat d = pool_addr pl + of_nat (i * 40 + d)"
    by (simp add: packet_ptr_def sizeof_mesh_packet_t_eq)
  moreover from fit have u: "unat (of_nat (i * 40 + d) :: uint32_t) = i * 40 + d"
    by (intro unat_of_nat32) simp
  with fit have "?b + unat (of_nat (i * 40 + d) :: uint32_t) < 2 ^ LENGTH(32)"
    by simp
  then have "unat (pool_addr pl + of_nat (i * 40 + d)) =
      ?b + unat (of_nat (i * 40 + d) :: uint32_t)"
    by (simp only: unat_add_lem)
  then have "unat (pool_addr pl + of_nat (i * 40 + d)) = ?b + (i * 40 + d)"
    by (simp only: u)
  ultimately have a: "unat (packet_ptr pl i + of_nat d) = ?b + (i * 40 + d)"
    by (simp only:)
  from assms(3) have "(i * 40 + d) div 40 = i" by simp
  with ptr_class_of_cases(3) [of pl "packet_ptr pl i + of_nat d"] less show ?thesis
    by (simp add: a)
qed

section \<open>The reference-count functions by class\<close>

lemma ref_count_inc_class:
  assumes "pool_room pl"
  shows "mesh_packet_ref_count_inc pl p =
         (case ptr_class_of pl p of
            Foreign \<Rightarrow> Inr (False, pl)
          | PastEnd \<Rightarrow> Inl OutOfBounds
          | Slot i \<Rightarrow>
              if g_packet_refs pl ! i = 255 then Inl (APP_ERROR NRF_ERROR_NO_MEM)
              else Inr (True, pl\<lparr>g_packet_refs :=
                                  (g_packet_refs pl)[i := g_packet_refs pl ! i + 1]\<rparr>))"
  using packet_index_classD [OF assms, of p]
  by (cases "ptr_class_of pl p") (auto simp: ref_count_inc_cases)

lemma ref_count_dec_class:
  assumes "pool_room pl"
  shows "mesh_packet_ref_count_dec pl p =
         (case ptr_class_of pl p of
            Foreign \<Rightarrow> Inr (False, pl)
          | PastEnd \<Rightarrow> Inl OutOfBounds
          | Slot i \<Rightarrow>
              if g_packet_refs pl ! i = 0 then Inr (False, pl)
              else Inr (True, pl\<lparr>g_packet_refs :=
                                  (g_packet_refs pl)[i := g_packet_refs pl ! i - 1]\<rparr>))"
  using packet_index_classD [OF assms, of p]
  by (cases "ptr_class_of pl p") (auto simp: ref_count_dec_cases)

text \<open>\<^verbatim>\<open>NULL\<close> is refused, unless the pool starts at address 0.\<close>

lemma ref_count_NULL:
  assumes "pool_room pl" and "pool_addr pl \<noteq> 0"
  shows "mesh_packet_ref_count_inc pl 0 = Inr (False, pl)"
    and "mesh_packet_ref_count_dec pl 0 = Inr (False, pl)"
proof -
  from assms(2) have "ptr_class_of pl 0 = Foreign"
    by (intro ptr_class_of_cases(1)) (simp add: unat_gt_0)
  then show "mesh_packet_ref_count_inc pl 0 = Inr (False, pl)"
    and "mesh_packet_ref_count_dec pl 0 = Inr (False, pl)"
    by (simp_all add: ref_count_inc_class [OF assms(1)] ref_count_dec_class [OF assms(1)])
qed

section \<open>Below the pool\<close>

text \<open>
  For an address below the pool the subtraction wraps, and the index is that of
  the address plus \<open>2^32\<close>. With room above the pool this index is beyond the
  count array; in a pool that ends less than 40 bytes below the end of the
  address space, addresses from 0 on are mapped to the byte behind the array.
\<close>

lemma ref_count_below_pool_wraps:
  assumes "unat p < unat (pool_addr pl)"
    and "MESH_PACKET_POOL_SIZE pl * 40 \<le> unat p + 2 ^ 32 - unat (pool_addr pl)"
    and "unat p + 2 ^ 32 - unat (pool_addr pl) < (MESH_PACKET_POOL_SIZE pl + 1) * 40"
  shows "mesh_packet_ref_count_inc pl p = Inl OutOfBounds"
    and "mesh_packet_ref_count_dec pl p = Inl OutOfBounds"
proof -
  from assms(1) offset_index(2) [OF assms(2,3)]
  have "packet_index pl p = MESH_PACKET_POOL_SIZE pl"
    by (simp add: packet_index_address)
  then show "mesh_packet_ref_count_inc pl p = Inl OutOfBounds"
    and "mesh_packet_ref_count_dec pl p = Inl OutOfBounds"
    by (rule ref_count_inc_past_end, rule ref_count_dec_past_end)
qed

lemma ref_count_NULL_top_of_memory:
  "pool_wf (boot_pool 0xFFFFFFC0 1) \<and>
   mesh_packet_ref_count_inc (boot_pool 0xFFFFFFC0 1) 0 = Inl OutOfBounds"
proof -
  have "pool_wf (boot_pool 0xFFFFFFC0 1)"
    by (intro boot_pool_wf) simp
  moreover have "mesh_packet_ref_count_inc (boot_pool 0xFFFFFFC0 1) 0 = Inl OutOfBounds"
    by (intro ref_count_below_pool_wraps(1)) (simp_all add: boot_pool_def MESH_PACKET_POOL_SIZE_def)
  ultimately show ?thesis ..
qed

section \<open>Properties\<close>

text \<open>
  C10. The reference-count functions over the whole address space. Where there is
  room for one more packet above the pool, every 32-bit address is in one of
  three classes, and the class decides the call. An address below the pool or 40
  bytes or more behind its last slot is refused with \<^verbatim>\<open>false\<close> and nothing
  changes. An address in a slot, aligned or not, works on the count of that slot:
  the increment ends in the fatal error at 255, the decrement returns \<^verbatim>\<open>false\<close>
  at 0. An address in the 40 bytes behind the last slot is not refused: both
  functions access \<^verbatim>\<open>g_packet_refs\<close> behind its end.
\<close>

theorem ref_count_by_address:
  assumes "pool_room pl"
  shows "mesh_packet_ref_count_inc pl p =
           (case ptr_class_of pl p of
              Foreign \<Rightarrow> Inr (False, pl)
            | PastEnd \<Rightarrow> Inl OutOfBounds
            | Slot i \<Rightarrow>
                if g_packet_refs pl ! i = 255 then Inl (APP_ERROR NRF_ERROR_NO_MEM)
                else Inr (True, pl\<lparr>g_packet_refs :=
                                    (g_packet_refs pl)[i := g_packet_refs pl ! i + 1]\<rparr>)) \<and>
         mesh_packet_ref_count_dec pl p =
           (case ptr_class_of pl p of
              Foreign \<Rightarrow> Inr (False, pl)
            | PastEnd \<Rightarrow> Inl OutOfBounds
            | Slot i \<Rightarrow>
                if g_packet_refs pl ! i = 0 then Inr (False, pl)
                else Inr (True, pl\<lparr>g_packet_refs :=
                                    (g_packet_refs pl)[i := g_packet_refs pl ! i - 1]\<rparr>))"
  using ref_count_inc_class [OF assms] ref_count_dec_class [OF assms] by simp

section \<open>Witnesses\<close>

text \<open>
  The pool of two slots at \<open>0x20000000\<close>: \<^verbatim>\<open>NULL\<close>, an address three bytes into
  the second slot, and the address behind the second slot.
\<close>

lemma two_pool_room [simp]: "pool_room (two_pool [a, b])"
  by (simp add: pool_room_def sizeof_mesh_packet_t_eq)

lemma two_pool_classes [simp]:
  "ptr_class_of (two_pool [a, b]) 0 = Foreign"
  "ptr_class_of (two_pool [a, b]) 0x2000002B = Slot 1"
  "ptr_class_of (two_pool [a, b]) 0x20000050 = PastEnd"
  by (simp_all add: ptr_class_of_def Let_def sizeof_mesh_packet_t_eq)

theorem ref_count_by_address_witness:
  "mesh_packet_ref_count_inc (two_pool [1, 0]) 0 = Inr (False, two_pool [1, 0]) \<and>
   mesh_packet_ref_count_inc (two_pool [1, 0]) 0x2000002B = Inr (True, two_pool [1, 1]) \<and>
   mesh_packet_ref_count_dec (two_pool [1, 0]) 0x2000002B = Inr (False, two_pool [1, 0]) \<and>
   mesh_packet_ref_count_dec (two_pool [1, 0]) 0x20000050 = Inl OutOfBounds"
  using ref_count_by_address [of "two_pool [1, 0]" 0]
    ref_count_by_address [of "two_pool [1, 0]" "0x2000002B"]
    ref_count_by_address [of "two_pool [1, 0]" "0x20000050"]
  by simp

end
