(* ===== verification/Pool_Machine.thy ===== *)
theory Pool_Machine
  imports Packet_Pool
begin

text \<open>
  The pool as a state machine. The five entry points of the pool become one
  datatype of operations with a step function and a run over a list of operations,
  the order in which a single execution context calls them. On top of it sits the
  ownership discipline the pool's callers have to keep (a reference is retained or
  released only by a holder of it), as an inductive relation between pool states
  and the multiset of references currently held. Its invariant, that each count
  is the number of held references to the slot, gives the pool's contract: a held
  slot is never handed out, the pool is exhausted exactly when every slot is held,
  and releasing the last reference makes the slot available again.
\<close>

section \<open>Operations and steps\<close>

datatype pool_op = Init | TsBegin | Acquire | RefCountInc uint32_t | RefCountDec uint32_t

datatype pool_ret = RetVoid | RetPacket "uint32_t option" | RetBool bool

fun pool_step :: "mesh_pool \<Rightarrow> pool_op \<Rightarrow> (pool_ret \<times> mesh_pool) result" where
  "pool_step pl Init = Inr (RetVoid, mesh_packet_init pl)"
| "pool_step pl TsBegin = Inr (RetVoid, mesh_packet_on_ts_begin pl)"
| "pool_step pl Acquire =
     (case mesh_packet_acquire pl of (r, pl') \<Rightarrow> Inr (RetPacket r, pl'))"
| "pool_step pl (RefCountInc p) =
     bindR (mesh_packet_ref_count_inc pl p) (\<lambda>(b, pl'). Inr (RetBool b, pl'))"
| "pool_step pl (RefCountDec p) =
     bindR (mesh_packet_ref_count_dec pl p) (\<lambda>(b, pl'). Inr (RetBool b, pl'))"

fun pool_run :: "mesh_pool \<Rightarrow> pool_op list \<Rightarrow> (pool_ret list \<times> mesh_pool) result" where
  "pool_run pl [] = Inr ([], pl)"
| "pool_run pl (x # xs) =
     bindR (pool_step pl x) (\<lambda>(r, pl').
       bindR (pool_run pl' xs) (\<lambda>(rs, pl''). Inr (r # rs, pl'')))"

fun_cases pool_step_InitE: "pool_step pl Init = Inr (r, pl')"
fun_cases pool_step_AcquireE: "pool_step pl Acquire = Inr (r, pl')"
fun_cases pool_step_IncE: "pool_step pl (RefCountInc p) = Inr (r, pl')"
fun_cases pool_step_DecE: "pool_step pl (RefCountDec p) = Inr (r, pl')"

lemma pool_run_append:
  "pool_run pl (xs @ ys) =
     bindR (pool_run pl xs) (\<lambda>(rs, pl').
       bindR (pool_run pl' ys) (\<lambda>(rs', pl''). Inr (rs @ rs', pl'')))"
proof (induction xs arbitrary: pl)
  case Nil
  show ?case by (cases "pool_run pl ys") auto
next
  case (Cons x xs)
  show ?case
    by (simp add: Cons.IH bindR_assoc split_def)
qed

section \<open>Every step keeps the pool well formed and its layout fixed\<close>

lemma pool_step_frame:
  assumes "pool_step pl x = Inr (r, pl')"
  shows "pool_addr pl' = pool_addr pl"
    and "g_packet_pool pl' = g_packet_pool pl"
    and "MESH_PACKET_POOL_SIZE pl' = MESH_PACKET_POOL_SIZE pl"
proof -
  have "pool_addr pl' = pool_addr pl \<and> g_packet_pool pl' = g_packet_pool pl \<and>
        MESH_PACKET_POOL_SIZE pl' = MESH_PACKET_POOL_SIZE pl"
  proof (cases x)
    case Init
    with assms show ?thesis by auto
  next
    case TsBegin
    with assms show ?thesis by (auto simp: mesh_packet_on_ts_begin_def)
  next
    case Acquire
    with assms show ?thesis
      by (cases "fst (mesh_packet_acquire pl)")
         (auto simp: mesh_packet_acquire_None_iff mesh_packet_acquire_Some_iff
               MESH_PACKET_POOL_SIZE_def split: prod.splits)
  next
    case (RefCountInc p)
    with assms obtain b where "mesh_packet_ref_count_inc pl p = Inr (b, pl')"
      by (auto simp: bindR_eq_Inr_iff)
    then show ?thesis
      by (cases b) (auto dest!: ref_count_inc_True(3) ref_count_inc_False
                         simp: MESH_PACKET_POOL_SIZE_def)
  next
    case (RefCountDec p)
    with assms obtain b where "mesh_packet_ref_count_dec pl p = Inr (b, pl')"
      by (auto simp: bindR_eq_Inr_iff)
    then show ?thesis
      by (cases b) (auto dest!: ref_count_dec_True(3) ref_count_dec_False
                         simp: MESH_PACKET_POOL_SIZE_def)
  qed
  then show "pool_addr pl' = pool_addr pl" "g_packet_pool pl' = g_packet_pool pl"
    "MESH_PACKET_POOL_SIZE pl' = MESH_PACKET_POOL_SIZE pl"
    by simp_all
qed

lemma pool_step_wf:
  assumes "pool_step pl x = Inr (r, pl')"
  shows "pool_wf pl' = pool_wf pl"
  using pool_step_frame [OF assms] by (simp add: pool_wf_def)

lemma pool_run_frame:
  "pool_run pl xs = Inr (rs, pl') \<Longrightarrow>
   pool_addr pl' = pool_addr pl \<and> g_packet_pool pl' = g_packet_pool pl"
proof (induction xs arbitrary: pl rs)
  case Nil
  then show ?case by simp
next
  case (Cons x xs)
  from Cons.prems obtain r pl1 rs' where
    s: "pool_step pl x = Inr (r, pl1)" and t: "pool_run pl1 xs = Inr (rs', pl')"
    by (auto simp: bindR_eq_Inr_iff)
  from Cons.IH [OF t] pool_step_frame(1,2) [OF s] show ?case by simp
qed

lemma pool_run_wf:
  "pool_run pl xs = Inr (rs, pl') \<Longrightarrow> pool_wf pl' = pool_wf pl"
proof (induction xs arbitrary: pl rs)
  case Nil
  then show ?case by simp
next
  case (Cons x xs)
  from Cons.prems obtain r pl1 rs' where
    s: "pool_step pl x = Inr (r, pl1)" and t: "pool_run pl1 xs = Inr (rs', pl')"
    by (auto simp: bindR_eq_Inr_iff)
  from Cons.IH [OF t] pool_step_wf [OF s] show ?case by simp
qed

section \<open>The ownership discipline\<close>

text \<open>
  \<open>owned pl H\<close>: the pool state \<open>pl\<close> is reached from an initialised pool by
  callers that together hold the references \<open>H\<close>. Acquisition adds the returned
  pointer; a holder may add a reference with \<^verbatim>\<open>mesh_packet_ref_count_inc\<close> or
  give one up with \<^verbatim>\<open>mesh_packet_ref_count_dec\<close>. Calls that return failure
  leave the pool as it is and need no rule.
\<close>

inductive owned :: "mesh_pool \<Rightarrow> uint32_t multiset \<Rightarrow> bool" where
  owned_init: "pool_wf pl \<Longrightarrow> owned (mesh_packet_init pl) {#}"
| owned_acquire:
    "owned pl H \<Longrightarrow> mesh_packet_acquire pl = (Some p, pl') \<Longrightarrow> owned pl' (add_mset p H)"
| owned_retain:
    "owned pl H \<Longrightarrow> p \<in># H \<Longrightarrow> mesh_packet_ref_count_inc pl p = Inr (True, pl') \<Longrightarrow>
     owned pl' (add_mset p H)"
| owned_release:
    "owned pl H \<Longrightarrow> p \<in># H \<Longrightarrow> mesh_packet_ref_count_dec pl p = Inr (True, pl') \<Longrightarrow>
     owned pl' (H - {#p#})"

text \<open>Each count is the number of held references to its slot, and only slots are held.\<close>

definition counts_agree :: "mesh_pool \<Rightarrow> uint32_t multiset \<Rightarrow> bool" where
  "counts_agree pl H \<longleftrightarrow>
     pool_wf pl \<and>
     (\<forall>p. p \<in># H \<longrightarrow> (\<exists>i < MESH_PACKET_POOL_SIZE pl. p = packet_ptr pl i)) \<and>
     (\<forall>i < MESH_PACKET_POOL_SIZE pl. unat (g_packet_refs pl ! i) = count H (packet_ptr pl i))"

lemma counts_agreeD:
  assumes "counts_agree pl H"
  shows "pool_wf pl"
    and "p \<in># H \<Longrightarrow> \<exists>i < MESH_PACKET_POOL_SIZE pl. p = packet_ptr pl i"
    and "i < MESH_PACKET_POOL_SIZE pl \<Longrightarrow> unat (g_packet_refs pl ! i) = count H (packet_ptr pl i)"
  using assms by (auto simp: counts_agree_def)

lemma counts_agree_held_slot:
  assumes "counts_agree pl H" and "p \<in># H"
  obtains i where "i < MESH_PACKET_POOL_SIZE pl" "p = packet_ptr pl i"
    "packet_index pl p = i" "g_packet_refs pl ! i \<noteq> 0"
proof -
  from counts_agreeD(2) [OF assms] obtain i where
    i: "i < MESH_PACKET_POOL_SIZE pl" "p = packet_ptr pl i" by auto
  have "packet_index pl p = i"
    using counts_agreeD(1) [OF assms(1)] i by (simp add: packet_index_ptr)
  moreover have "unat (g_packet_refs pl ! i) \<noteq> 0"
    using counts_agreeD(3) [OF assms(1) i(1)] assms(2) i(2) by simp
  then have "g_packet_refs pl ! i \<noteq> 0" by auto
  ultimately show ?thesis using i that by blast
qed

text \<open>
  The shared step of all preservation proofs: writing the count of one slot, with
  the held references changed only at that slot.
\<close>

lemma counts_agree_update:
  assumes ca: "counts_agree pl H" and i: "i < MESH_PACKET_POOL_SIZE pl"
    and v: "unat v = count H' (packet_ptr pl i)"
    and others: "\<And>q. q \<noteq> packet_ptr pl i \<Longrightarrow> count H' q = count H q"
  shows "counts_agree (pl\<lparr>g_packet_refs := (g_packet_refs pl)[i := v]\<rparr>) H'"
proof -
  let ?pl' = "pl\<lparr>g_packet_refs := (g_packet_refs pl)[i := v]\<rparr>"
  note wf = counts_agreeD(1) [OF ca]
  have size: "MESH_PACKET_POOL_SIZE ?pl' = MESH_PACKET_POOL_SIZE pl"
    by (simp add: MESH_PACKET_POOL_SIZE_def)
  have "pool_wf ?pl'" using wf by simp
  moreover have "\<exists>j < MESH_PACKET_POOL_SIZE ?pl'. p = packet_ptr ?pl' j" if "p \<in># H'" for p
  proof (cases "p = packet_ptr pl i")
    case True
    with i show ?thesis unfolding size by auto
  next
    case False
    with that others [of p] have "p \<in># H" by (simp add: count_greater_zero_iff [symmetric] del: count_greater_zero_iff)
    from counts_agreeD(2) [OF ca this] show ?thesis unfolding size by simp
  qed
  moreover have "unat (g_packet_refs ?pl' ! j) = count H' (packet_ptr ?pl' j)"
    if "j < MESH_PACKET_POOL_SIZE ?pl'" for j
  proof (cases "j = i")
    case True
    with i v show ?thesis by (simp add: MESH_PACKET_POOL_SIZE_def)
  next
    case False
    from that have j: "j < MESH_PACKET_POOL_SIZE pl" unfolding size .
    with False i wf have "packet_ptr pl j \<noteq> packet_ptr pl i"
      by (simp add: packet_ptr_inject)
    with others have "count H' (packet_ptr pl j) = count H (packet_ptr pl j)" by simp
    with False counts_agreeD(3) [OF ca j] show ?thesis by simp
  qed
  ultimately show ?thesis unfolding counts_agree_def by blast
qed

lemma counts_agree_init: "pool_wf pl \<Longrightarrow> counts_agree (mesh_packet_init pl) {#}"
  by (simp add: counts_agree_def mesh_packet_init_wf mesh_packet_init_refs)

lemma counts_agree_acquire:
  assumes ca: "counts_agree pl H" and acq: "mesh_packet_acquire pl = (Some p, pl')"
  shows "counts_agree pl' (add_mset p H)" and "p \<notin># H"
proof -
  from acq obtain i where ff: "first_free (g_packet_refs pl) = Some i"
    and p: "p = packet_ptr pl i"
    and pl': "pl' = pl\<lparr>g_packet_refs := (g_packet_refs pl)[i := 1]\<rparr>"
    by (auto simp: mesh_packet_acquire_Some_iff)
  from ff have i: "i < MESH_PACKET_POOL_SIZE pl" and zero: "g_packet_refs pl ! i = 0"
    by (auto simp: first_free_Some MESH_PACKET_POOL_SIZE_def)
  from counts_agreeD(3) [OF ca i] zero have free: "count H (packet_ptr pl i) = 0" by simp
  then show "p \<notin># H" by (simp add: p count_eq_zero_iff)
  from free have "unat (1 :: uint8_t) = count (add_mset p H) (packet_ptr pl i)"
    by (simp add: p)
  with ca i show "counts_agree pl' (add_mset p H)"
    unfolding pl' by (rule counts_agree_update) (simp add: p)
qed

lemma counts_agree_retain:
  assumes ca: "counts_agree pl H" and held: "p \<in># H"
    and inc: "mesh_packet_ref_count_inc pl p = Inr (True, pl')"
  shows "counts_agree pl' (add_mset p H)"
proof -
  from ca held obtain i where i: "i < MESH_PACKET_POOL_SIZE pl" and p: "p = packet_ptr pl i"
    and idx: "packet_index pl p = i"
    by (rule counts_agree_held_slot)
  from ref_count_inc_True [OF inc] idx
  have r: "g_packet_refs pl ! i \<noteq> 255"
    and pl': "pl' = pl\<lparr>g_packet_refs := (g_packet_refs pl)[i := g_packet_refs pl ! i + 1]\<rparr>"
    by simp_all
  from r have "unat (g_packet_refs pl ! i + 1) = unat (g_packet_refs pl ! i) + 1"
    by (rule unat_plus_one_u8)
  with counts_agreeD(3) [OF ca i]
  have "unat (g_packet_refs pl ! i + 1) = count (add_mset p H) (packet_ptr pl i)"
    by (simp add: p)
  with ca i show ?thesis
    unfolding pl' by (rule counts_agree_update) (simp add: p)
qed

lemma counts_agree_release:
  assumes ca: "counts_agree pl H" and held: "p \<in># H"
    and dec: "mesh_packet_ref_count_dec pl p = Inr (True, pl')"
  shows "counts_agree pl' (H - {#p#})"
proof -
  from ca held obtain i where i: "i < MESH_PACKET_POOL_SIZE pl" and p: "p = packet_ptr pl i"
    and idx: "packet_index pl p = i" and nz: "g_packet_refs pl ! i \<noteq> 0"
    by (rule counts_agree_held_slot)
  from ref_count_dec_True(3) [OF dec] idx
  have pl': "pl' = pl\<lparr>g_packet_refs := (g_packet_refs pl)[i := g_packet_refs pl ! i - 1]\<rparr>"
    by simp
  from nz have "unat (g_packet_refs pl ! i - 1) = unat (g_packet_refs pl ! i) - 1"
    by (rule unat_minus_one_u8)
  with counts_agreeD(3) [OF ca i]
  have "unat (g_packet_refs pl ! i - 1) = count (H - {#p#}) (packet_ptr pl i)"
    by (simp add: p)
  with ca i show ?thesis
    unfolding pl' by (rule counts_agree_update) (simp add: p)
qed

lemma owned_counts_agree: "owned pl H \<Longrightarrow> counts_agree pl H"
proof (induction rule: owned.induct)
  case (owned_init pl)
  then show ?case by (rule counts_agree_init)
next
  case (owned_acquire pl H p pl')
  then show ?case by (blast intro: counts_agree_acquire(1))
next
  case (owned_retain pl H p pl')
  then show ?case by (blast intro: counts_agree_retain)
next
  case (owned_release pl H p pl')
  then show ?case by (blast intro: counts_agree_release)
qed

section \<open>Reaching the states of the two-packet pool\<close>

lemma owned_two_pool_0: "owned (two_pool [0, 0]) {#}"
  using owned_init [of "two_pool [0, 0]"] by simp

lemma owned_two_pool_1: "owned (two_pool [1, 0]) {#0x20000000#}"
  using owned_acquire [OF owned_two_pool_0, of "0x20000000" "two_pool [1, 0]"] by simp

lemma owned_two_pool_2: "owned (two_pool [1, 1]) {#0x20000028, 0x20000000#}"
  using owned_acquire [OF owned_two_pool_1, of "0x20000028" "two_pool [1, 1]"] by simp

lemma all_two_pool_slots:
  "(\<forall>i < MESH_PACKET_POOL_SIZE (two_pool [a, b]). P (packet_ptr (two_pool [a, b]) i)) \<longleftrightarrow>
   P 0x20000000 \<and> P 0x20000028"
  by (auto simp: less_2_cases_iff)

section \<open>What a holder can rely on\<close>

lemma owned_release_succeeds:
  assumes "owned pl H" and "p \<in># H"
  obtains pl' where "mesh_packet_ref_count_dec pl p = Inr (True, pl')" "owned pl' (H - {#p#})"
proof -
  from owned_counts_agree [OF assms(1)] assms(2) obtain i where
    "i < MESH_PACKET_POOL_SIZE pl" "packet_index pl p = i" "g_packet_refs pl ! i \<noteq> 0"
    by (rule counts_agree_held_slot)
  then have dec: "mesh_packet_ref_count_dec pl p =
      Inr (True, pl\<lparr>g_packet_refs := (g_packet_refs pl)[i := g_packet_refs pl ! i - 1]\<rparr>)"
    using ref_count_dec_slot [of pl p] by simp
  with assms show ?thesis by (blast intro: that owned_release)
qed

lemma owned_all_held_iff:
  assumes "owned pl H"
  shows "0 \<notin> set (g_packet_refs pl) \<longleftrightarrow> (\<forall>i < MESH_PACKET_POOL_SIZE pl. packet_ptr pl i \<in># H)"
proof -
  note ca = owned_counts_agree [OF assms]
  have "g_packet_refs pl ! i \<noteq> 0 \<longleftrightarrow> packet_ptr pl i \<in># H"
    if "i < MESH_PACKET_POOL_SIZE pl" for i
    using counts_agreeD(3) [OF ca that]
    by (metis count_eq_zero_iff unat_eq_zero)
  then show ?thesis
    by (auto simp: in_set_conv_nth MESH_PACKET_POOL_SIZE_def)
qed

text \<open>
  C1. A slot that is held is never handed out: under the ownership discipline the
  pointer that \<^verbatim>\<open>mesh_packet_acquire\<close> returns is not among the held references.
\<close>

theorem acquire_never_returns_held:
  assumes "owned pl H" and "mesh_packet_acquire pl = (Some p, pl')"
  shows "p \<notin># H"
  using owned_counts_agree [OF assms(1)] assms(2) by (rule counts_agree_acquire(2))

text \<open>
  C2. The reference count of every slot is the number of references to it that are
  currently held, in every state the discipline reaches.
\<close>

theorem ref_counts_are_held_references:
  assumes "owned pl H" and "i < MESH_PACKET_POOL_SIZE pl"
  shows "unat (g_packet_refs pl ! i) = count H (packet_ptr pl i)"
  using owned_counts_agree [OF assms(1)] assms(2) by (rule counts_agreeD(3))

text \<open>
  Pool exhaustion: \<^verbatim>\<open>mesh_packet_acquire\<close> fails, leaving the pool as it is,
  exactly when every slot of the pool is held.
\<close>

lemma pool_exhausted_iff_all_held:
  assumes "owned pl H"
  shows "mesh_packet_acquire pl = (None, pl) \<longleftrightarrow>
         (\<forall>i < MESH_PACKET_POOL_SIZE pl. packet_ptr pl i \<in># H)"
  using owned_all_held_iff [OF assms] by (simp add: mesh_packet_acquire_None_iff)

text \<open>
  A holder's release never fails and never faults: for a held reference
  \<^verbatim>\<open>mesh_packet_ref_count_dec\<close> returns true, and the state it leaves is the one
  in which that reference is no longer held.
\<close>

lemma holder_release_succeeds:
  assumes "owned pl H" and "p \<in># H"
  shows "\<exists>pl'. mesh_packet_ref_count_dec pl p = Inr (True, pl') \<and> owned pl' (H - {#p#})"
  using assms by (blast elim: owned_release_succeeds)

text \<open>
  C38. A holder's retain succeeds while fewer than 255 references to the slot are
  held; with 255 held the count wraps to 0 and the call ends in the application
  error handler with \<^verbatim>\<open>NRF_ERROR_NO_MEM\<close>.
\<close>

theorem holder_retain_outcome:
  assumes "owned pl H" and "p \<in># H"
  shows "if count H p = 255
         then mesh_packet_ref_count_inc pl p = Inl (APP_ERROR NRF_ERROR_NO_MEM)
         else (\<exists>pl'. mesh_packet_ref_count_inc pl p = Inr (True, pl') \<and> owned pl' (add_mset p H))"
proof -
  note ca = owned_counts_agree [OF assms(1)]
  from ca assms(2) obtain i where i: "i < MESH_PACKET_POOL_SIZE pl" and p: "p = packet_ptr pl i"
    and idx: "packet_index pl p = i"
    by (rule counts_agree_held_slot)
  from counts_agreeD(3) [OF ca i] have cnt: "unat (g_packet_refs pl ! i) = count H p"
    by (simp add: p)
  show ?thesis
  proof (cases "count H p = 255")
    case True
    with cnt have "g_packet_refs pl ! i = 255" by (simp add: word_unat_eq_iff)
    with i idx True show ?thesis by (simp add: ref_count_inc_overflow)
  next
    case False
    with cnt have "g_packet_refs pl ! i \<noteq> 255" by (auto simp: word_unat_eq_iff)
    with i idx have "\<exists>pl'. mesh_packet_ref_count_inc pl p = Inr (True, pl')"
      using ref_count_inc_slot [of pl p] by simp
    with assms False show ?thesis by (auto intro: owned_retain)
  qed
qed

text \<open>
  Releasing the last reference to a slot of an exhausted pool makes exactly that
  slot available: the next \<^verbatim>\<open>mesh_packet_acquire\<close> returns the released pointer.
\<close>

lemma last_release_frees_slot:
  assumes "owned pl H" and "\<forall>i < MESH_PACKET_POOL_SIZE pl. packet_ptr pl i \<in># H"
    and "count H p = 1" and "mesh_packet_ref_count_dec pl p = Inr (True, pl')"
  shows "fst (mesh_packet_acquire pl') = Some p"
proof -
  from assms(3) have "count H p \<noteq> 0" by simp
  then have held: "p \<in># H" by (simp add: count_eq_zero_iff)
  note ca = owned_counts_agree [OF assms(1)]
  from ca held obtain i where i: "i < MESH_PACKET_POOL_SIZE pl" and p: "p = packet_ptr pl i"
    and idx: "packet_index pl p = i"
    by (rule counts_agree_held_slot)
  let ?refs = "g_packet_refs pl"
  from ref_count_dec_True(3) [OF assms(4)] idx
  have pl': "pl' = pl\<lparr>g_packet_refs := ?refs[i := ?refs ! i - 1]\<rparr>" by simp
  from counts_agreeD(3) [OF ca i] assms(3) have "unat (?refs ! i) = 1" by (simp add: p)
  then have one: "?refs ! i = 1" by (simp add: word_unat_eq_iff)
  from owned_all_held_iff [OF assms(1)] assms(2) have full: "0 \<notin> set ?refs" by simp
  from full have "?refs ! j \<noteq> 0" if "j < length ?refs" for j
    using that nth_mem [of j ?refs] by metis
  with i have "first_free (?refs[i := 0]) = Some i"
    unfolding first_free_Some by (simp add: MESH_PACKET_POOL_SIZE_def)
  then show ?thesis
    unfolding pl' one by (simp add: mesh_packet_acquire_def acquire_scan_eq_first_free p)
qed

section \<open>Acquiring until the pool is exhausted\<close>

lemma first_free_ones_zeros:
  "k < n \<Longrightarrow> first_free (replicate k 1 @ replicate (n - k) 0) = Some k"
  unfolding first_free_Some by (auto simp: nth_append)

lemma acquire_run_from:
  "n - k = m \<Longrightarrow> k \<le> n \<Longrightarrow> g_packet_refs pl = replicate k 1 @ replicate (n - k) 0 \<Longrightarrow>
   pool_run pl (replicate m Acquire) =
     Inr (map (\<lambda>i. RetPacket (Some (packet_ptr pl i))) [k..<n],
          pl\<lparr>g_packet_refs := replicate n 1\<rparr>)"
proof (induction m arbitrary: k pl)
  case 0
  then show ?case by simp
next
  case (Suc m)
  let ?pl' = "pl\<lparr>g_packet_refs := replicate (Suc k) 1 @ replicate (n - Suc k) 0\<rparr>"
  from Suc.prems have k: "k < n" by simp
  then have "first_free (g_packet_refs pl) = Some k"
    unfolding Suc.prems(3) by (rule first_free_ones_zeros)
  then have acq: "mesh_packet_acquire pl = (Some (packet_ptr pl k), ?pl')"
    using k by (simp add: mesh_packet_acquire_Some_iff Suc.prems(3) list_update_replicate_split)
  have "pool_run ?pl' (replicate m Acquire) =
     Inr (map (\<lambda>i. RetPacket (Some (packet_ptr ?pl' i))) [Suc k..<n],
          ?pl'\<lparr>g_packet_refs := replicate n 1\<rparr>)"
    using Suc.prems k by (intro Suc.IH) simp_all
  with acq k show ?case by (simp add: upt_conv_Cons)
qed

text \<open>
  C19. Exhaustion by acquisition: from an initialised pool of \<open>N\<close> slots, \<open>N\<close>
  acquisitions in a row succeed and return the slots in index order, the next one
  fails, and all counts are then 1.
\<close>

theorem acquisitions_exhaust_pool:
  "pool_run (mesh_packet_init pl) (replicate (MESH_PACKET_POOL_SIZE pl) Acquire @ [Acquire]) =
     Inr (map (\<lambda>i. RetPacket (Some (packet_ptr pl i))) [0..<MESH_PACKET_POOL_SIZE pl] @
            [RetPacket None],
          pl\<lparr>g_packet_refs := replicate (MESH_PACKET_POOL_SIZE pl) 1\<rparr>)"
proof -
  let ?n = "MESH_PACKET_POOL_SIZE pl" and ?full = "pl\<lparr>g_packet_refs := replicate (MESH_PACKET_POOL_SIZE pl) 1\<rparr>"
  have "pool_run (mesh_packet_init pl) (replicate ?n Acquire) =
     Inr (map (\<lambda>i. RetPacket (Some (packet_ptr (mesh_packet_init pl) i))) [0..<?n],
          (mesh_packet_init pl)\<lparr>g_packet_refs := replicate ?n 1\<rparr>)"
    by (rule acquire_run_from [where k = 0]) (simp_all add: mesh_packet_init_refs)
  moreover have "(mesh_packet_init pl)\<lparr>g_packet_refs := replicate ?n 1\<rparr> = ?full"
    by (simp add: mesh_packet_init_def)
  moreover have "packet_ptr (mesh_packet_init pl) = packet_ptr pl"
    by (simp add: fun_eq_iff packet_ptr_def)
  moreover have "mesh_packet_acquire ?full = (None, ?full)"
    by (simp add: mesh_packet_acquire_None_iff)
  ultimately show ?thesis by (simp add: pool_run_append)
qed

section \<open>Witnesses\<close>

theorem acquire_never_returns_held_witness:
  "owned (two_pool [1, 0]) {#0x20000000#} \<and>
   mesh_packet_acquire (two_pool [1, 0]) = (Some 0x20000028, two_pool [1, 1]) \<and>
   0x20000028 \<notin># {#0x20000000 :: uint32_t#}"
  using acquire_never_returns_held [OF owned_two_pool_1, of "0x20000028" "two_pool [1, 1]"]
    owned_two_pool_1 by simp

theorem ref_counts_are_held_references_witness:
  "owned (two_pool [1, 0]) {#0x20000000#} \<and> (0::nat) < MESH_PACKET_POOL_SIZE (two_pool [1, 0]) \<and>
   unat (g_packet_refs (two_pool [1, 0]) ! 0) = count {#0x20000000 :: uint32_t#} 0x20000000"
  using ref_counts_are_held_references [OF owned_two_pool_1, of 0] owned_two_pool_1 by simp

lemma pool_exhausted_iff_all_held_witness:
  "owned (two_pool [1, 1]) {#0x20000028, 0x20000000#} \<and>
   mesh_packet_acquire (two_pool [1, 1]) = (None, two_pool [1, 1]) \<and>
   0x20000000 \<in># {#0x20000028, 0x20000000 :: uint32_t#} \<and>
   0x20000028 \<in># {#0x20000028, 0x20000000 :: uint32_t#}"
  using pool_exhausted_iff_all_held [OF owned_two_pool_2] owned_two_pool_2
  by (simp add: all_two_pool_slots)

lemma holder_release_succeeds_witness:
  "owned (two_pool [1, 1]) {#0x20000028, 0x20000000#} \<and>
   0x20000000 \<in># {#0x20000028, 0x20000000 :: uint32_t#} \<and>
   (\<exists>pl'. mesh_packet_ref_count_dec (two_pool [1, 1]) 0x20000000 = Inr (True, pl') \<and>
          owned pl' ({#0x20000028, 0x20000000#} - {#0x20000000#}))"
  using holder_release_succeeds [OF owned_two_pool_2, of "0x20000000"] owned_two_pool_2 by simp

theorem holder_retain_outcome_witness:
  "owned (two_pool [1, 0]) {#0x20000000#} \<and> 0x20000000 \<in># {#0x20000000 :: uint32_t#} \<and>
   count {#0x20000000 :: uint32_t#} 0x20000000 \<noteq> 255 \<and>
   (\<exists>pl'. mesh_packet_ref_count_inc (two_pool [1, 0]) 0x20000000 = Inr (True, pl') \<and>
          owned pl' (add_mset 0x20000000 {#0x20000000#}))"
  using holder_retain_outcome [OF owned_two_pool_1, of "0x20000000"] owned_two_pool_1 by simp

lemma last_release_frees_slot_witness:
  "owned (two_pool [1, 1]) {#0x20000028, 0x20000000#} \<and>
   0x20000000 \<in># {#0x20000028, 0x20000000 :: uint32_t#} \<and>
   0x20000028 \<in># {#0x20000028, 0x20000000 :: uint32_t#} \<and>
   count {#0x20000028, 0x20000000 :: uint32_t#} 0x20000000 = 1 \<and>
   mesh_packet_ref_count_dec (two_pool [1, 1]) 0x20000000 = Inr (True, two_pool [0, 1]) \<and>
   fst (mesh_packet_acquire (two_pool [0, 1])) = Some 0x20000000"
proof -
  have dec: "mesh_packet_ref_count_dec (two_pool [1, 1]) 0x20000000 = Inr (True, two_pool [0, 1])"
    by (simp add: ref_count_dec_slot)
  have "fst (mesh_packet_acquire (two_pool [0, 1])) = Some 0x20000000"
    by (rule last_release_frees_slot [OF owned_two_pool_2 _ _ dec])
       (auto simp: less_2_cases_iff)
  with dec owned_two_pool_2 show ?thesis by simp
qed

end
