(* ===== verification/Pool_Spec.thy ===== *)
theory Pool_Spec
  imports Pool_Pointers Pool_Machine
begin

text \<open>
  The pool as its specification describes it, and the proof that the functions of
  the source implement it. The specification knows \<open>N\<close> reference counts, numbers
  of at most 255, and names a slot by its index; a reference either belongs to the
  pool and is a slot, or it does not. The source keeps the counts in bytes and is
  given addresses. The abstraction reads the bytes as numbers and an address
  as the slot it lies in; along it every call of a pool function returns what the
  specification says and leaves the counts it says, except for the addresses in
  the 40 bytes behind the last slot, where the source reads and writes outside
  its array.
\<close>

section \<open>The specification\<close>

type_synonym spec_pool = "nat list"

datatype spec_op =
    Spec_Init
  | Spec_Stutter
  | Spec_Acquire
  | Spec_Retain "nat option"
  | Spec_Release "nat option"

datatype spec_ret = Spec_Void | Spec_Slot "nat option" | Spec_Bool bool

datatype spec_fault = RefcountOverflow

definition SPEC_MAX_REFS :: nat where
  "SPEC_MAX_REFS = 255"

text \<open>The first slot whose count is 0.\<close>

definition spec_free :: "spec_pool \<Rightarrow> nat option" where
  "spec_free cs = find (\<lambda>i. cs ! i = 0) [0..<length cs]"

text \<open>
  \<open>Spec_Stutter\<close> is a step the specification does not see. \<open>None\<close> is a reference
  that does not belong to the pool, and so is an index that is not below \<open>N\<close>.
\<close>

fun spec_step :: "spec_pool \<Rightarrow> spec_op \<Rightarrow> spec_fault + spec_ret \<times> spec_pool" where
  "spec_step cs Spec_Init = Inr (Spec_Void, replicate (length cs) 0)"
| "spec_step cs Spec_Stutter = Inr (Spec_Void, cs)"
| "spec_step cs Spec_Acquire =
     (case spec_free cs of
        Some i \<Rightarrow> Inr (Spec_Slot (Some i), cs[i := 1])
      | None \<Rightarrow> Inr (Spec_Slot None, cs))"
| "spec_step cs (Spec_Retain None) = Inr (Spec_Bool False, cs)"
| "spec_step cs (Spec_Retain (Some i)) =
     (if length cs \<le> i then Inr (Spec_Bool False, cs)
      else if cs ! i = SPEC_MAX_REFS then Inl RefcountOverflow
      else Inr (Spec_Bool True, cs[i := cs ! i + 1]))"
| "spec_step cs (Spec_Release None) = Inr (Spec_Bool False, cs)"
| "spec_step cs (Spec_Release (Some i)) =
     (if length cs \<le> i then Inr (Spec_Bool False, cs)
      else if cs ! i = 0 then Inr (Spec_Bool False, cs)
      else Inr (Spec_Bool True, cs[i := cs ! i - 1]))"

fun spec_run :: "spec_pool \<Rightarrow> spec_op list \<Rightarrow> spec_fault + spec_ret list \<times> spec_pool" where
  "spec_run cs [] = Inr ([], cs)"
| "spec_run cs (x # xs) =
     (case spec_step cs x of
        Inl e \<Rightarrow> Inl e
      | Inr (r, cs') \<Rightarrow>
          (case spec_run cs' xs of Inl e \<Rightarrow> Inl e | Inr (rs, cs'') \<Rightarrow> Inr (r # rs, cs'')))"

section \<open>The abstraction\<close>

text \<open>
  The counts as numbers; an address as the slot it lies in; a call and what it
  returns accordingly. A call that reads outside an array has no counterpart in
  the specification, its abstraction is \<open>None\<close>; the fatal error of the
  increment is the overflow of the specification.
\<close>

definition abs_pool :: "mesh_pool \<Rightarrow> spec_pool" where
  "abs_pool pl = map unat (g_packet_refs pl)"

definition abs_ref :: "mesh_pool \<Rightarrow> uint32_t \<Rightarrow> nat option" where
  "abs_ref pl p = (case ptr_class_of pl p of Slot i \<Rightarrow> Some i | _ \<Rightarrow> None)"

fun abs_op :: "mesh_pool \<Rightarrow> pool_op \<Rightarrow> spec_op" where
  "abs_op pl Init = Spec_Init"
| "abs_op pl TsBegin = Spec_Stutter"
| "abs_op pl Acquire = Spec_Acquire"
| "abs_op pl (RefCountInc p) = Spec_Retain (abs_ref pl p)"
| "abs_op pl (RefCountDec p) = Spec_Release (abs_ref pl p)"

fun abs_ret :: "mesh_pool \<Rightarrow> pool_ret \<Rightarrow> spec_ret" where
  "abs_ret pl RetVoid = Spec_Void"
| "abs_ret pl (RetPacket None) = Spec_Slot None"
| "abs_ret pl (RetPacket (Some p)) = Spec_Slot (abs_ref pl p)"
| "abs_ret pl (RetBool b) = Spec_Bool b"

fun abs_fault :: "fault \<Rightarrow> spec_fault option" where
  "abs_fault OutOfBounds = None"
| "abs_fault (APP_ERROR e) = (if e = NRF_ERROR_NO_MEM then Some RefcountOverflow else None)"

fun abs_result ::
    "mesh_pool \<Rightarrow> (pool_ret \<times> mesh_pool) result \<Rightarrow> (spec_fault + spec_ret \<times> spec_pool) option" where
  "abs_result pl (Inr (r, pl')) = Some (Inr (abs_ret pl r, abs_pool pl'))"
| "abs_result pl (Inl e) = map_option Inl (abs_fault e)"

fun abs_results ::
    "mesh_pool \<Rightarrow> (pool_ret list \<times> mesh_pool) result \<Rightarrow>
     (spec_fault + spec_ret list \<times> spec_pool) option" where
  "abs_results pl (Inr (rs, pl')) = Some (Inr (map (abs_ret pl) rs, abs_pool pl'))"
| "abs_results pl (Inl e) = map_option Inl (abs_fault e)"

text \<open>The calls with an address in the 40 bytes behind the last slot.\<close>

fun past_end :: "mesh_pool \<Rightarrow> pool_op \<Rightarrow> bool" where
  "past_end pl (RefCountInc p) \<longleftrightarrow> ptr_class_of pl p = PastEnd"
| "past_end pl (RefCountDec p) \<longleftrightarrow> ptr_class_of pl p = PastEnd"
| "past_end pl x \<longleftrightarrow> False"

section \<open>Counts as numbers\<close>

lemma length_abs_pool [simp]: "length (abs_pool pl) = MESH_PACKET_POOL_SIZE pl"
  by (simp add: abs_pool_def MESH_PACKET_POOL_SIZE_def)

lemma abs_pool_nth [simp]:
  "i < MESH_PACKET_POOL_SIZE pl \<Longrightarrow> abs_pool pl ! i = unat (g_packet_refs pl ! i)"
  by (simp add: abs_pool_def MESH_PACKET_POOL_SIZE_def)

lemma abs_pool_update [simp]:
  "abs_pool (pl\<lparr>g_packet_refs := (g_packet_refs pl)[i := r]\<rparr>) = (abs_pool pl)[i := unat r]"
  by (simp add: abs_pool_def map_update)

lemma abs_pool_init [simp]:
  "abs_pool (mesh_packet_init pl) = replicate (MESH_PACKET_POOL_SIZE pl) 0"
  by (simp add: abs_pool_def mesh_packet_init_refs)

lemma count_byte:
  fixes r :: uint8_t
  shows "unat r = 0 \<longleftrightarrow> r = 0" and "unat r = SPEC_MAX_REFS \<longleftrightarrow> r = 255"
    and "r \<noteq> 255 \<Longrightarrow> unat (r + 1) = unat r + 1" and "r \<noteq> 0 \<Longrightarrow> unat (r - 1) = unat r - 1"
proof -
  show "unat r = 0 \<longleftrightarrow> r = 0" by (rule unat_eq_zero)
  have "unat r = 255 \<longleftrightarrow> unat r = unat (255 :: uint8_t)" by simp
  then show "unat r = SPEC_MAX_REFS \<longleftrightarrow> r = 255"
    by (simp only: SPEC_MAX_REFS_def word_unat_eq_iff)
qed (rule unat_plus_one_u8, assumption, rule unat_minus_one_u8, assumption)

text \<open>The scan of \<^verbatim>\<open>mesh_packet_acquire\<close> finds the slot of the specification.\<close>

lemma acquire_scan_find:
  "acquire_scan refs i = find (\<lambda>j. refs ! j = 0) [i..<length refs]"
proof (induction refs i rule: acquire_scan.induct)
  case (1 refs i)
  then show ?case
    by (subst acquire_scan.simps) (simp add: upt_rec [of i])
qed

lemma acquire_scan_spec_free: "acquire_scan (g_packet_refs pl) 0 = spec_free (abs_pool pl)"
  unfolding acquire_scan_find spec_free_def
  by (rule find_cong) (simp_all add: abs_pool_def count_byte(1))

section \<open>Each function implements its operation\<close>

lemma abs_ref_packet_ptr:
  "pool_wf pl \<Longrightarrow> i < MESH_PACKET_POOL_SIZE pl \<Longrightarrow> abs_ref pl (packet_ptr pl i) = Some i"
  using ptr_class_of_slot [of pl i 0] by (simp add: abs_ref_def)

lemma init_refines:
  "abs_result pl (pool_step pl Init) = Some (spec_step (abs_pool pl) Spec_Init)"
  by simp

lemma ts_begin_refines:
  "abs_result pl (pool_step pl TsBegin) = Some (spec_step (abs_pool pl) Spec_Stutter)"
  by (simp add: mesh_packet_on_ts_begin_def)

lemma acquire_refines:
  assumes "pool_wf pl"
  shows "abs_result pl (pool_step pl Acquire) = Some (spec_step (abs_pool pl) Spec_Acquire)"
proof (cases "spec_free (abs_pool pl)")
  case None
  then show ?thesis
    by (simp add: mesh_packet_acquire_def acquire_scan_spec_free)
next
  case (Some i)
  then have "i < MESH_PACKET_POOL_SIZE pl"
    by (auto simp: spec_free_def find_Some_iff)
  with Some assms show ?thesis
    by (simp add: mesh_packet_acquire_def acquire_scan_spec_free abs_ref_packet_ptr)
qed

lemma ref_count_inc_refines:
  assumes "pool_room pl"
  shows "abs_result pl (pool_step pl (RefCountInc p)) =
         (if ptr_class_of pl p = PastEnd then None
          else Some (spec_step (abs_pool pl) (Spec_Retain (abs_ref pl p))))"
  using packet_index_classD(3) [OF assms, of p]
  by (cases "ptr_class_of pl p")
     (auto simp: ref_count_inc_class [OF assms] abs_ref_def count_byte)

lemma ref_count_dec_refines:
  assumes "pool_room pl"
  shows "abs_result pl (pool_step pl (RefCountDec p)) =
         (if ptr_class_of pl p = PastEnd then None
          else Some (spec_step (abs_pool pl) (Spec_Release (abs_ref pl p))))"
  using packet_index_classD(3) [OF assms, of p]
  by (cases "ptr_class_of pl p")
     (auto simp: ref_count_dec_class [OF assms] abs_ref_def count_byte)

lemma pool_step_refines:
  assumes "pool_wf pl" and "pool_room pl"
  shows "abs_result pl (pool_step pl x) =
         (if past_end pl x then None else Some (spec_step (abs_pool pl) (abs_op pl x)))"
proof (cases x)
  case Init
  then show ?thesis using init_refines [of pl] by simp
next
  case TsBegin
  then show ?thesis using ts_begin_refines [of pl] by simp
next
  case Acquire
  then show ?thesis using acquire_refines [OF assms(1)] by simp
next
  case (RefCountInc p)
  then show ?thesis using ref_count_inc_refines [OF assms(2), of p] by simp
next
  case (RefCountDec p)
  then show ?thesis using ref_count_dec_refines [OF assms(2), of p] by simp
qed

section \<open>Runs of calls\<close>

text \<open>The abstraction depends on where the pool is and how many slots it has, which no call changes.\<close>

lemma abs_layout:
  assumes "pool_addr pl' = pool_addr pl" and "MESH_PACKET_POOL_SIZE pl' = MESH_PACKET_POOL_SIZE pl"
  shows "abs_ref pl' = abs_ref pl" and "abs_op pl' = abs_op pl" and "abs_ret pl' = abs_ret pl"
    and "past_end pl' = past_end pl" and "abs_results pl' = abs_results pl"
    and "pool_room pl' = pool_room pl"
proof -
  from assms have "ptr_class_of pl' = ptr_class_of pl"
    by (simp add: fun_eq_iff ptr_class_of_def)
  then show ref: "abs_ref pl' = abs_ref pl" by (simp add: fun_eq_iff abs_ref_def)
  show "abs_op pl' = abs_op pl"
    by (rule ext, rename_tac x, case_tac x) (simp_all add: ref)
  show ret: "abs_ret pl' = abs_ret pl"
    by (rule ext, rename_tac r, case_tac r rule: abs_ret.cases [of "(pl, r)" for r])
       (simp_all add: ref)
  from \<open>ptr_class_of pl' = ptr_class_of pl\<close> show "past_end pl' = past_end pl"
    by (intro ext, rename_tac x, case_tac x) simp_all
  show "abs_results pl' = abs_results pl"
    by (rule ext, rename_tac r, case_tac r) (auto simp: ret)
  from assms show "pool_room pl' = pool_room pl" by (simp add: pool_room_def)
qed

lemma pool_run_refines:
  "pool_wf pl \<Longrightarrow> pool_room pl \<Longrightarrow> list_all (\<lambda>x. \<not> past_end pl x) xs \<Longrightarrow>
   abs_results pl (pool_run pl xs) = Some (spec_run (abs_pool pl) (map (abs_op pl) xs))"
proof (induction xs arbitrary: pl)
  case Nil
  then show ?case by simp
next
  case (Cons x xs)
  from Cons.prems have step: "abs_result pl (pool_step pl x) =
      Some (spec_step (abs_pool pl) (abs_op pl x))"
    by (simp add: pool_step_refines)
  show ?case
  proof (cases "pool_step pl x")
    case (Inl e)
    with step show ?thesis by (cases "spec_step (abs_pool pl) (abs_op pl x)") auto
  next
    case (Inr a)
    obtain r pl1 where a: "a = (r, pl1)" by (cases a)
    note frame = pool_step_frame(1,3) [OF Inr [unfolded a]]
    note same = abs_layout [OF frame]
    from Cons.prems pool_step_wf [OF Inr [unfolded a]] same
    have "abs_results pl (pool_run pl1 xs) = Some (spec_run (abs_pool pl1) (map (abs_op pl) xs))"
      using Cons.IH [of pl1] by simp
    moreover from step Inr a
    have "spec_step (abs_pool pl) (abs_op pl x) = Inr (abs_ret pl r, abs_pool pl1)" by simp
    ultimately show ?thesis
      using Inr a
      by (cases "pool_run pl1 xs"; cases "spec_run (abs_pool pl1) (map (abs_op pl) xs)") auto
  qed
qed

section \<open>Properties\<close>

text \<open>
  C6. The pool functions implement the pool of the specification. With the counts
  read as numbers and an address read as the slot it lies in, every call of
  \<^verbatim>\<open>mesh_packet_init\<close>, \<^verbatim>\<open>mesh_packet_acquire\<close>, \<^verbatim>\<open>mesh_packet_ref_count_inc\<close> and
  \<^verbatim>\<open>mesh_packet_ref_count_dec\<close> returns what the operation of the specification
  returns and leaves the counts it leaves, the fatal error at a count of 255
  included, and \<^verbatim>\<open>mesh_packet_on_ts_begin\<close> is a step the specification does not
  see. The one exception are the addresses in the 40 bytes behind the last slot:
  there the specification answers false and the source reads outside its array. A
  run of calls none of which is given such an address is a run of the
  specification.
\<close>

theorem pool_refines_spec:
  assumes "pool_wf pl" and "pool_room pl"
  shows "abs_result pl (pool_step pl x) =
           (if past_end pl x then None else Some (spec_step (abs_pool pl) (abs_op pl x))) \<and>
         (list_all (\<lambda>x. \<not> past_end pl x) xs \<longrightarrow>
          abs_results pl (pool_run pl xs) =
            Some (spec_run (abs_pool pl) (map (abs_op pl) xs)))"
  using pool_step_refines [OF assms] pool_run_refines [OF assms] by simp

section \<open>Witnesses\<close>

text \<open>
  The pool of two slots: two acquisitions, a retain through an address inside the
  second slot, a release of \<^verbatim>\<open>NULL\<close> and a third acquisition are a run of the
  specification; a retain of the address behind the second slot is not.
\<close>

lemma spec_free_two [simp]:
  "spec_free [0, b] = Some 0" "a \<noteq> 0 \<Longrightarrow> spec_free [a, 0] = Some 1"
  "a \<noteq> 0 \<Longrightarrow> b \<noteq> 0 \<Longrightarrow> spec_free [a, b] = None"
  by (simp_all add: spec_free_def upt_rec [of 0] upt_rec [of 1] upt_rec [of 2])

theorem pool_refines_spec_witness:
  "abs_result (two_pool [1, 1]) (pool_step (two_pool [1, 1]) (RefCountInc 0x20000050)) = None \<and>
   abs_results (two_pool [0, 0])
     (pool_run (two_pool [0, 0])
        [Acquire, Acquire, RefCountInc 0x2000002B, RefCountDec 0, Acquire]) =
   Some (Inr ([Spec_Slot (Some 0), Spec_Slot (Some 1), Spec_Bool True, Spec_Bool False,
               Spec_Slot None], [1, 2]))"
  using pool_refines_spec [of "two_pool [1, 1]" "RefCountInc 0x20000050" "[]"]
    pool_refines_spec [of "two_pool [0, 0]" Init
      "[Acquire, Acquire, RefCountInc 0x2000002B, RefCountDec 0, Acquire]"]
  by (simp add: abs_pool_def abs_ref_def SPEC_MAX_REFS_def)

end
