(* ===== verification/Local_Addr.thy ===== *)
theory Local_Addr
  imports Mesh_Types
begin

text \<open>
  \<^verbatim>\<open>mesh_packet_set_local_addr\<close>: the source address of a packet is taken from
  the device. What the device answers is the record \<open>platform\<close>: whether the build
  has \<^verbatim>\<open>SOFTDEVICE_PRESENT\<close>, the result of \<^verbatim>\<open>sd_ble_gap_address_get\<close> (a
  status and the address it fills in), and the two registers
  \<^verbatim>\<open>NRF_FICR->DEVICEADDR\<close> and \<^verbatim>\<open>NRF_FICR->DEVICEADDRTYPE\<close> read otherwise.
  The SoftDevice and the registers themselves are outside the sources.
\<close>

section \<open>The identity provider\<close>

record ble_gap_addr_t =
  gap_addr_type :: uint8_t
  gap_addr :: "uint8_t list"

record platform =
  SOFTDEVICE_PRESENT :: bool
  sd_ble_gap_address_get :: "nrf_error \<times> ble_gap_addr_t"
  FICR_DEVICEADDR :: "uint32_t list"
  FICR_DEVICEADDRTYPE :: uint32_t

text \<open>
  The address arrays have their declared sizes: six bytes in \<^verbatim>\<open>ble_gap_addr_t\<close>,
  two words in \<^verbatim>\<open>DEVICEADDR\<close>.
\<close>

definition platform_wf :: "platform \<Rightarrow> bool" where
  "platform_wf pf \<longleftrightarrow>
     length (gap_addr (snd (sd_ble_gap_address_get pf))) = BLE_GAP_ADDR_LEN \<and>
     length (FICR_DEVICEADDR pf) = 2"

text \<open>The bytes of \<^verbatim>\<open>NRF_FICR->DEVICEADDR\<close> in memory order.\<close>

definition ficr_bytes :: "platform \<Rightarrow> uint8_t list" where
  "ficr_bytes pf = concat (map le_bytes32 (FICR_DEVICEADDR pf))"

text \<open>The address and address type the device reports when the call succeeds.\<close>

definition local_addr :: "platform \<Rightarrow> uint8_t list" where
  "local_addr pf =
     (if SOFTDEVICE_PRESENT pf then take BLE_GAP_ADDR_LEN (gap_addr (snd (sd_ble_gap_address_get pf)))
      else take BLE_GAP_ADDR_LEN (ficr_bytes pf))"

definition local_addr_type :: "platform \<Rightarrow> 1 word" where
  "local_addr_type pf =
     (if SOFTDEVICE_PRESENT pf then ucast (gap_addr_type (snd (sd_ble_gap_address_get pf)))
      else ucast (FICR_DEVICEADDRTYPE pf))"

section \<open>The operation\<close>

definition mesh_packet_set_local_addr ::
    "platform \<Rightarrow> mesh_packet_t \<Rightarrow> (nrf_error \<times> mesh_packet_t) result" where
  "mesh_packet_set_local_addr pf p =
     (if SOFTDEVICE_PRESENT pf then
        (case sd_ble_gap_address_get pf of (error_code, my_addr) \<Rightarrow>
           if error_code \<noteq> NRF_SUCCESS then Inr (error_code, p)
           else
             let p1 = p\<lparr>header := (header p)\<lparr>addr_type := ucast (gap_addr_type my_addr)\<rparr>\<rparr> in
             bindR (memcpy (addr p1) 0 (gap_addr my_addr) BLE_GAP_ADDR_LEN) (\<lambda>a.
               Inr (NRF_SUCCESS, p1\<lparr>addr := a\<rparr>)))
      else
        bindR (memcpy (addr p) 0 (ficr_bytes pf) BLE_GAP_ADDR_LEN) (\<lambda>a.
          let p1 = p\<lparr>addr := a\<rparr> in
          Inr (NRF_SUCCESS,
               p1\<lparr>header := (header p1)\<lparr>addr_type := ucast (FICR_DEVICEADDRTYPE pf)\<rparr>\<rparr>)))"

section \<open>Outcomes\<close>

lemma length_ficr_bytes: "platform_wf pf \<Longrightarrow> length (ficr_bytes pf) = 8"
proof -
  assume "platform_wf pf"
  then obtain a b where "FICR_DEVICEADDR pf = [a, b]"
    by (auto simp: platform_wf_def length_Suc_conv numeral_2_eq_2)
  then show ?thesis by (simp add: ficr_bytes_def)
qed

lemma length_local_addr: "platform_wf pf \<Longrightarrow> length (local_addr pf) = 6"
  by (auto simp: local_addr_def length_ficr_bytes mesh_consts platform_wf_def)

text \<open>The address is available unless the SoftDevice reports an error.\<close>

definition addr_available :: "platform \<Rightarrow> bool" where
  "addr_available pf \<longleftrightarrow> \<not> SOFTDEVICE_PRESENT pf \<or> fst (sd_ble_gap_address_get pf) = NRF_SUCCESS"

lemma set_local_addr_unavailable:
  "\<not> addr_available pf \<Longrightarrow>
   mesh_packet_set_local_addr pf p = Inr (fst (sd_ble_gap_address_get pf), p)"
  by (auto simp: addr_available_def mesh_packet_set_local_addr_def split: prod.splits)

lemma set_local_addr_available:
  assumes "platform_wf pf" and "packet_wf p" and "addr_available pf"
  shows "mesh_packet_set_local_addr pf p =
         Inr (NRF_SUCCESS,
              p\<lparr>header := (header p)\<lparr>addr_type := local_addr_type pf\<rparr>, addr := local_addr pf\<rparr>)"
proof (cases "SOFTDEVICE_PRESENT pf")
  case True
  with assms(3) obtain my_addr where sd: "sd_ble_gap_address_get pf = (NRF_SUCCESS, my_addr)"
    by (cases "sd_ble_gap_address_get pf") (auto simp: addr_available_def)
  with assms(1) have "length (gap_addr my_addr) = 6"
    by (simp add: platform_wf_def mesh_consts)
  with True sd assms(2) show ?thesis
    by (simp add: mesh_packet_set_local_addr_def local_addr_def local_addr_type_def
        memcpy_def packet_wf_lengths mesh_consts)
next
  case False
  with assms(1,2) length_ficr_bytes [OF assms(1)] show ?thesis
    by (simp add: mesh_packet_set_local_addr_def local_addr_def local_addr_type_def
        memcpy_def packet_wf_lengths mesh_consts)
qed

text \<open>The status and the packet the call leaves, as one equation.\<close>

definition local_addr_status :: "platform \<Rightarrow> nrf_error" where
  "local_addr_status pf =
     (if addr_available pf then NRF_SUCCESS else fst (sd_ble_gap_address_get pf))"

definition local_addr_stamp :: "platform \<Rightarrow> mesh_packet_t \<Rightarrow> mesh_packet_t" where
  "local_addr_stamp pf p =
     (if addr_available pf
      then p\<lparr>header := (header p)\<lparr>addr_type := local_addr_type pf\<rparr>, addr := local_addr pf\<rparr>
      else p)"

lemma set_local_addr_eq:
  "platform_wf pf \<Longrightarrow> packet_wf p \<Longrightarrow>
   mesh_packet_set_local_addr pf p = Inr (local_addr_status pf, local_addr_stamp pf p)"
  by (simp add: local_addr_status_def local_addr_stamp_def set_local_addr_available
      set_local_addr_unavailable)

lemma local_addr_stamp_sel [simp]:
  "payload (local_addr_stamp pf p) = payload p"
  "length_field (header (local_addr_stamp pf p)) = length_field (header p)"
  "type_field (header (local_addr_stamp pf p)) = type_field (header p)"
  by (simp_all add: local_addr_stamp_def)

lemma local_addr_stamp_wf:
  "platform_wf pf \<Longrightarrow> packet_wf p \<Longrightarrow> packet_wf (local_addr_stamp pf p)"
  by (simp add: local_addr_stamp_def length_local_addr packet_wf_lengths)

lemma local_addr_stamp_idem [simp]:
  "local_addr_stamp pf (local_addr_stamp pf p) = local_addr_stamp pf p"
  by (simp add: local_addr_stamp_def)

lemma local_addr_stamp_header_update:
  "local_addr_stamp pf (p\<lparr>header := (header p)\<lparr>length_field := l\<rparr>\<rparr>) =
   (local_addr_stamp pf p)\<lparr>header := (header (local_addr_stamp pf p))\<lparr>length_field := l\<rparr>\<rparr>"
  by (simp add: local_addr_stamp_def)

lemma local_addr_stamp_payload_update:
  "local_addr_stamp pf (p\<lparr>payload := b\<rparr>) = (local_addr_stamp pf p)\<lparr>payload := b\<rparr>"
  by (simp add: local_addr_stamp_def)

text \<open>
  In every case the call returns, and the packet it leaves differs from the one it
  was given at most in the address and the address type.
\<close>

lemma set_local_addr_total:
  assumes "platform_wf pf" and "packet_wf p"
  obtains e p' where "mesh_packet_set_local_addr pf p = Inr (e, p')" "packet_wf p'"
    "payload p' = payload p" "length_field (header p') = length_field (header p)"
    "type_field (header p') = type_field (header p)"
proof (cases "addr_available pf")
  case True
  let ?p' = "p\<lparr>header := (header p)\<lparr>addr_type := local_addr_type pf\<rparr>, addr := local_addr pf\<rparr>"
  have "mesh_packet_set_local_addr pf p = Inr (NRF_SUCCESS, ?p')"
    by (rule set_local_addr_available [OF assms True])
  moreover have "packet_wf ?p'"
    using assms(2) length_local_addr [OF assms(1)] by (simp add: packet_wf_lengths)
  ultimately show ?thesis by (rule that) simp_all
next
  case False
  have "mesh_packet_set_local_addr pf p = Inr (fst (sd_ble_gap_address_get pf), p)"
    by (rule set_local_addr_unavailable [OF False])
  then show ?thesis using assms(2) by (rule that) simp_all
qed

section \<open>Two devices\<close>

text \<open>
  A build without SoftDevice whose factory address is \<^verbatim>\<open>01:02:03:04:05:06\<close> (random
  static), and a build whose SoftDevice is not enabled and answers every call with
  \<^verbatim>\<open>NRF_ERROR_SOFTDEVICE_NOT_ENABLED\<close> (0x3001).
\<close>

definition ficr_platform :: platform where
  "ficr_platform = \<lparr>SOFTDEVICE_PRESENT = False,
     sd_ble_gap_address_get = (NRF_SUCCESS, \<lparr>gap_addr_type = 0, gap_addr = replicate 6 0\<rparr>),
     FICR_DEVICEADDR = [0x04030201, 0xFFFF0605], FICR_DEVICEADDRTYPE = 1\<rparr>"

definition sd_off_platform :: platform where
  "sd_off_platform = \<lparr>SOFTDEVICE_PRESENT = True,
     sd_ble_gap_address_get =
       (NRF_ERROR_SOFTDEVICE 0x3001, \<lparr>gap_addr_type = 0, gap_addr = replicate 6 0\<rparr>),
     FICR_DEVICEADDR = [0x04030201, 0xFFFF0605], FICR_DEVICEADDRTYPE = 1\<rparr>"

lemma ficr_platform_wf [simp]: "platform_wf ficr_platform"
  by (simp add: platform_wf_def ficr_platform_def mesh_consts)

lemma sd_off_platform_wf [simp]: "platform_wf sd_off_platform"
  by (simp add: platform_wf_def sd_off_platform_def mesh_consts)

lemma ficr_platform_available [simp]: "addr_available ficr_platform"
  by (simp add: addr_available_def ficr_platform_def)

lemma sd_off_platform_unavailable [simp]: "\<not> addr_available sd_off_platform"
  by (simp add: addr_available_def sd_off_platform_def)

lemma ficr_platform_local_addr [simp]:
  "local_addr ficr_platform = [1, 2, 3, 4, 5, 6]" "local_addr_type ficr_platform = 1"
  by (simp_all add: local_addr_def local_addr_type_def ficr_platform_def ficr_bytes_def
      le_bytes32_def mesh_consts)

section \<open>Properties of the address stamper\<close>

text \<open>
  C34. \<^verbatim>\<open>mesh_packet_set_local_addr\<close> on a packet of the pool returns without fault.
  It fails only when the SoftDevice is present and reports an error: then that
  error is returned and the packet is left as it was. Otherwise it returns
  \<^verbatim>\<open>NRF_SUCCESS\<close> and has written the device's address and address type, and
  nothing else.
\<close>

theorem set_local_addr_outcome:
  assumes "platform_wf pf" and "packet_wf p"
  shows "mesh_packet_set_local_addr pf p =
         Inr (if \<not> SOFTDEVICE_PRESENT pf \<or> fst (sd_ble_gap_address_get pf) = NRF_SUCCESS
              then (NRF_SUCCESS,
                    p\<lparr>header := (header p)\<lparr>addr_type := local_addr_type pf\<rparr>,
                      addr := local_addr pf\<rparr>)
              else (fst (sd_ble_gap_address_get pf), p))"
  using set_local_addr_eq [OF assms]
  by (simp add: local_addr_status_def local_addr_stamp_def addr_available_def)

text \<open>
  Without SoftDevice the address written is the first six bytes of the two
  \<^verbatim>\<open>DEVICEADDR\<close> words in memory order: the four bytes of the first word from the
  least significant one, then the two low bytes of the second word; the address
  type is bit 0 of \<^verbatim>\<open>DEVICEADDRTYPE\<close>.
\<close>

lemma set_local_addr_ficr_layout:
  assumes "\<not> SOFTDEVICE_PRESENT pf" and "FICR_DEVICEADDR pf = [w0, w1]" and "packet_wf p"
  shows "mesh_packet_set_local_addr pf p =
         Inr (NRF_SUCCESS,
              p\<lparr>addr := [ucast w0, ucast (drop_bit 8 w0), ucast (drop_bit 16 w0),
                          ucast (drop_bit 24 w0), ucast w1, ucast (drop_bit 8 w1)],
                header := (header p)
                  \<lparr>addr_type := if bit (FICR_DEVICEADDRTYPE pf) 0 then 1 else 0\<rparr>\<rparr>)"
proof -
  have "(ucast (FICR_DEVICEADDRTYPE pf) :: 1 word) =
        (if bit (FICR_DEVICEADDRTYPE pf) 0 then 1 else 0)"
    by (rule bit_word_eqI) (auto simp: bit_simps)
  with assms show ?thesis
    by (simp add: mesh_packet_set_local_addr_def memcpy_def ficr_bytes_def le_bytes32_def
        packet_wf_lengths mesh_consts)
qed

section \<open>Witnesses\<close>

theorem set_local_addr_outcome_witness:
  "mesh_packet_set_local_addr sd_off_platform blank_packet =
     Inr (NRF_ERROR_SOFTDEVICE 0x3001, blank_packet) \<and>
   mesh_packet_set_local_addr ficr_platform blank_packet =
     Inr (NRF_SUCCESS, blank_packet\<lparr>header := (header blank_packet)\<lparr>addr_type := 1\<rparr>,
                                    addr := [1, 2, 3, 4, 5, 6]\<rparr>)"
  using set_local_addr_outcome [OF sd_off_platform_wf blank_packet_wf]
    set_local_addr_outcome [OF ficr_platform_wf blank_packet_wf]
  by (simp add: sd_off_platform_def) (simp add: ficr_platform_def)

lemma set_local_addr_ficr_layout_witness:
  "mesh_packet_set_local_addr ficr_platform blank_packet =
     Inr (NRF_SUCCESS, blank_packet\<lparr>addr := [1, 2, 3, 4, 5, 6],
                                    header := (header blank_packet)\<lparr>addr_type := 1\<rparr>\<rparr>)"
  using set_local_addr_ficr_layout
    [of ficr_platform "0x04030201 :: uint32_t" "0xFFFF0605 :: uint32_t" blank_packet]
  by (simp add: ficr_platform_def)

end
