(* ===== verification/Adv_Data.thy ===== *)
theory Adv_Data
  imports Mesh_Types
begin

text \<open>
  The locator: \<^verbatim>\<open>mesh_packet_adv_data_get\<close>, \<^verbatim>\<open>mesh_packet_handle_get\<close> and
  \<^verbatim>\<open>mesh_packet_has_additional_data\<close>. A pointer to a \<^verbatim>\<open>mesh_adv_data_t\<close>
  inside the payload is its byte offset from \<^verbatim>\<open>&payload[0]\<close>, and \<^verbatim>\<open>NULL\<close> is
  \<open>None\<close>.

  Both loops advance their cursor with \<^verbatim>\<open>p_mesh_adv_data += adv_data_length + 1\<close>
  on a pointer of type \<^verbatim>\<open>mesh_adv_data_t*\<close>. C scales such an addition by the size
  of the pointed-to type, so the cursor moves by
  \<open>(adv_data_length + 1) * sizeof (mesh_adv_data_t)\<close> bytes, and the model does the
  same. The byte-wise walk that the wire format describes is defined next to it as
  \<open>chain_find\<close>, and the lemmas say where the two agree and where they do not.
  \<open>T_adv_data_scan\<close> and \<open>T_additional_data_scan\<close> count the passes of the two
  loops.
\<close>

section \<open>The loops\<close>

lemma sizeof_mesh_adv_data_t_ge: "BLE_ADV_PACKET_PAYLOAD_MAX_LENGTH \<le> sizeof_mesh_adv_data_t"
  by (simp add: mesh_consts)

lemma stride_leaves_payload:
  "BLE_ADV_PACKET_PAYLOAD_MAX_LENGTH \<le> off + (unat (len :: uint8_t) + 1) * sizeof_mesh_adv_data_t"
  using sizeof_mesh_adv_data_t_ge by (simp add: trans_le_add2 trans_le_add1)

text \<open>
  The \<^verbatim>\<open>while\<close> loop of \<^verbatim>\<open>mesh_packet_adv_data_get\<close> from the cursor \<open>off\<close>:
  \<open>Some\<close> of the offset where type tag and magic match, \<open>None\<close> when the cursor
  has left the payload.
\<close>

function adv_data_scan :: "uint8_t list \<Rightarrow> nat \<Rightarrow> nat option result" where
  "adv_data_scan pl off =
     bindR (not_mesh_adv_data pl off) (\<lambda>other.
       if other then
         bindR (adv_data_length pl off) (\<lambda>len.
           let off' = off + (unat len + 1) * sizeof_mesh_adv_data_t in
           if off' \<ge> BLE_ADV_PACKET_PAYLOAD_MAX_LENGTH then Inr None
           else adv_data_scan pl off')
       else Inr (Some off))"
  by pat_completeness auto
termination
  by (relation "measure (\<lambda>(pl, off). BLE_ADV_PACKET_PAYLOAD_MAX_LENGTH - off)")
     (auto simp: mesh_consts)

declare adv_data_scan.simps [simp del]

text \<open>The number of times the condition of the \<^verbatim>\<open>while\<close> loop is evaluated.\<close>

function T_adv_data_scan :: "uint8_t list \<Rightarrow> nat \<Rightarrow> nat" where
  "T_adv_data_scan pl off =
     (case not_mesh_adv_data pl off of
        Inr True \<Rightarrow>
          (case adv_data_length pl off of
             Inr len \<Rightarrow>
               let off' = off + (unat len + 1) * sizeof_mesh_adv_data_t in
               if off' \<ge> BLE_ADV_PACKET_PAYLOAD_MAX_LENGTH then 1
               else 1 + T_adv_data_scan pl off'
           | Inl e \<Rightarrow> 1)
      | _ \<Rightarrow> 1)"
  by pat_completeness auto
termination
  by (relation "measure (\<lambda>(pl, off). BLE_ADV_PACKET_PAYLOAD_MAX_LENGTH - off)")
     (auto simp: mesh_consts)

declare T_adv_data_scan.simps [simp del]

definition mesh_packet_adv_data_get :: "mesh_packet_t option \<Rightarrow> nat option result" where
  "mesh_packet_adv_data_get p_packet =
     (case p_packet of
        None \<Rightarrow> Inr None
      | Some p \<Rightarrow>
          bindR (adv_data_scan (payload p) 0) (\<lambda>found.
            case found of
              None \<Rightarrow> Inr None
            | Some off \<Rightarrow>
                bindR (adv_data_length (payload p) off) (\<lambda>len.
                  if unat len > MESH_PACKET_ADV_OVERHEAD + RBC_MESH_VALUE_MAX_LEN
                  then Inr None
                  else Inr (Some off))))"

definition mesh_packet_handle_get :: "mesh_packet_t option \<Rightarrow> uint16_t result" where
  "mesh_packet_handle_get p_packet =
     bindR (mesh_packet_adv_data_get p_packet) (\<lambda>p_adv_data.
       case (p_adv_data, p_packet) of
         (Some off, Some p) \<Rightarrow> handle (payload p) off
       | _ \<Rightarrow> Inr RBC_MESH_INVALID_HANDLE)"

text \<open>
  The loop of \<^verbatim>\<open>mesh_packet_has_additional_data\<close>. Its bound
  \<^verbatim>\<open>header.length - 7\<close> is computed in \<^verbatim>\<open>int\<close> and may be negative.
\<close>

function additional_data_scan :: "uint8_t list \<Rightarrow> int \<Rightarrow> nat \<Rightarrow> bool result" where
  "additional_data_scan pl bound off =
     (if int off < bound then
        bindR (not_mesh_adv_data pl off) (\<lambda>other.
          if other then Inr True
          else
            bindR (adv_data_length pl off) (\<lambda>len.
              additional_data_scan pl bound (off + (unat len + 1) * sizeof_mesh_adv_data_t)))
      else Inr False)"
  by pat_completeness auto
termination
proof (relation "measure (\<lambda>(pl, bound, off). nat (bound - int off))", goal_cases)
  case 1
  show ?case by simp
next
  case (2 pl bound off other len)
  define off' where "off' = off + (unat len + 1) * sizeof_mesh_adv_data_t"
  have "off < off'"
    by (simp add: off'_def sizeof_mesh_adv_data_t_eq)
  with 2(1) have "nat (bound - int off') < nat (bound - int off)"
    by linarith
  then show ?case by (simp add: off'_def)
qed

declare additional_data_scan.simps [simp del]

text \<open>The number of times the condition of this loop is evaluated.\<close>

function T_additional_data_scan :: "uint8_t list \<Rightarrow> int \<Rightarrow> nat \<Rightarrow> nat" where
  "T_additional_data_scan pl bound off =
     (if int off < bound then
        (case not_mesh_adv_data pl off of
           Inr False \<Rightarrow>
             (case adv_data_length pl off of
                Inr len \<Rightarrow>
                  1 + T_additional_data_scan pl bound
                        (off + (unat len + 1) * sizeof_mesh_adv_data_t)
              | Inl e \<Rightarrow> 1)
         | _ \<Rightarrow> 1)
      else 1)"
  by pat_completeness auto
termination
proof (relation "measure (\<lambda>(pl, bound, off). nat (bound - int off))", goal_cases)
  case 1
  show ?case by simp
next
  case (2 pl bound off b len)
  define off' where "off' = off + (unat len + 1) * sizeof_mesh_adv_data_t"
  have "off < off'"
    by (simp add: off'_def sizeof_mesh_adv_data_t_eq)
  with 2(1) have "nat (bound - int off') < nat (bound - int off)"
    by linarith
  then show ?case by (simp add: off'_def)
qed

declare T_additional_data_scan.simps [simp del]

definition mesh_packet_has_additional_data :: "mesh_packet_t \<Rightarrow> bool result" where
  "mesh_packet_has_additional_data p =
     additional_data_scan (payload p) (uint (length_field (header p)) - 7) 0"

section \<open>The mesh structure at an offset\<close>

text \<open>Type tag and magic of the structure at \<open>off\<close> are those of the mesh.\<close>

definition mesh_adv_data_at :: "uint8_t list \<Rightarrow> nat \<Rightarrow> bool" where
  "mesh_adv_data_at pl off \<longleftrightarrow>
     pl ! (off + 1) = MESH_ADV_DATA_TYPE \<and>
     u16_of_bytes (pl ! (off + 2)) (pl ! (off + 3)) = MESH_UUID"

lemma not_mesh_adv_data_at:
  "off + 3 < length pl \<Longrightarrow> not_mesh_adv_data pl off = Inr (\<not> mesh_adv_data_at pl off)"
  by (simp add: not_mesh_adv_data_in mesh_adv_data_at_def)

section \<open>What the scan of \<^verbatim>\<open>mesh_packet_adv_data_get\<close> computes\<close>

text \<open>
  One pass decides: either the structure at the cursor matches, or the cursor has
  left the payload after a single advance.
\<close>

lemma adv_data_scan_in:
  assumes "off + 3 < length pl"
  shows "adv_data_scan pl off = Inr (if mesh_adv_data_at pl off then Some off else None)"
proof -
  from assms have "off < length pl" by simp
  then show ?thesis
    using stride_leaves_payload [of off "pl ! off"]
    by (simp add: adv_data_scan.simps [of pl off] not_mesh_adv_data_at [OF assms]
        adv_data_length_def rd_in Let_def)
qed

lemma adv_data_get_NULL [simp]: "mesh_packet_adv_data_get None = Inr None"
  by (simp add: mesh_packet_adv_data_get_def)

lemma adv_data_get_wf:
  assumes "packet_wf p"
  shows "mesh_packet_adv_data_get (Some p) =
         Inr (if mesh_adv_data_at (payload p) 0 \<and> unat (payload p ! 0) \<le> 30
              then Some 0 else None)"
  using packet_wf_lengths(2) [OF assms]
  by (simp add: mesh_packet_adv_data_get_def adv_data_scan_in adv_data_length_def rd_in
      mesh_consts not_less)

lemma adv_data_get_Some_iff:
  assumes "packet_wf p"
  shows "mesh_packet_adv_data_get (Some p) = Inr (Some off) \<longleftrightarrow>
         off = 0 \<and> mesh_adv_data_at (payload p) 0 \<and> unat (payload p ! 0) \<le> 30"
  by (auto simp: adv_data_get_wf [OF assms])

lemma handle_get_wf:
  assumes "packet_wf p"
  shows "mesh_packet_handle_get (Some p) =
         Inr (if mesh_adv_data_at (payload p) 0 \<and> unat (payload p ! 0) \<le> 30
              then u16_of_bytes (payload p ! 4) (payload p ! 5)
              else RBC_MESH_INVALID_HANDLE)"
  using packet_wf_lengths(2) [OF assms]
  by (simp add: mesh_packet_handle_get_def adv_data_get_wf [OF assms] handle_def rd16_in)

lemma handle_get_NULL [simp]: "mesh_packet_handle_get None = Inr RBC_MESH_INVALID_HANDLE"
  by (simp add: mesh_packet_handle_get_def)

section \<open>What the scan of \<^verbatim>\<open>mesh_packet_has_additional_data\<close> computes\<close>

lemma additional_data_scan_done:
  "bound \<le> int off \<Longrightarrow> additional_data_scan pl bound off = Inr False"
  by (simp add: additional_data_scan.simps [of pl bound off])

lemma additional_data_scan_outside:
  "int off < bound \<Longrightarrow> length pl \<le> off + 1 \<Longrightarrow>
   additional_data_scan pl bound off = Inl OutOfBounds"
  by (simp add: additional_data_scan.simps [of pl bound off] not_mesh_adv_data_type_out)

text \<open>
  The first structure decides, unless the declared length reaches beyond the
  payload: then the second pass reads outside it.
\<close>

lemma additional_data_scan_first:
  assumes "length pl = 31" and "0 < bound"
  shows "additional_data_scan pl bound 0 =
         (if \<not> mesh_adv_data_at pl 0 then Inr True
          else if int ((unat (pl ! 0) + 1) * sizeof_mesh_adv_data_t) < bound then Inl OutOfBounds
          else Inr False)"
proof -
  let ?off = "(unat (pl ! 0) + 1) * sizeof_mesh_adv_data_t"
  have out: "length pl \<le> ?off + 1"
    using stride_leaves_payload [of 0 "pl ! 0"] assms(1) by (simp add: mesh_consts)
  have "additional_data_scan pl bound ?off =
        (if int ?off < bound then Inl OutOfBounds else Inr False)"
    using out by (simp add: additional_data_scan_done additional_data_scan_outside)
  then show ?thesis
    using assms
    by (simp add: additional_data_scan.simps [of pl bound 0] not_mesh_adv_data_at
        adv_data_length_def rd_in)
qed

lemma has_additional_data_wf:
  assumes "packet_wf p"
  shows "mesh_packet_has_additional_data p =
         (if uint (length_field (header p)) \<le> 7 then Inr False
          else if \<not> mesh_adv_data_at (payload p) 0 then Inr True
          else if int ((unat (payload p ! 0) + 1) * sizeof_mesh_adv_data_t)
                    < uint (length_field (header p)) - 7
               then Inl OutOfBounds
          else Inr False)"
  using packet_wf_lengths(2) [OF assms]
  by (simp add: mesh_packet_has_additional_data_def additional_data_scan_done
      additional_data_scan_first)

lemma has_additional_data_upto_38:
  assumes "packet_wf p" and "uint (length_field (header p)) \<le> 38"
  shows "mesh_packet_has_additional_data p =
         Inr (7 < uint (length_field (header p)) \<and> \<not> mesh_adv_data_at (payload p) 0)"
proof -
  have "31 \<le> int ((unat (payload p ! 0) + 1) * sizeof_mesh_adv_data_t)"
    using stride_leaves_payload [of 0 "payload p ! 0"] by (simp add: mesh_consts)
  with assms(2) show ?thesis
    by (simp add: has_additional_data_wf [OF assms(1)])
qed

text \<open>
  The packets on which the second pass reads beyond the payload: the first
  structure is the mesh's and the header length reaches past the cursor's first
  advance.
\<close>

definition length_overruns :: "mesh_packet_t \<Rightarrow> bool" where
  "length_overruns p \<longleftrightarrow>
     mesh_adv_data_at (payload p) 0 \<and>
     int ((unat (payload p ! 0) + 1) * sizeof_mesh_adv_data_t) < uint (length_field (header p)) - 7"

lemma has_additional_data_cases:
  assumes "packet_wf p"
  shows "mesh_packet_has_additional_data p =
         (if length_overruns p then Inl OutOfBounds
          else Inr (7 < uint (length_field (header p)) \<and> \<not> mesh_adv_data_at (payload p) 0))"
proof (cases "uint (length_field (header p)) \<le> 7")
  case True
  have "0 \<le> int ((unat (payload p ! 0) + 1) * sizeof_mesh_adv_data_t)" by simp
  with True have "\<not> length_overruns p"
    unfolding length_overruns_def by linarith
  with True show ?thesis by (simp add: has_additional_data_wf [OF assms])
next
  case False
  then show ?thesis by (simp add: has_additional_data_wf [OF assms] length_overruns_def)
qed

lemma length_overruns_legal:
  assumes "uint (length_field (header p)) \<le> 38"
  shows "\<not> length_overruns p"
proof -
  have "31 \<le> int ((unat (payload p ! 0) + 1) * sizeof_mesh_adv_data_t)"
    using stride_leaves_payload [of 0 "payload p ! 0"] by (simp add: mesh_consts)
  with assms show ?thesis
    unfolding length_overruns_def by linarith
qed

section \<open>Running time of the two loops\<close>

text \<open>
  The cursor leaves the payload with its first advance, so the condition of the
  first loop is evaluated once and that of the second at most twice.
\<close>

lemma T_adv_data_scan_once: "T_adv_data_scan pl off = 1"
  using stride_leaves_payload [of off]
  by (simp add: T_adv_data_scan.simps [of pl off] Let_def split: sum.split bool.split)

lemma T_additional_data_scan_outside:
  "length pl \<le> off + 1 \<Longrightarrow> T_additional_data_scan pl bound off = 1"
  by (simp add: T_additional_data_scan.simps [of pl bound off] not_mesh_adv_data_type_out)

lemma T_additional_data_scan_twice:
  assumes "length pl \<le> BLE_ADV_PACKET_PAYLOAD_MAX_LENGTH"
  shows "T_additional_data_scan pl bound 0 \<le> 2"
proof -
  have "T_additional_data_scan pl bound ((unat len + 1) * sizeof_mesh_adv_data_t) = 1" for len :: uint8_t
    using stride_leaves_payload [of 0 len] assms
    by (intro T_additional_data_scan_outside) simp
  then show ?thesis
    by (simp add: T_additional_data_scan.simps [of pl bound 0] split: sum.split bool.split)
qed

section \<open>The chain of the wire format\<close>

text \<open>
  The payload as the wire format defines it: structures that follow each other at
  a distance of one plus their length byte. \<open>chain_find\<close> walks them from \<open>off\<close>
  and answers with the offset of the first one that carries the mesh's type tag
  and magic, if its declared length is at most the largest mesh structure and it
  lies inside the payload. \<open>chain_has_foreign\<close> walks them up to a bound and says
  whether one of them is not the mesh's.
\<close>

function chain_find :: "uint8_t list \<Rightarrow> nat \<Rightarrow> nat option" where
  "chain_find pl off =
     (if off + 3 < length pl then
        (if mesh_adv_data_at pl off then
           (if unat (pl ! off) \<le> MESH_PACKET_ADV_OVERHEAD + RBC_MESH_VALUE_MAX_LEN \<and>
               off + 1 + unat (pl ! off) \<le> length pl
            then Some off else None)
         else chain_find pl (off + 1 + unat (pl ! off)))
      else None)"
  by pat_completeness auto
termination
  by (relation "measure (\<lambda>(pl, off). length pl - off)") auto

function chain_has_foreign :: "uint8_t list \<Rightarrow> int \<Rightarrow> nat \<Rightarrow> bool" where
  "chain_has_foreign pl bound off =
     (if int off < bound \<and> off + 3 < length pl then
        (if mesh_adv_data_at pl off then chain_has_foreign pl bound (off + 1 + unat (pl ! off))
         else True)
      else False)"
  by pat_completeness auto
termination
  by (relation "measure (\<lambda>(pl, bound, off). length pl - off)") auto

declare chain_find.simps [simp del] chain_has_foreign.simps [simp del]

lemma chain_find_first:
  assumes "3 < length pl" and "mesh_adv_data_at pl 0"
  shows "chain_find pl 0 =
         (if unat (pl ! 0) \<le> 30 \<and> 1 + unat (pl ! 0) \<le> length pl then Some 0 else None)"
  using assms by (simp add: chain_find.simps [of pl 0] mesh_consts)

lemma chain_find_later:
  assumes "chain_find pl 0 = Some off" and "0 < off"
  shows "\<not> mesh_adv_data_at pl 0"
  using assms by (auto simp: chain_find.simps [of pl 0] split: if_splits)

lemma chain_find_bounds:
  "chain_find pl off = Some k \<Longrightarrow>
   off \<le> k \<and> mesh_adv_data_at pl k \<and> unat (pl ! k) \<le> 30 \<and> k + 1 + unat (pl ! k) \<le> length pl"
proof (induction pl off rule: chain_find.induct)
  case (1 pl off)
  show ?case
  proof (cases "off + 3 < length pl \<and> \<not> mesh_adv_data_at pl off")
    case True
    with "1.prems" have "chain_find pl (off + 1 + unat (pl ! off)) = Some k"
      by (simp add: chain_find.simps [of pl off])
    with True "1.IH" show ?thesis by fastforce
  next
    case False
    with "1.prems" show ?thesis
      by (auto simp: chain_find.simps [of pl off] mesh_consts split: if_splits)
  qed
qed

section \<open>A received packet with a foreign structure in front\<close>

text \<open>
  The payload of the examples: a three-byte flags structure, then the mesh
  structure for handle \<open>0x1234\<close>, version 1 and the two data bytes \<open>AA BB\<close>.
\<close>

definition rx_payload :: "uint8_t list" where
  "rx_payload =
     [0x02, 0x01, 0x06,
      0x09, 0x16, 0xE4, 0xFE, 0x34, 0x12, 0x01, 0x00, 0xAA, 0xBB] @ replicate 18 0"

definition rx_packet :: mesh_packet_t where
  "rx_packet =
     \<lparr>header = \<lparr>type_field = 2, addr_type = 1, length_field = 19\<rparr>,
      addr = [0x11, 0x22, 0x33, 0x44, 0x55, 0x66], payload = rx_payload\<rparr>"

lemma rx_packet_wf [simp]: "packet_wf rx_packet"
  by (simp add: packet_wf_def rx_packet_def rx_payload_def mesh_consts)

lemma rx_packet_sel [simp]:
  "payload rx_packet = rx_payload"
  "length_field (header rx_packet) = 19"
  by (simp_all add: rx_packet_def)

lemma length_rx_payload [simp]: "length rx_payload = 31"
  by (simp add: rx_payload_def)

lemma rx_payload_not_mesh_first [simp]: "\<not> mesh_adv_data_at rx_payload 0"
  by (simp add: mesh_adv_data_at_def rx_payload_def mesh_consts)

lemma rx_payload_mesh_at_3 [simp]: "mesh_adv_data_at rx_payload 3"
  by (simp add: mesh_adv_data_at_def rx_payload_def mesh_consts u16_of_bytes_def)

lemma chain_find_rx_payload: "chain_find rx_payload 0 = Some 3"
proof -
  have "chain_find rx_payload 0 = chain_find rx_payload 3"
    by (simp add: chain_find.simps [of rx_payload 0]) (simp add: rx_payload_def)
  also have "\<dots> = Some 3"
    by (simp add: chain_find.simps [of rx_payload 3] mesh_consts) (simp add: rx_payload_def)
  finally show ?thesis .
qed

text \<open>A packet whose mesh structure comes first and is followed by a flags structure.\<close>

definition trailing_payload :: "uint8_t list" where
  "trailing_payload =
     [0x09, 0x16, 0xE4, 0xFE, 0x34, 0x12, 0x01, 0x00, 0xAA, 0xBB,
      0x02, 0x01, 0x06] @ replicate 18 0"

definition trailing_packet :: mesh_packet_t where
  "trailing_packet =
     \<lparr>header = \<lparr>type_field = 2, addr_type = 1, length_field = 19\<rparr>,
      addr = [0x11, 0x22, 0x33, 0x44, 0x55, 0x66], payload = trailing_payload\<rparr>"

lemma trailing_packet_wf [simp]: "packet_wf trailing_packet"
  by (simp add: packet_wf_def trailing_packet_def trailing_payload_def mesh_consts)

lemma trailing_packet_sel [simp]:
  "payload trailing_packet = trailing_payload"
  "length_field (header trailing_packet) = 19"
  by (simp_all add: trailing_packet_def)

lemma length_trailing_payload [simp]: "length trailing_payload = 31"
  by (simp add: trailing_payload_def)

lemma trailing_payload_mesh_first [simp]: "mesh_adv_data_at trailing_payload 0"
  by (simp add: mesh_adv_data_at_def trailing_payload_def mesh_consts u16_of_bytes_def)

lemma trailing_payload_foreign_at_10 [simp]: "\<not> mesh_adv_data_at trailing_payload 10"
  by (simp add: mesh_adv_data_at_def trailing_payload_def mesh_consts)

lemma chain_has_foreign_trailing: "chain_has_foreign trailing_payload 12 0"
proof -
  have "chain_has_foreign trailing_payload 12 0 = chain_has_foreign trailing_payload 12 10"
    by (simp add: chain_has_foreign.simps [of trailing_payload 12 0])
       (simp add: trailing_payload_def)
  also have "\<dots> = True"
    by (simp add: chain_has_foreign.simps [of trailing_payload 12 10])
  finally show ?thesis by simp
qed

section \<open>Properties of the locator\<close>

text \<open>
  C21. \<^verbatim>\<open>mesh_packet_adv_data_get\<close> never reads outside the payload, and a
  structure it returns carries the mesh's type tag and magic and lies, with its
  declared length, inside the payload.
\<close>

theorem adv_data_get_in_bounds:
  assumes "packet_wf p"
  shows "\<exists>r. mesh_packet_adv_data_get (Some p) = Inr r \<and>
             (case r of None \<Rightarrow> True
              | Some off \<Rightarrow> mesh_adv_data_at (payload p) off \<and>
                  off + 1 + unat (payload p ! off) \<le> BLE_ADV_PACKET_PAYLOAD_MAX_LENGTH)"
  by (simp add: adv_data_get_wf [OF assms] mesh_consts)

theorem adv_data_get_in_bounds_witness:
  "packet_wf trailing_packet \<and>
   (\<exists>r. mesh_packet_adv_data_get (Some trailing_packet) = Inr r \<and>
        (case r of None \<Rightarrow> True
         | Some off \<Rightarrow> mesh_adv_data_at (payload trailing_packet) off \<and>
             off + 1 + unat (payload trailing_packet ! off) \<le> BLE_ADV_PACKET_PAYLOAD_MAX_LENGTH))"
  using adv_data_get_in_bounds [of trailing_packet] by simp

text \<open>
  C22. What \<^verbatim>\<open>mesh_packet_adv_data_get\<close> finds is what the byte-wise walk of the
  chain finds: a returned offset is the first mesh structure of the chain.
\<close>

theorem adv_data_get_sound:
  assumes "packet_wf p" and "mesh_packet_adv_data_get (Some p) = Inr (Some off)"
  shows "chain_find (payload p) 0 = Some off"
proof -
  from assms have "off = 0" "mesh_adv_data_at (payload p) 0" "unat (payload p ! 0) \<le> 30"
    by (simp_all add: adv_data_get_Some_iff)
  with packet_wf_lengths(2) [OF assms(1)] show ?thesis
    by (simp add: chain_find_first)
qed

theorem adv_data_get_sound_witness:
  "packet_wf trailing_packet \<and> mesh_packet_adv_data_get (Some trailing_packet) = Inr (Some 0) \<and>
   chain_find (payload trailing_packet) 0 = Some 0"
proof -
  have g: "mesh_packet_adv_data_get (Some trailing_packet) = Inr (Some 0)"
    by (simp add: adv_data_get_wf) (simp add: trailing_payload_def)
  from adv_data_get_sound [OF trailing_packet_wf g] g show ?thesis by simp
qed

text \<open>
  C8. A mesh structure that is not the first structure of the payload is not found:
  whenever the chain holds its first mesh structure at an offset other than 0,
  \<^verbatim>\<open>mesh_packet_adv_data_get\<close> returns \<^verbatim>\<open>NULL\<close>, because the cursor is advanced in
  units of the structure size and leaves the payload at once.
\<close>

theorem adv_data_get_misses_later:
  assumes "packet_wf p" and "chain_find (payload p) 0 = Some off" and "0 < off"
  shows "mesh_packet_adv_data_get (Some p) = Inr None"
  using chain_find_later [OF assms(2,3)] by (simp add: adv_data_get_wf [OF assms(1)])

theorem adv_data_get_misses_later_witness:
  "packet_wf rx_packet \<and> chain_find (payload rx_packet) 0 = Some 3 \<and> (0::nat) < 3 \<and>
   mesh_packet_adv_data_get (Some rx_packet) = Inr None"
  using adv_data_get_misses_later [of rx_packet 3] chain_find_rx_payload by simp

text \<open>
  C39. \<^verbatim>\<open>mesh_packet_handle_get\<close> answers \<^verbatim>\<open>RBC_MESH_INVALID_HANDLE\<close> both when no
  mesh structure is found and when the structure found stores that value as its
  handle: the two cases cannot be told apart by the caller.
\<close>

theorem handle_get_invalid_iff:
  assumes "packet_wf p"
  shows "mesh_packet_handle_get (Some p) = Inr RBC_MESH_INVALID_HANDLE \<longleftrightarrow>
         mesh_packet_adv_data_get (Some p) = Inr None \<or>
         handle (payload p) 0 = Inr RBC_MESH_INVALID_HANDLE"
  using packet_wf_lengths(2) [OF assms]
  by (auto simp: handle_get_wf [OF assms] adv_data_get_wf [OF assms] handle_def rd16_in)

theorem handle_get_invalid_iff_witness:
  "packet_wf rx_packet \<and>
   mesh_packet_handle_get (Some rx_packet) = Inr RBC_MESH_INVALID_HANDLE \<and>
   mesh_packet_adv_data_get (Some rx_packet) = Inr None"
  using handle_get_invalid_iff [of rx_packet] by (simp add: adv_data_get_wf)

text \<open>
  For a header length that a packet can have (at most 38),
  \<^verbatim>\<open>mesh_packet_has_additional_data\<close> returns without reading outside the payload,
  and its answer depends on the first structure only: true exactly when the length
  exceeds 7 and the first structure is not the mesh's.
\<close>

lemma has_additional_data_legal_length:
  assumes "packet_wf p" and "uint (length_field (header p)) \<le> 38"
  shows "mesh_packet_has_additional_data p =
         Inr (7 < uint (length_field (header p)) \<and> \<not> mesh_adv_data_at (payload p) 0)"
  using assms by (rule has_additional_data_upto_38)

lemma has_additional_data_legal_length_witness:
  "packet_wf rx_packet \<and> uint (length_field (header rx_packet)) \<le> 38 \<and>
   mesh_packet_has_additional_data rx_packet = Inr True"
  using has_additional_data_legal_length [of rx_packet] by simp

text \<open>
  C28. \<^verbatim>\<open>mesh_packet_has_additional_data\<close> reports a foreign structure only when it is
  the first one. For every packet with a header length a packet can have (at most
  38) the answer is true exactly when the byte-wise walk of the chain up to
  \<^verbatim>\<open>header.length - 7\<close> meets a foreign structure and the first structure is not
  the mesh's: a chain with its foreign structures behind the mesh structure is
  answered with false.
\<close>

theorem has_additional_data_misses_trailing:
  assumes "packet_wf p" and "uint (length_field (header p)) \<le> 38"
  shows "mesh_packet_has_additional_data p =
         Inr (chain_has_foreign (payload p) (uint (length_field (header p)) - 7) 0 \<and>
              \<not> mesh_adv_data_at (payload p) 0)"
  using packet_wf_lengths(2) [OF assms(1)]
  by (auto simp: has_additional_data_upto_38 [OF assms]
      chain_has_foreign.simps [of "payload p" _ 0])

text \<open>
  The packet that carries the mesh structure first and a flags structure after it:
  the walk meets the flags structure, the function returns false.
\<close>

theorem has_additional_data_misses_trailing_witness:
  "packet_wf trailing_packet \<and> uint (length_field (header trailing_packet)) \<le> 38 \<and>
   chain_has_foreign (payload trailing_packet)
     (uint (length_field (header trailing_packet)) - 7) 0 \<and>
   mesh_packet_has_additional_data trailing_packet = Inr False"
  using has_additional_data_misses_trailing [of trailing_packet] chain_has_foreign_trailing
  by simp

text \<open>
  C27. With a header length beyond the packet's capacity the loop of
  \<^verbatim>\<open>mesh_packet_has_additional_data\<close> leaves the payload: when the first structure
  is the mesh's and the advanced cursor is still below \<^verbatim>\<open>header.length - 7\<close>, the
  next test reads outside the payload array.
\<close>

theorem has_additional_data_out_of_bounds:
  assumes "packet_wf p" and "mesh_adv_data_at (payload p) 0"
    and "int ((unat (payload p ! 0) + 1) * sizeof_mesh_adv_data_t)
           < uint (length_field (header p)) - 7"
  shows "mesh_packet_has_additional_data p = Inl OutOfBounds"
proof -
  have "0 \<le> int ((unat (payload p ! 0) + 1) * sizeof_mesh_adv_data_t)" by simp
  with assms(3) have "\<not> uint (length_field (header p)) \<le> 7" by linarith
  with assms(2,3) show ?thesis
    by (simp add: has_additional_data_wf [OF assms(1)])
qed

definition overlong_packet :: mesh_packet_t where
  "overlong_packet =
     \<lparr>header = \<lparr>type_field = 2, addr_type = 1, length_field = 255\<rparr>,
      addr = replicate 6 0, payload = [0x00, 0x16, 0xE4, 0xFE] @ replicate 27 0\<rparr>"

theorem has_additional_data_out_of_bounds_witness:
  "packet_wf overlong_packet \<and> mesh_adv_data_at (payload overlong_packet) 0 \<and>
   mesh_packet_has_additional_data overlong_packet = Inl OutOfBounds"
proof -
  have wf: "packet_wf overlong_packet"
    by (simp add: packet_wf_def overlong_packet_def mesh_consts)
  have m: "mesh_adv_data_at (payload overlong_packet) 0"
    by (simp add: mesh_adv_data_at_def overlong_packet_def mesh_consts u16_of_bytes_def)
  have "mesh_packet_has_additional_data overlong_packet = Inl OutOfBounds"
    by (rule has_additional_data_out_of_bounds [OF wf m])
       (simp add: overlong_packet_def mesh_consts)
  with wf m show ?thesis by simp
qed

end
