(* ===== verification/Packet_Build.thy ===== *)
theory Packet_Build
  imports Local_Addr Adv_Data
begin

text \<open>
  \<^verbatim>\<open>mesh_packet_build\<close>: the checks on the arguments, the stamping of the local
  address (whose status the source ignores), the two header fields, the members
  of the mesh structure at the start of the payload, and the copy of the data.
  The caller's buffer \<^verbatim>\<open>data\<close> is a list of bytes or \<^verbatim>\<open>NULL\<close>; a buffer shorter
  than \<^verbatim>\<open>length\<close> makes the copy read outside it. The writes to the payload are
  two definitions of their own, \<open>build_adv_header\<close> and \<open>build_copy\<close>, which
  \<open>mesh_packet_build\<close> runs one after the other.
\<close>

section \<open>The operation\<close>

text \<open>
  The assignments to the members of the mesh structure at the start of the
  payload: length, type, magic, handle and version.
\<close>

definition build_adv_header ::
    "uint8_t list \<Rightarrow> uint16_t \<Rightarrow> uint16_t \<Rightarrow> uint8_t \<Rightarrow> uint8_t list result" where
  "build_adv_header b hdl ver len =
     bindR (wr b 0 (of_nat (MESH_PACKET_ADV_OVERHEAD + unat len))) (\<lambda>b1.
     bindR (wr b1 1 MESH_ADV_DATA_TYPE) (\<lambda>b2.
     bindR (wr16 b2 2 MESH_UUID) (\<lambda>b3.
     bindR (wr16 b3 4 hdl) (\<lambda>b4.
     wr16 b4 6 ver))))"

text \<open>The copy of the data, which is skipped for length 0 and for a \<^verbatim>\<open>NULL\<close> buffer.\<close>

definition build_copy :: "uint8_t list \<Rightarrow> uint8_t list option \<Rightarrow> uint8_t \<Rightarrow> uint8_t list result" where
  "build_copy b data len =
     (case data of
        Some d \<Rightarrow> if unat len > 0 then memcpy b adv_data_offset_data d (unat len) else Inr b
      | None \<Rightarrow> Inr b)"

definition mesh_packet_build ::
    "platform \<Rightarrow> mesh_packet_t option \<Rightarrow> uint16_t \<Rightarrow> uint16_t \<Rightarrow> uint8_t list option \<Rightarrow>
     uint8_t \<Rightarrow> (nrf_error \<times> mesh_packet_t option) result" where
  "mesh_packet_build pf p_packet hdl ver data len =
     (case p_packet of
        None \<Rightarrow> Inr (NRF_ERROR_NULL, None)
      | Some p \<Rightarrow>
          if unat len > RBC_MESH_VALUE_MAX_LEN then Inr (NRF_ERROR_INVALID_LENGTH, Some p)
          else
            bindR (mesh_packet_set_local_addr pf p) (\<lambda>(_, p1).
            let p2 = p1\<lparr>header := (header p1)
                       \<lparr>length_field := of_nat (MESH_PACKET_OVERHEAD + unat len)\<rparr>\<rparr>;
                p3 = p2\<lparr>header := (header p2)\<lparr>type_field := BLE_PACKET_TYPE_ADV_NONCONN_IND\<rparr>\<rparr>
            in
            bindR (build_adv_header (payload p3) hdl ver len) (\<lambda>b5.
            bindR (build_copy b5 data len) (\<lambda>b6.
              Inr (NRF_SUCCESS, Some (p3\<lparr>payload := b6\<rparr>))))))"

section \<open>The packet a successful call leaves\<close>

text \<open>The eight bytes in front of the data of a mesh structure.\<close>

definition mesh_adv_header :: "uint16_t \<Rightarrow> uint16_t \<Rightarrow> uint8_t \<Rightarrow> uint8_t list" where
  "mesh_adv_header hdl ver len =
     [of_nat (MESH_PACKET_ADV_OVERHEAD + unat len), MESH_ADV_DATA_TYPE,
      lo_byte MESH_UUID, hi_byte MESH_UUID, lo_byte hdl, hi_byte hdl, lo_byte ver, hi_byte ver]"

text \<open>
  The payload after the call: header bytes, then the data (or, for a \<^verbatim>\<open>NULL\<close>
  buffer, what the payload held there before), then the old payload.
\<close>

definition built_payload ::
    "uint8_t list \<Rightarrow> uint16_t \<Rightarrow> uint16_t \<Rightarrow> uint8_t list option \<Rightarrow> uint8_t \<Rightarrow> uint8_t list" where
  "built_payload old hdl ver data len =
     mesh_adv_header hdl ver len @
     take (unat len) (case data of Some d \<Rightarrow> d | None \<Rightarrow> drop 8 old) @
     drop (8 + unat len) old"

definition built_packet ::
    "platform \<Rightarrow> mesh_packet_t \<Rightarrow> uint16_t \<Rightarrow> uint16_t \<Rightarrow> uint8_t list option \<Rightarrow> uint8_t \<Rightarrow>
     mesh_packet_t" where
  "built_packet pf p hdl ver data len =
     (let p1 = local_addr_stamp pf p in
      p1\<lparr>header := (header p1)\<lparr>length_field := of_nat (MESH_PACKET_OVERHEAD + unat len),
                               type_field := BLE_PACKET_TYPE_ADV_NONCONN_IND\<rparr>,
         payload := built_payload (payload p) hdl ver data len\<rparr>)"

text \<open>The caller's buffer holds at least \<^verbatim>\<open>length\<close> bytes.\<close>

definition data_fits :: "uint8_t list option \<Rightarrow> uint8_t \<Rightarrow> bool" where
  "data_fits data len \<longleftrightarrow> (case data of Some d \<Rightarrow> unat len \<le> length d | None \<Rightarrow> True)"

lemma length_mesh_adv_header [simp]: "length (mesh_adv_header hdl ver len) = 8"
  by (simp add: mesh_adv_header_def)

lemma length_built_payload:
  "length old = 31 \<Longrightarrow> unat len \<le> 23 \<Longrightarrow> data_fits data len \<Longrightarrow>
   length (built_payload old hdl ver data len) = 31"
  by (auto simp: built_payload_def data_fits_def split: option.splits)

lemma mesh_packet_build_NULL [simp]:
  "mesh_packet_build pf None hdl ver data len = Inr (NRF_ERROR_NULL, None)"
  by (simp add: mesh_packet_build_def)

lemma mesh_packet_build_too_long:
  "RBC_MESH_VALUE_MAX_LEN < unat len \<Longrightarrow>
   mesh_packet_build pf (Some p) hdl ver data len = Inr (NRF_ERROR_INVALID_LENGTH, Some p)"
  by (simp add: mesh_packet_build_def)

lemma build_adv_header_in:
  assumes "length old = 31"
  shows "build_adv_header old hdl ver len = Inr (mesh_adv_header hdl ver len @ drop 8 old)"
proof -
  have "old[0 := a0, 1 := a1, 2 := a2, 3 := a3, 4 := a4, 5 := a5, 6 := a6, 7 := a7] =
        [a0, a1, a2, a3, a4, a5, a6, a7] @ drop 8 old" for a0 a1 a2 a3 a4 a5 a6 a7
    using assms by (intro list_update_prefix8) simp
  with assms show ?thesis
    by (simp add: build_adv_header_def mesh_adv_header_def wr_in wr16_in)
qed

text \<open>The copy behind the eight header bytes.\<close>

lemma build_copy_fits:
  assumes "length front = 8" and "unat len \<le> length rest" and "data_fits data len"
  shows "build_copy (front @ rest) data len =
         Inr (front @ take (unat len) (case data of Some d \<Rightarrow> d | None \<Rightarrow> rest) @
              drop (unat len) rest)"
proof (cases data)
  case None
  then show ?thesis by (simp add: build_copy_def)
next
  case (Some d)
  with assms have "memcpy (front @ rest) 8 d (unat len) =
      Inr (front @ take (unat len) d @ drop (unat len) rest)"
    by (intro memcpy_after_prefix) (simp_all add: data_fits_def)
  with Some show ?thesis
    by (simp add: build_copy_def adv_data_offset_data_def unsigned_eq_0_iff)
qed

lemma build_copy_short:
  "\<not> data_fits data len \<Longrightarrow> build_copy b data len = Inl OutOfBounds"
  by (auto simp: build_copy_def data_fits_def memcpy_def split: option.splits)

text \<open>The call up to the copy, for a length that passes the check.\<close>

lemma mesh_packet_build_copy:
  assumes "platform_wf pf" and "packet_wf p" and "unat len \<le> RBC_MESH_VALUE_MAX_LEN"
  shows "mesh_packet_build pf (Some p) hdl ver data len =
         bindR (build_copy (mesh_adv_header hdl ver len @ drop 8 (payload p)) data len) (\<lambda>b6.
           Inr (NRF_SUCCESS, Some ((built_packet pf p hdl ver data len)\<lparr>payload := b6\<rparr>)))"
  using assms(3) packet_wf_lengths(2) [OF assms(2)]
  by (simp add: mesh_packet_build_def set_local_addr_eq [OF assms(1,2)] build_adv_header_in
      built_packet_def Let_def not_less)

lemma mesh_packet_build_ok:
  assumes "platform_wf pf" and "packet_wf p" and "unat len \<le> RBC_MESH_VALUE_MAX_LEN"
    and "data_fits data len"
  shows "mesh_packet_build pf (Some p) hdl ver data len =
         Inr (NRF_SUCCESS, Some (built_packet pf p hdl ver data len))"
proof -
  have "unat len \<le> length (drop 8 (payload p))"
    using assms(3) packet_wf_lengths(2) [OF assms(2)] by (simp add: mesh_consts)
  with assms(4) show ?thesis
    by (simp add: mesh_packet_build_copy [OF assms(1-3)] build_copy_fits built_packet_def
        built_payload_def Let_def add.commute)
qed

lemma mesh_packet_build_short_buffer:
  assumes "platform_wf pf" and "packet_wf p" and "unat len \<le> RBC_MESH_VALUE_MAX_LEN"
    and "\<not> data_fits data len"
  shows "mesh_packet_build pf (Some p) hdl ver data len = Inl OutOfBounds"
  using assms(4) by (simp add: mesh_packet_build_copy [OF assms(1-3)] build_copy_short)

lemma mesh_packet_build_wf:
  assumes "platform_wf pf" and "packet_wf p"
  shows "mesh_packet_build pf (Some p) hdl ver data len =
         (if RBC_MESH_VALUE_MAX_LEN < unat len then Inr (NRF_ERROR_INVALID_LENGTH, Some p)
          else if data_fits data len
          then Inr (NRF_SUCCESS, Some (built_packet pf p hdl ver data len))
          else Inl OutOfBounds)"
  using assms
  by (simp add: mesh_packet_build_too_long mesh_packet_build_ok mesh_packet_build_short_buffer
      not_less)

lemma mesh_packet_build_success:
  assumes "platform_wf pf" and "packet_wf p"
    and "mesh_packet_build pf (Some p) hdl ver data len = Inr (NRF_SUCCESS, Some p')"
  shows "unat len \<le> RBC_MESH_VALUE_MAX_LEN" and "data_fits data len"
    and "p' = built_packet pf p hdl ver data len"
  using assms(3) unfolding mesh_packet_build_wf [OF assms(1,2)]
  by (auto split: if_splits)

section \<open>The built packet\<close>

lemma built_packet_sel [simp]:
  "payload (built_packet pf p hdl ver data len) = built_payload (payload p) hdl ver data len"
  "type_field (header (built_packet pf p hdl ver data len)) = BLE_PACKET_TYPE_ADV_NONCONN_IND"
  "addr (built_packet pf p hdl ver data len) = addr (local_addr_stamp pf p)"
  "addr_type (header (built_packet pf p hdl ver data len)) =
     addr_type (header (local_addr_stamp pf p))"
  by (simp_all add: built_packet_def Let_def)

lemma built_packet_wf:
  assumes "platform_wf pf" and "packet_wf p" and "unat len \<le> RBC_MESH_VALUE_MAX_LEN"
    and "data_fits data len"
  shows "packet_wf (built_packet pf p hdl ver data len)"
  using local_addr_stamp_wf [OF assms(1,2)] assms(3,4) packet_wf_lengths(2) [OF assms(2)]
  by (simp add: packet_wf_def length_built_payload mesh_consts)

lemma built_payload_members [simp]:
  "mesh_adv_data_at (built_payload old hdl ver data len) 0"
  "u16_of_bytes (built_payload old hdl ver data len ! 4) (built_payload old hdl ver data len ! 5)
     = hdl"
  "u16_of_bytes (built_payload old hdl ver data len ! 6) (built_payload old hdl ver data len ! 7)
     = ver"
  by (simp_all add: built_payload_def mesh_adv_header_def mesh_adv_data_at_def)

lemma built_payload_data:
  "drop 8 (built_payload old hdl ver data len) =
   take (unat len) (case data of Some d \<Rightarrow> d | None \<Rightarrow> drop 8 old) @ drop (8 + unat len) old"
  by (simp add: built_payload_def)

text \<open>Neither length byte wraps.\<close>

lemma built_adv_length:
  assumes "unat len \<le> RBC_MESH_VALUE_MAX_LEN"
  shows "unat (built_payload old hdl ver data len ! 0) = 7 + unat len"
proof -
  have "built_payload old hdl ver data len ! 0 = of_nat (7 + unat len)"
    by (simp add: built_payload_def mesh_adv_header_def mesh_consts)
  moreover have "unat (of_nat (7 + unat len) :: uint8_t) = 7 + unat len"
    using assms by (intro unat_of_nat8) (simp add: mesh_consts)
  ultimately show ?thesis by (simp only:)
qed

lemma built_adv_length_byte:
  "built_payload old hdl ver data len ! 0 = 7 + len"
  by (simp add: built_payload_def mesh_adv_header_def mesh_consts)

lemma built_header_length:
  assumes "unat len \<le> RBC_MESH_VALUE_MAX_LEN"
  shows "uint (length_field (header (built_packet pf p hdl ver data len))) = int (14 + unat len)"
proof -
  let ?l = "length_field (header (built_packet pf p hdl ver data len))"
  have "?l = of_nat (14 + unat len)"
    by (simp add: built_packet_def Let_def mesh_consts)
  moreover have "unat (of_nat (14 + unat len) :: uint8_t) = 14 + unat len"
    using assms by (intro unat_of_nat8) (simp add: mesh_consts)
  ultimately have "unat ?l = 14 + unat len" by (simp only:)
  moreover have "uint ?l = int (unat ?l)" by (rule uint_nat)
  ultimately show ?thesis by (simp only:)
qed

lemma built_packet_located:
  assumes "platform_wf pf" and "packet_wf p" and "unat len \<le> RBC_MESH_VALUE_MAX_LEN"
    and "data_fits data len"
  shows "mesh_packet_adv_data_get (Some (built_packet pf p hdl ver data len)) = Inr (Some 0)"
  using assms(3)
  by (simp add: adv_data_get_wf [OF built_packet_wf [OF assms]] built_adv_length mesh_consts)

lemma chain_has_foreign_done:
  "bound \<le> int off \<Longrightarrow> \<not> chain_has_foreign pl bound off"
  by (simp add: chain_has_foreign.simps [of pl bound off])

lemma built_packet_chain:
  assumes "length old = 31" and "unat len \<le> RBC_MESH_VALUE_MAX_LEN" and "data_fits data len"
  shows "chain_find (built_payload old hdl ver data len) 0 = Some 0"
    and "bound \<le> int (8 + unat len) \<Longrightarrow>
         \<not> chain_has_foreign (built_payload old hdl ver data len) bound 0"
proof -
  let ?b = "built_payload old hdl ver data len"
  note n = built_adv_length [OF assms(2)]
  have l: "length ?b = 31"
    using assms by (simp add: length_built_payload mesh_consts)
  from assms(2) show "chain_find ?b 0 = Some 0"
    by (simp add: chain_find_first l n mesh_consts)
  show "\<not> chain_has_foreign ?b bound 0" if "bound \<le> int (8 + unat len)"
    using that by (simp add: chain_has_foreign.simps [of ?b bound 0] n chain_has_foreign_done)
qed

section \<open>Properties of the builder\<close>

text \<open>
  C15. For a packet of the pool and a device as declared, \<^verbatim>\<open>mesh_packet_build\<close> has
  exactly three outcomes: data longer than \<^verbatim>\<open>RBC_MESH_VALUE_MAX_LEN\<close> is refused with
  \<^verbatim>\<open>NRF_ERROR_INVALID_LENGTH\<close> and the packet is untouched; a data buffer shorter than
  \<^verbatim>\<open>length\<close> is read past its end; otherwise the call succeeds and leaves the packet
  \<open>built_packet\<close>: local address, length 14 + \<^verbatim>\<open>length\<close>, type
  \<^verbatim>\<open>ADV_NONCONN_IND\<close>, and the mesh structure at the start of the payload.
\<close>

theorem mesh_packet_build_outcome:
  assumes "platform_wf pf" and "packet_wf p"
  shows "mesh_packet_build pf (Some p) hdl ver data len =
         (if RBC_MESH_VALUE_MAX_LEN < unat len then Inr (NRF_ERROR_INVALID_LENGTH, Some p)
          else if data_fits data len
          then Inr (NRF_SUCCESS, Some (built_packet pf p hdl ver data len))
          else Inl OutOfBounds)"
  using assms by (rule mesh_packet_build_wf)

text \<open>
  C7. Building and reading back: after a successful \<^verbatim>\<open>mesh_packet_build\<close> with handle
  \<open>hdl\<close>, \<^verbatim>\<open>mesh_packet_handle_get\<close> on the packet returns \<open>hdl\<close>.
\<close>

theorem build_handle_get_roundtrip:
  assumes "platform_wf pf" and "packet_wf p"
    and "mesh_packet_build pf (Some p) hdl ver data len = Inr (NRF_SUCCESS, Some p')"
  shows "mesh_packet_handle_get (Some p') = Inr hdl"
proof -
  note ok = mesh_packet_build_success [OF assms]
  have "packet_wf p'"
    unfolding ok(3) using assms(1,2) ok(1,2) by (rule built_packet_wf)
  then show ?thesis
    using ok(1) by (simp add: handle_get_wf ok(3) built_adv_length mesh_consts)
qed

text \<open>
  C26. After a successful \<^verbatim>\<open>mesh_packet_build\<close> the version field reads back as given,
  the length byte of the structure is 7 + \<^verbatim>\<open>length\<close>, and the first \<^verbatim>\<open>length\<close> bytes
  of the structure's data are those of the caller's buffer.
\<close>

theorem build_value_roundtrip:
  assumes "platform_wf pf" and "packet_wf p"
    and "mesh_packet_build pf (Some p) hdl ver (Some d) len = Inr (NRF_SUCCESS, Some p')"
  shows "version (payload p') 0 = Inr ver \<and>
         adv_data_length (payload p') 0 = Inr (7 + len) \<and>
         take (unat len) (drop adv_data_offset_data (payload p')) = take (unat len) d"
proof -
  note ok = mesh_packet_build_success [OF assms]
  have l: "length (payload p') = 31"
    unfolding ok(3) using packet_wf_lengths(2) [OF assms(2)] ok(1,2)
    by (simp add: length_built_payload mesh_consts)
  from ok(2) have "unat len \<le> length d"
    by (simp add: data_fits_def)
  then have "take (unat len) (drop adv_data_offset_data (payload p')) = take (unat len) d"
    by (simp add: ok(3) built_payload_data adv_data_offset_data_def)
  moreover have "version (payload p') 0 = Inr ver"
    using l by (simp add: version_def rd16_in) (simp add: ok(3))
  moreover have "adv_data_length (payload p') 0 = Inr (7 + len)"
    using l by (simp add: adv_data_length_def rd_in) (simp add: ok(3) built_adv_length_byte)
  ultimately show ?thesis by simp
qed

text \<open>
  C25. A packet left by a successful \<^verbatim>\<open>mesh_packet_build\<close> is well formed and holds
  exactly one structure: \<^verbatim>\<open>mesh_packet_adv_data_get\<close> finds the mesh structure at the
  start of the payload, where the wire format's chain has it too,
  \<^verbatim>\<open>mesh_packet_has_additional_data\<close> answers false, and the chain has no foreign
  structure within the bytes the header announces.
\<close>

theorem build_single_structure:
  assumes "platform_wf pf" and "packet_wf p"
    and "mesh_packet_build pf (Some p) hdl ver data len = Inr (NRF_SUCCESS, Some p')"
  shows "packet_wf p' \<and>
         mesh_packet_adv_data_get (Some p') = Inr (Some 0) \<and>
         chain_find (payload p') 0 = Some 0 \<and>
         mesh_packet_has_additional_data p' = Inr False \<and>
         \<not> chain_has_foreign (payload p') (uint (length_field (header p')) - 7) 0"
proof -
  note ok = mesh_packet_build_success [OF assms]
  note len = packet_wf_lengths(2) [OF assms(2), unfolded BLE_ADV_PACKET_PAYLOAD_MAX_LENGTH_def]
  have wf: "packet_wf p'"
    unfolding ok(3) using assms(1,2) ok(1,2) by (rule built_packet_wf)
  have hl: "uint (length_field (header p')) = int (14 + unat len)"
    unfolding ok(3) using ok(1) by (rule built_header_length)
  from ok(1) have "int (14 + unat len) \<le> 38"
    unfolding RBC_MESH_VALUE_MAX_LEN_def by linarith
  then have "uint (length_field (header p')) \<le> 38"
    by (simp only: hl)
  then have "mesh_packet_has_additional_data p' = Inr False"
    by (simp add: has_additional_data_upto_38 [OF wf]) (simp add: ok(3))
  moreover have "mesh_packet_adv_data_get (Some p') = Inr (Some 0)"
    unfolding ok(3) using assms(1,2) ok(1,2) by (rule built_packet_located)
  moreover have "chain_find (payload p') 0 = Some 0"
    by (simp add: ok(3) built_packet_chain(1) [OF len ok(1,2)])
  moreover have "\<not> chain_has_foreign (payload p') (uint (length_field (header p')) - 7) 0"
    unfolding hl by (simp add: ok(3) built_packet_chain(2) [OF len ok(1,2)])
  ultimately show ?thesis using wf by simp
qed

text \<open>
  C35. \<^verbatim>\<open>mesh_packet_build\<close> does not look at the status of
  \<^verbatim>\<open>mesh_packet_set_local_addr\<close>: when the device cannot give its address the call
  still returns \<^verbatim>\<open>NRF_SUCCESS\<close>, and the packet it built keeps whatever address and
  address type it held before.
\<close>

theorem build_ignores_addr_failure:
  assumes "platform_wf pf" and "packet_wf p" and "\<not> addr_available pf"
    and "unat len \<le> RBC_MESH_VALUE_MAX_LEN" and "data_fits data len"
  shows "\<exists>p'. mesh_packet_build pf (Some p) hdl ver data len = Inr (NRF_SUCCESS, Some p') \<and>
              mesh_packet_set_local_addr pf p = Inr (fst (sd_ble_gap_address_get pf), p) \<and>
              fst (sd_ble_gap_address_get pf) \<noteq> NRF_SUCCESS \<and>
              addr p' = addr p \<and> addr_type (header p') = addr_type (header p)"
  using assms
  by (simp add: mesh_packet_build_ok set_local_addr_unavailable local_addr_stamp_def
      addr_available_def)

text \<open>
  C36. With \<^verbatim>\<open>data == NULL\<close> and a non-zero \<^verbatim>\<open>length\<close> the call succeeds and announces
  \<^verbatim>\<open>length\<close> bytes of data, but writes none: the data bytes of the structure are the
  bytes the payload held there before the call.
\<close>

theorem build_null_data_keeps_stale_bytes:
  assumes "platform_wf pf" and "packet_wf p" and "unat len \<le> RBC_MESH_VALUE_MAX_LEN"
  shows "\<exists>p'. mesh_packet_build pf (Some p) hdl ver None len = Inr (NRF_SUCCESS, Some p') \<and>
              adv_data_length (payload p') 0 = Inr (7 + len) \<and>
              drop adv_data_offset_data (payload p') = drop adv_data_offset_data (payload p)"
proof -
  let ?p' = "built_packet pf p hdl ver None len"
  have "mesh_packet_build pf (Some p) hdl ver None len = Inr (NRF_SUCCESS, Some ?p')"
    using assms by (simp add: mesh_packet_build_ok data_fits_def)
  moreover have "length (payload ?p') = 31"
    using packet_wf_lengths(2) [OF assms(2)] assms(3)
    by (simp add: length_built_payload data_fits_def mesh_consts)
  then have "adv_data_length (payload ?p') 0 = Inr (7 + len)"
    by (simp add: adv_data_length_def rd_in) (simp add: built_adv_length_byte)
  moreover have "drop adv_data_offset_data (payload ?p') = drop adv_data_offset_data (payload p)"
    using append_take_drop_id [of "unat len" "drop 8 (payload p)"]
    by (simp add: built_payload_data adv_data_offset_data_def add.commute)
  ultimately show ?thesis by blast
qed

section \<open>Witnesses\<close>

text \<open>A value of three bytes for handle 0x1234 at version 7, built in a blank packet.\<close>

lemma fits_3 [simp]: "data_fits (Some [a, b, c]) 3" "data_fits None len"
  by (simp_all add: data_fits_def)

lemma build_blank_ficr:
  "mesh_packet_build ficr_platform (Some blank_packet) 0x1234 7 (Some [0xAA, 0xBB, 0xCC]) 3 =
   Inr (NRF_SUCCESS,
        Some (built_packet ficr_platform blank_packet 0x1234 7 (Some [0xAA, 0xBB, 0xCC]) 3))"
  by (simp add: mesh_packet_build_ok mesh_consts)

theorem mesh_packet_build_outcome_witness:
  "mesh_packet_build ficr_platform (Some blank_packet) 0x1234 7 (Some [0xAA, 0xBB]) 3 =
     Inl OutOfBounds \<and>
   mesh_packet_build ficr_platform (Some blank_packet) 0x1234 7 None 24 =
     Inr (NRF_ERROR_INVALID_LENGTH, Some blank_packet)"
  using mesh_packet_build_outcome [OF ficr_platform_wf blank_packet_wf, of "0x1234" 7 "Some [0xAA, 0xBB]" 3]
    mesh_packet_build_outcome [OF ficr_platform_wf blank_packet_wf, of "0x1234" 7 None 24]
  by (simp add: data_fits_def mesh_consts)

theorem build_handle_get_roundtrip_witness:
  "mesh_packet_handle_get
     (Some (built_packet ficr_platform blank_packet 0x1234 7 (Some [0xAA, 0xBB, 0xCC]) 3)) =
   Inr 0x1234"
  by (rule build_handle_get_roundtrip [OF ficr_platform_wf blank_packet_wf build_blank_ficr])

theorem build_value_roundtrip_witness:
  "version (payload (built_packet ficr_platform blank_packet 0x1234 7 (Some [0xAA, 0xBB, 0xCC]) 3)) 0
     = Inr 7 \<and>
   take 3 (drop 8 (payload
     (built_packet ficr_platform blank_packet 0x1234 7 (Some [0xAA, 0xBB, 0xCC]) 3))) =
   [0xAA, 0xBB, 0xCC]"
  using build_value_roundtrip [OF ficr_platform_wf blank_packet_wf build_blank_ficr]
  by (simp add: adv_data_offset_data_def)

theorem build_single_structure_witness:
  "mesh_packet_has_additional_data
     (built_packet ficr_platform blank_packet 0x1234 7 (Some [0xAA, 0xBB, 0xCC]) 3) = Inr False \<and>
   mesh_packet_adv_data_get
     (Some (built_packet ficr_platform blank_packet 0x1234 7 (Some [0xAA, 0xBB, 0xCC]) 3)) =
   Inr (Some 0)"
  using build_single_structure [OF ficr_platform_wf blank_packet_wf build_blank_ficr]
  by simp

theorem build_ignores_addr_failure_witness:
  "\<exists>p'. mesh_packet_build sd_off_platform (Some blank_packet) 0x1234 7 None 0 =
          Inr (NRF_SUCCESS, Some p') \<and> addr p' = addr blank_packet"
  using build_ignores_addr_failure [OF sd_off_platform_wf blank_packet_wf
      sd_off_platform_unavailable, of 0 None "0x1234" 7]
  by (auto simp: mesh_consts)

theorem build_null_data_keeps_stale_bytes_witness:
  "\<exists>p'. mesh_packet_build ficr_platform (Some blank_packet) 0x1234 7 None 23 =
          Inr (NRF_SUCCESS, Some p') \<and> drop 8 (payload p') = drop 8 (payload blank_packet)"
  using build_null_data_keeps_stale_bytes [OF ficr_platform_wf blank_packet_wf, of 23 "0x1234" 7]
  by (auto simp: mesh_consts adv_data_offset_data_def)

end
