(* ===== verification/Sanitize.thy ===== *)
theory Sanitize
  imports Local_Addr Adv_Data
begin

text \<open>
  \<^verbatim>\<open>mesh_packet_adv_data_sanitize\<close> and \<^verbatim>\<open>mesh_packet_take_ownership\<close>: the
  byte-by-byte move of the mesh structure to the start of the payload, the new
  header length, and the composite that sanitizes a received packet and stamps
  the local address. The move loop is \<open>adv_data_move\<close>, on the payload and the
  offset of the structure found, and \<open>T_adv_data_move\<close> counts its passes.
\<close>

section \<open>The operations\<close>

text \<open>
  The \<^verbatim>\<open>for\<close> loop: \<^verbatim>\<open>payload[i] = *(((uint8_t*) p_mesh_adv_data) + i)\<close> for
  \<open>i\<close> from the given start below \<open>n\<close>, each read taken from the payload as the
  writes before it have left it.
\<close>

function adv_data_move :: "uint8_t list \<Rightarrow> nat \<Rightarrow> nat \<Rightarrow> nat \<Rightarrow> uint8_t list result" where
  "adv_data_move pl off n i =
     (if i < n then
        bindR (rd pl (off + i)) (\<lambda>b.
        bindR (wr pl i b) (\<lambda>pl'.
          adv_data_move pl' off n (i + 1)))
      else Inr pl)"
  by pat_completeness auto
termination
  by (relation "measure (\<lambda>(pl, off, n, i). n - i)") auto

declare adv_data_move.simps [simp del]

text \<open>The number of times the condition \<^verbatim>\<open>i < adv_data_length\<close> is evaluated.\<close>

function T_adv_data_move :: "uint8_t list \<Rightarrow> nat \<Rightarrow> nat \<Rightarrow> nat \<Rightarrow> nat" where
  "T_adv_data_move pl off n i =
     (if i < n then
        (case rd pl (off + i) of
           Inr b \<Rightarrow>
             (case wr pl i b of
                Inr pl' \<Rightarrow> 1 + T_adv_data_move pl' off n (i + 1)
              | Inl e \<Rightarrow> 1)
         | Inl e \<Rightarrow> 1)
      else 1)"
  by pat_completeness auto
termination
  by (relation "measure (\<lambda>(pl, off, n, i). n - i)") auto

declare T_adv_data_move.simps [simp del]

definition mesh_packet_adv_data_sanitize ::
    "mesh_packet_t option \<Rightarrow> (nrf_error \<times> mesh_packet_t option) result" where
  "mesh_packet_adv_data_sanitize p_packet =
     bindR (mesh_packet_adv_data_get p_packet) (\<lambda>p_mesh_adv_data.
       case (p_mesh_adv_data, p_packet) of
         (Some off, Some p) \<Rightarrow>
           bindR (if off \<noteq> 0 then
                    bindR (adv_data_length (payload p) off) (\<lambda>l.
                      let adv_data_length = l + 1 in
                      adv_data_move (payload p) off (unat adv_data_length) 0)
                  else Inr (payload p)) (\<lambda>pl.
           bindR (adv_data_length pl 0) (\<lambda>l.
             Inr (NRF_SUCCESS,
                  Some (p\<lparr>payload := pl,
                          header := (header p)\<lparr>length_field :=
                            of_nat (MESH_PACKET_OVERHEAD - MESH_PACKET_ADV_OVERHEAD + unat l)\<rparr>\<rparr>))))
       | _ \<Rightarrow> Inr (NRF_ERROR_INVALID_DATA, p_packet))"

definition mesh_packet_take_ownership :: "platform \<Rightarrow> mesh_packet_t \<Rightarrow> mesh_packet_t result" where
  "mesh_packet_take_ownership pf p =
     bindR (mesh_packet_has_additional_data p) (\<lambda>extra.
     bindR (if extra then
              bindR (mesh_packet_adv_data_sanitize (Some p)) (\<lambda>(_, q).
                Inr (case q of Some p' \<Rightarrow> p' | None \<Rightarrow> p))
            else Inr p) (\<lambda>p1.
     bindR (mesh_packet_set_local_addr pf p1) (\<lambda>(_, p2). Inr p2)))"

section \<open>The move\<close>

text \<open>
  A forward copy towards lower addresses is safe for overlapping ranges: every
  read is at or above the write of the same pass, so it still sees the byte the
  payload held at the start. After \<open>i\<close> passes the first \<open>i\<close> bytes are moved.
\<close>

definition moved :: "uint8_t list \<Rightarrow> nat \<Rightarrow> nat \<Rightarrow> uint8_t list" where
  "moved pl off n = take n (drop off pl) @ drop n pl"

lemma length_moved [simp]: "off + n \<le> length pl \<Longrightarrow> length (moved pl off n) = length pl"
  by (simp add: moved_def)

lemma moved_0 [simp]: "moved pl off 0 = pl"
  by (simp add: moved_def)

lemma moved_Suc:
  assumes "off + n < length pl"
  shows "(moved pl off n)[n := pl ! (off + n)] = moved pl off (Suc n)"
proof -
  from assms have n: "n < length pl" and d: "n < length (drop off pl)"
    by simp_all
  have "(moved pl off n)[n := pl ! (off + n)] =
        take n (drop off pl) @ (drop n pl)[0 := pl ! (off + n)]"
    using d by (simp add: moved_def list_update_append)
  also have "(drop n pl)[0 := pl ! (off + n)] = pl ! (off + n) # drop (Suc n) pl"
    using n by (simp add: Cons_nth_drop_Suc [symmetric])
  also have "take n (drop off pl) @ pl ! (off + n) # drop (Suc n) pl = moved pl off (Suc n)"
    using d by (simp add: moved_def take_Suc_conv_app_nth)
  finally show ?thesis .
qed

lemma moved_nth_source:
  "off + n \<le> length pl \<Longrightarrow> n \<le> k \<Longrightarrow> k < length pl \<Longrightarrow> moved pl off n ! k = pl ! k"
  by (simp add: moved_def nth_append)

lemma adv_data_move_done: "n \<le> i \<Longrightarrow> adv_data_move pl off n i = Inr pl"
  by (simp add: adv_data_move.simps [of pl off n i])

lemma adv_data_move_from:
  assumes "off + n \<le> length pl" and "i \<le> n"
  shows "adv_data_move (moved pl off i) off n i = Inr (moved pl off n)"
  using assms(2)
proof (induction "n - i" arbitrary: i)
  case 0
  then show ?case by (simp add: adv_data_move_done)
next
  case (Suc k)
  then have i: "i < n" by simp
  with assms(1) have b: "off + i < length pl" "i < length pl" by simp_all
  have "adv_data_move (moved pl off i) off n i =
        adv_data_move ((moved pl off i)[i := pl ! (off + i)]) off n (i + 1)"
    using i b assms(1)
    by (simp add: adv_data_move.simps [of _ off n i] rd_in wr_in moved_nth_source)
  also have "\<dots> = adv_data_move (moved pl off (Suc i)) off n (Suc i)"
    by (simp add: moved_Suc [OF b(1)])
  also have "\<dots> = Inr (moved pl off n)"
    using Suc i by (intro Suc.hyps(1)) simp_all
  finally show ?case .
qed

lemma adv_data_move_in:
  "off + n \<le> length pl \<Longrightarrow> adv_data_move pl off n 0 = Inr (moved pl off n)"
  using adv_data_move_from [of off n pl 0] by simp

lemma adv_data_move_out:
  assumes "length pl < off + n" and "off \<le> length pl"
  shows "adv_data_move pl off n 0 = Inl OutOfBounds"
proof -
  let ?m = "length pl - off"
  have "adv_data_move (moved pl off i) off n i = Inl OutOfBounds" if "i \<le> ?m" for i
    using that
  proof (induction "?m - i" arbitrary: i)
    case 0
    with assms have "i < n" "length (moved pl off i) \<le> off + i" by simp_all
    then show ?case
      by (simp add: adv_data_move.simps [of _ off n i] rd_out)
  next
    case (Suc k)
    with assms have i: "i < n" and b: "off + i < length pl" "i < length pl" by simp_all
    have "adv_data_move (moved pl off i) off n i =
          adv_data_move ((moved pl off i)[i := pl ! (off + i)]) off n (i + 1)"
      using i b by (simp add: adv_data_move.simps [of _ off n i] rd_in wr_in moved_nth_source)
    also have "\<dots> = adv_data_move (moved pl off (Suc i)) off n (Suc i)"
      by (simp add: moved_Suc [OF b(1)])
    also have "\<dots> = Inl OutOfBounds"
      using Suc by (intro Suc.hyps(1)) simp_all
    finally show ?case .
  qed
  from this [of 0] show ?thesis by simp
qed

lemma adv_data_move_wf:
  "off \<le> length pl \<Longrightarrow>
   adv_data_move pl off n 0 =
     (if off + n \<le> length pl then Inr (moved pl off n) else Inl OutOfBounds)"
  by (simp add: adv_data_move_in adv_data_move_out not_le)

lemma moved_nth:
  "off + n \<le> length pl \<Longrightarrow> k < length pl \<Longrightarrow>
   moved pl off n ! k = (if k < n then pl ! (off + k) else pl ! k)"
  by (simp add: moved_def nth_append)

lemma mesh_adv_data_at_moved:
  assumes "off + n \<le> length pl" and "4 \<le> n" and "mesh_adv_data_at pl off"
  shows "mesh_adv_data_at (moved pl off n) 0"
  using assms by (simp add: mesh_adv_data_at_def moved_nth)

lemma T_adv_data_move_bound: "T_adv_data_move pl off n i \<le> n - i + 1"
proof (induction pl off n i rule: T_adv_data_move.induct)
  case (1 pl off n i)
  then show ?case
    by (subst T_adv_data_move.simps) (auto simp: Suc_diff_Suc split: sum.split)
qed

text \<open>A move that returns has evaluated its condition once per byte and once more.\<close>

lemma T_adv_data_move_returns:
  "adv_data_move pl off n i = Inr pl' \<Longrightarrow> T_adv_data_move pl off n i = n - i + 1"
proof (induction pl off n i rule: adv_data_move.induct)
  case (1 pl off n i)
  show ?case
  proof (cases "i < n")
    case True
    with "1.prems" obtain b pl1 where "rd pl (off + i) = Inr b" "wr pl i b = Inr pl1"
      and "adv_data_move pl1 off n (i + 1) = Inr pl'"
      by (auto simp: adv_data_move.simps [of pl off n i] bindR_eq_Inr_iff)
    with True "1.IH" [of b pl1] show ?thesis
      by (simp add: T_adv_data_move.simps [of pl off n i] Suc_diff_Suc)
  next
    case False
    then show ?thesis by (simp add: T_adv_data_move.simps [of pl off n i])
  qed
qed

section \<open>What sanitizing computes\<close>

text \<open>The packet a successful call leaves: only the header length is new.\<close>

definition sanitized :: "mesh_packet_t \<Rightarrow> mesh_packet_t" where
  "sanitized p = p\<lparr>header := (header p)\<lparr>length_field := 7 + payload p ! 0\<rparr>\<rparr>"

lemma sanitized_sel [simp]:
  "payload (sanitized p) = payload p" "addr (sanitized p) = addr p"
  "length_field (header (sanitized p)) = 7 + payload p ! 0"
  "packet_wf (sanitized p) = packet_wf p"
  by (simp_all add: sanitized_def packet_wf_def)

lemma sanitized_idem [simp]: "sanitized (sanitized p) = sanitized p"
  by (simp add: sanitized_def)

lemma sanitize_NULL [simp]:
  "mesh_packet_adv_data_sanitize None = Inr (NRF_ERROR_INVALID_DATA, None)"
  by (simp add: mesh_packet_adv_data_sanitize_def)

lemma sanitize_wf:
  assumes "packet_wf p"
  shows "mesh_packet_adv_data_sanitize (Some p) =
         Inr (if mesh_adv_data_at (payload p) 0 \<and> unat (payload p ! 0) \<le> 30
              then (NRF_SUCCESS, Some (sanitized p))
              else (NRF_ERROR_INVALID_DATA, Some p))"
  using packet_wf_lengths(2) [OF assms]
  by (simp add: mesh_packet_adv_data_sanitize_def adv_data_get_wf [OF assms] adv_data_length_def
      rd_in sanitized_def mesh_consts)

lemma take_ownership_wf:
  assumes "platform_wf pf" and "packet_wf p" and "uint (length_field (header p)) \<le> 38"
  shows "mesh_packet_take_ownership pf p = Inr (local_addr_stamp pf p)"
  using assms
  by (simp add: mesh_packet_take_ownership_def has_additional_data_upto_38 sanitize_wf
      set_local_addr_eq)

lemma take_ownership_cases:
  assumes "platform_wf pf" and "packet_wf p"
  shows "mesh_packet_take_ownership pf p =
         (if length_overruns p then Inl OutOfBounds else Inr (local_addr_stamp pf p))"
  using assms
  by (simp add: mesh_packet_take_ownership_def has_additional_data_cases sanitize_wf
      set_local_addr_eq)

section \<open>Properties of the move loop\<close>

text \<open>
  C17. The byte-by-byte loop of \<^verbatim>\<open>mesh_packet_adv_data_sanitize\<close> is an overlap-safe
  move: started inside the payload it either leaves the \<open>n\<close> bytes that stood at
  \<open>off\<close> at the start of the payload and everything from \<open>n\<close> on as it was, or,
  when \<open>off + n\<close> exceeds the payload, reads outside it.
\<close>

theorem adv_data_move_forward_copy:
  assumes "off \<le> length pl"
  shows "adv_data_move pl off n 0 =
         (if off + n \<le> length pl then Inr (take n (drop off pl) @ drop n pl)
          else Inl OutOfBounds)"
  using assms by (simp add: adv_data_move_wf moved_def)

text \<open>
  C31. Applied to the structure the wire format's chain finds, the loop does what
  sanitizing is meant to do: if the first mesh structure of the chain is at \<open>off\<close>
  and has at least its seven fixed bytes, moving
  \<^verbatim>\<open>adv_data_length + 1\<close> bytes from \<open>off\<close> stays inside the payload and leaves the
  structure at offset 0, found there by the chain, with the same handle, version
  and bytes.
\<close>

theorem move_relocates_structure:
  assumes "length pl = BLE_ADV_PACKET_PAYLOAD_MAX_LENGTH" and "chain_find pl 0 = Some off"
    and "MESH_PACKET_ADV_OVERHEAD \<le> unat (pl ! off)"
  shows "\<exists>pl'. adv_data_move pl off (unat (pl ! off + 1)) 0 = Inr pl' \<and>
               chain_find pl' 0 = Some 0 \<and>
               handle pl' 0 = handle pl off \<and> version pl' 0 = version pl off \<and>
               take (unat (pl ! off) + 1) pl' = take (unat (pl ! off) + 1) (drop off pl)"
proof -
  define m where "m = unat (pl ! off) + 1"
  let ?pl' = "moved pl off m"
  from chain_find_bounds [OF assms(2)]
  have at: "mesh_adv_data_at pl off" and l: "unat (pl ! off) \<le> 30" and fit: "off + m \<le> length pl"
    by (simp_all add: m_def)
  from assms(3) have m8: "8 \<le> m" by (simp add: mesh_consts m_def)
  from l have "pl ! off \<noteq> 255" by auto
  then have n: "unat (pl ! off + 1) = m"
    unfolding m_def by (rule unat_plus_one_u8)
  have len: "length pl = 31" using assms(1) by (simp add: mesh_consts)
  have nth: "?pl' ! k = pl ! (off + k)" if "k < 8" for k
    using that fit m8 len by (simp add: moved_nth)
  have "adv_data_move pl off (unat (pl ! off + 1)) 0 = Inr ?pl'"
    unfolding n using fit by (rule adv_data_move_in)
  moreover have "chain_find ?pl' 0 = Some 0"
    using fit l m8 len at by (simp add: chain_find_first mesh_adv_data_at_moved nth)
  moreover have "handle ?pl' 0 = handle pl off" "version ?pl' 0 = version pl off"
    using fit m8 len by (simp_all add: handle_def version_def rd16_in nth add.assoc add.commute)
  moreover have "take m ?pl' = take m (drop off pl)"
    using fit by (simp add: moved_def)
  ultimately show ?thesis
    unfolding m_def by blast
qed

section \<open>Properties of sanitizing and of the transfer of ownership\<close>

text \<open>
  C18. \<^verbatim>\<open>mesh_packet_adv_data_sanitize\<close> on a packet of the pool returns without
  fault. It succeeds exactly when the payload starts with a mesh structure of
  declared length at most 30, and then only sets the header length to 7 plus that
  length; otherwise it returns \<^verbatim>\<open>NRF_ERROR_INVALID_DATA\<close> and leaves the packet as it
  was. In neither case is a byte of the payload changed.
\<close>

theorem sanitize_outcome:
  assumes "packet_wf p"
  shows "mesh_packet_adv_data_sanitize (Some p) =
         Inr (if mesh_adv_data_at (payload p) 0 \<and> unat (payload p ! 0) \<le> 30
              then (NRF_SUCCESS, Some (p\<lparr>header := (header p)
                                        \<lparr>length_field := 7 + payload p ! 0\<rparr>\<rparr>))
              else (NRF_ERROR_INVALID_DATA, Some p))"
  using sanitize_wf [OF assms] by (simp add: sanitized_def)

text \<open>
  C32. Sanitizing is idempotent: a second call on the packet the first one left
  returns the same status and leaves the same packet.
\<close>

theorem sanitize_idempotent:
  assumes "packet_wf p" and "mesh_packet_adv_data_sanitize (Some p) = Inr (e, q)"
  shows "mesh_packet_adv_data_sanitize q = Inr (e, q)"
proof (cases "mesh_adv_data_at (payload p) 0 \<and> unat (payload p ! 0) \<le> 30")
  case True
  with assms have "q = Some (sanitized p)" "e = NRF_SUCCESS"
    by (simp_all add: sanitize_wf)
  with True assms(1) show ?thesis by (simp add: sanitize_wf)
next
  case False
  with assms have "q = Some p" "e = NRF_ERROR_INVALID_DATA"
    by (auto simp: sanitize_wf)
  with False assms(1) show ?thesis by (auto simp: sanitize_wf)
qed

text \<open>
  C30. A mesh structure behind a foreign one is never moved to the front: when the
  chain holds its first mesh structure at an offset other than 0,
  \<^verbatim>\<open>mesh_packet_adv_data_sanitize\<close> returns \<^verbatim>\<open>NRF_ERROR_INVALID_DATA\<close> and leaves the
  packet unchanged, so the move loop is never entered.
\<close>

theorem sanitize_never_relocates:
  assumes "packet_wf p" and "chain_find (payload p) 0 = Some off" and "0 < off"
  shows "mesh_packet_adv_data_sanitize (Some p) = Inr (NRF_ERROR_INVALID_DATA, Some p)"
  using chain_find_later [OF assms(2,3)] by (simp add: sanitize_wf [OF assms(1)])

text \<open>
  C16. For a header length that a packet can have (at most 38),
  \<^verbatim>\<open>mesh_packet_take_ownership\<close> returns without fault and its whole effect is that
  of \<^verbatim>\<open>mesh_packet_set_local_addr\<close>: payload and header length are those of the
  packet received, whether or not it carried foreign structures.
\<close>

theorem take_ownership_only_restamps:
  assumes "platform_wf pf" and "packet_wf p" and "uint (length_field (header p)) \<le> 38"
  shows "mesh_packet_take_ownership pf p = Inr (local_addr_stamp pf p)"
  using assms by (rule take_ownership_wf)

text \<open>
  C29. The transfer of ownership does not remove a foreign structure. For every
  packet of legal header length whose chain holds its first mesh structure behind
  a foreign one, \<^verbatim>\<open>mesh_packet_take_ownership\<close> returns with the payload as it was
  received: the mesh structure is still behind the foreign one,
  \<^verbatim>\<open>mesh_packet_has_additional_data\<close> on the result still answers true (for a header
  length above 7), and \<^verbatim>\<open>mesh_packet_adv_data_get\<close> and \<^verbatim>\<open>mesh_packet_handle_get\<close>
  on the result find neither the structure nor its handle.
\<close>

theorem take_ownership_keeps_foreign:
  assumes "platform_wf pf" and "packet_wf p" and "uint (length_field (header p)) \<le> 38"
    and "chain_find (payload p) 0 = Some off" and "0 < off"
  shows "\<exists>q. mesh_packet_take_ownership pf p = Inr q \<and> payload q = payload p \<and>
             chain_find (payload q) 0 = Some off \<and>
             mesh_packet_has_additional_data q = Inr (7 < uint (length_field (header p))) \<and>
             mesh_packet_adv_data_get (Some q) = Inr None \<and>
             mesh_packet_handle_get (Some q) = Inr RBC_MESH_INVALID_HANDLE"
proof -
  let ?q = "local_addr_stamp pf p"
  note foreign = chain_find_later [OF assms(4,5)]
  have wf: "packet_wf ?q"
    using assms(1,2) by (rule local_addr_stamp_wf)
  have "mesh_packet_take_ownership pf p = Inr ?q"
    using assms(1-3) by (rule take_ownership_wf)
  moreover have "mesh_packet_has_additional_data ?q = Inr (7 < uint (length_field (header p)))"
    using assms(3) foreign by (simp add: has_additional_data_upto_38 [OF wf])
  moreover have "mesh_packet_adv_data_get (Some ?q) = Inr None"
    "mesh_packet_handle_get (Some ?q) = Inr RBC_MESH_INVALID_HANDLE"
    using foreign by (simp_all add: adv_data_get_wf [OF wf] handle_get_wf [OF wf])
  ultimately show ?thesis using assms(4) by simp
qed

section \<open>Witnesses\<close>

theorem adv_data_move_forward_copy_witness:
  "adv_data_move rx_payload 3 10 0 =
     Inr ([0x09, 0x16, 0xE4, 0xFE, 0x34, 0x12, 0x01, 0x00, 0xAA, 0xBB,
           0x00, 0xAA, 0xBB] @ replicate 18 0) \<and>
   adv_data_move rx_payload 3 29 0 = Inl OutOfBounds"
  using adv_data_move_forward_copy [of 3 rx_payload 10]
    adv_data_move_forward_copy [of 3 rx_payload 29]
  by (simp add: rx_payload_def)

theorem move_relocates_structure_witness:
  "\<exists>pl'. adv_data_move rx_payload 3 10 0 = Inr pl' \<and> chain_find pl' 0 = Some 0 \<and>
         handle pl' 0 = Inr 0x1234"
proof -
  have "rx_payload ! 3 = 9"
    by (simp add: rx_payload_def)
  moreover have "handle rx_payload 3 = Inr 0x1234"
    by (simp add: handle_def rd16_in) (simp add: rx_payload_def u16_of_bytes_def)
  ultimately show ?thesis
    using move_relocates_structure [of rx_payload 3] chain_find_rx_payload
    by (auto simp: mesh_consts)
qed

theorem sanitize_outcome_witness:
  "mesh_packet_adv_data_sanitize (Some trailing_packet) =
     Inr (NRF_SUCCESS, Some (trailing_packet\<lparr>header := (header trailing_packet)
                                              \<lparr>length_field := 16\<rparr>\<rparr>)) \<and>
   mesh_packet_adv_data_sanitize (Some rx_packet) = Inr (NRF_ERROR_INVALID_DATA, Some rx_packet)"
proof -
  have "trailing_payload ! 0 = 9"
    by (simp add: trailing_payload_def)
  then show ?thesis
    using sanitize_outcome [OF trailing_packet_wf] sanitize_outcome [OF rx_packet_wf]
    by simp
qed

theorem sanitize_idempotent_witness:
  "mesh_packet_adv_data_sanitize (Some (sanitized trailing_packet)) =
     Inr (NRF_SUCCESS, Some (sanitized trailing_packet))"
proof -
  have "mesh_packet_adv_data_sanitize (Some trailing_packet) =
        Inr (NRF_SUCCESS, Some (sanitized trailing_packet))"
    by (simp add: sanitize_wf) (simp add: trailing_payload_def)
  from sanitize_idempotent [OF trailing_packet_wf this] show ?thesis .
qed

theorem sanitize_never_relocates_witness:
  "chain_find (payload rx_packet) 0 = Some 3 \<and>
   mesh_packet_adv_data_sanitize (Some rx_packet) = Inr (NRF_ERROR_INVALID_DATA, Some rx_packet)"
  using sanitize_never_relocates [OF rx_packet_wf, of 3] chain_find_rx_payload by simp

theorem take_ownership_only_restamps_witness:
  "mesh_packet_take_ownership ficr_platform trailing_packet =
     Inr (trailing_packet\<lparr>header := (header trailing_packet)\<lparr>addr_type := 1\<rparr>,
                          addr := [1, 2, 3, 4, 5, 6]\<rparr>)"
  using take_ownership_only_restamps [OF ficr_platform_wf trailing_packet_wf]
  by (simp add: local_addr_stamp_def)

text \<open>
  The received packet with a flags structure in front of the mesh structure, on the
  device without SoftDevice: the address is the device's, the mesh structure is still at
  offset 3 and its handle is not found.
\<close>

theorem take_ownership_keeps_foreign_witness:
  "\<exists>q. mesh_packet_take_ownership ficr_platform rx_packet = Inr q \<and>
        payload q = payload rx_packet \<and> chain_find (payload q) 0 = Some 3 \<and>
        mesh_packet_has_additional_data q = Inr True \<and>
        mesh_packet_handle_get (Some q) = Inr RBC_MESH_INVALID_HANDLE"
  using take_ownership_keeps_foreign [OF ficr_platform_wf rx_packet_wf, of 3] chain_find_rx_payload
  by auto

end
