(* ===== verification/Packet_Api.thy ===== *)
theory Packet_Api
  imports Pool_Machine Packet_Build Sanitize
begin

text \<open>
  The interface of \<^verbatim>\<open>mesh_packet.c\<close> as its callers see it: every function of
  the file as an operation on the pool, with the packet arguments given as the
  pointers the callers hold. A packet operation reads the slot its pointer names,
  runs the function of the component on it and writes the slot back; \<^verbatim>\<open>NULL\<close> is
  passed on where the function tests for it. The operations are the datatype
  \<open>api_op\<close> with the step function \<open>api_step\<close>; \<open>api_run\<close> is a sequence of calls
  from one execution context.
\<close>

section \<open>Packets behind a pointer\<close>

text \<open>
  A \<^verbatim>\<open>mesh_packet_t*\<close> handed out by \<^verbatim>\<open>mesh_packet_acquire\<close> is the address of a
  slot of \<^verbatim>\<open>g_packet_pool\<close>. \<open>packet_at\<close> is the object it points to and
  \<open>packet_store\<close> the pool after that object has been assigned. An address that
  is not the address of a slot (outside the array, or inside a slot) names no
  object of the model, and the access is a fault.
\<close>

definition packet_at :: "mesh_pool \<Rightarrow> uint32_t \<Rightarrow> mesh_packet_t result" where
  "packet_at pl p =
     (let i = packet_index pl p in
      if packet_ptr pl i = p then rd (g_packet_pool pl) i else Inl OutOfBounds)"

definition packet_store :: "mesh_pool \<Rightarrow> uint32_t \<Rightarrow> mesh_packet_t \<Rightarrow> mesh_pool result" where
  "packet_store pl p pkt =
     (let i = packet_index pl p in
      if packet_ptr pl i = p
      then bindR (wr (g_packet_pool pl) i pkt) (\<lambda>ps. Inr (pl\<lparr>g_packet_pool := ps\<rparr>))
      else Inl OutOfBounds)"

text \<open>A function that works on the packet behind a pointer, and may change it.\<close>

definition with_packet ::
    "mesh_pool \<Rightarrow> uint32_t \<Rightarrow> (mesh_packet_t \<Rightarrow> ('a \<times> mesh_packet_t) result) \<Rightarrow>
     ('a \<times> mesh_pool) result" where
  "with_packet pl p f =
     bindR (packet_at pl p) (\<lambda>pkt.
     bindR (f pkt) (\<lambda>(r, pkt').
     bindR (packet_store pl p pkt') (\<lambda>pl'. Inr (r, pl'))))"

text \<open>The same for a function that accepts \<^verbatim>\<open>NULL\<close>.\<close>

definition with_packet_opt ::
    "mesh_pool \<Rightarrow> uint32_t option \<Rightarrow>
     (mesh_packet_t option \<Rightarrow> ('a \<times> mesh_packet_t option) result) \<Rightarrow>
     ('a \<times> mesh_pool) result" where
  "with_packet_opt pl p_packet f =
     (case p_packet of
        None \<Rightarrow> bindR (f None) (\<lambda>(r, _). Inr (r, pl))
      | Some p \<Rightarrow>
          with_packet pl p (\<lambda>pkt.
            bindR (f (Some pkt)) (\<lambda>(r, q).
              Inr (r, case q of Some pkt' \<Rightarrow> pkt' | None \<Rightarrow> pkt))))"

text \<open>The argument of a function that only reads the packet.\<close>

definition read_packet_opt :: "mesh_pool \<Rightarrow> uint32_t option \<Rightarrow> mesh_packet_t option result" where
  "read_packet_opt pl p_packet =
     (case p_packet of
        None \<Rightarrow> Inr None
      | Some p \<Rightarrow> bindR (packet_at pl p) (\<lambda>pkt. Inr (Some pkt)))"

section \<open>Operations and steps\<close>

datatype api_op =
    Pool pool_op
  | SetLocalAddr uint32_t
  | Build "uint32_t option" uint16_t uint16_t "uint8_t list option" uint8_t
  | AdvDataSanitize "uint32_t option"
  | AdvDataGet "uint32_t option"
  | HandleGet "uint32_t option"
  | HasAdditionalData uint32_t
  | TakeOwnership uint32_t

datatype api_ret =
    Ret pool_ret
  | RetCode nrf_error
  | RetAdvData "nat option"
  | RetHandle uint16_t

fun api_step :: "platform \<Rightarrow> mesh_pool \<Rightarrow> api_op \<Rightarrow> (api_ret \<times> mesh_pool) result" where
  "api_step pf pl (Pool x) = bindR (pool_step pl x) (\<lambda>(r, pl'). Inr (Ret r, pl'))"
| "api_step pf pl (SetLocalAddr p) =
     with_packet pl p (\<lambda>pkt.
       bindR (mesh_packet_set_local_addr pf pkt) (\<lambda>(e, pkt'). Inr (RetCode e, pkt')))"
| "api_step pf pl (Build p_packet hdl ver data len) =
     with_packet_opt pl p_packet (\<lambda>q.
       bindR (mesh_packet_build pf q hdl ver data len) (\<lambda>(e, q'). Inr (RetCode e, q')))"
| "api_step pf pl (AdvDataSanitize p_packet) =
     with_packet_opt pl p_packet (\<lambda>q.
       bindR (mesh_packet_adv_data_sanitize q) (\<lambda>(e, q'). Inr (RetCode e, q')))"
| "api_step pf pl (AdvDataGet p_packet) =
     bindR (read_packet_opt pl p_packet) (\<lambda>q.
     bindR (mesh_packet_adv_data_get q) (\<lambda>r. Inr (RetAdvData r, pl)))"
| "api_step pf pl (HandleGet p_packet) =
     bindR (read_packet_opt pl p_packet) (\<lambda>q.
     bindR (mesh_packet_handle_get q) (\<lambda>h. Inr (RetHandle h, pl)))"
| "api_step pf pl (HasAdditionalData p) =
     bindR (packet_at pl p) (\<lambda>pkt.
     bindR (mesh_packet_has_additional_data pkt) (\<lambda>b. Inr (Ret (RetBool b), pl)))"
| "api_step pf pl (TakeOwnership p) =
     with_packet pl p (\<lambda>pkt.
       bindR (mesh_packet_take_ownership pf pkt) (\<lambda>pkt'. Inr (Ret RetVoid, pkt')))"

fun api_run :: "platform \<Rightarrow> mesh_pool \<Rightarrow> api_op list \<Rightarrow> (api_ret list \<times> mesh_pool) result" where
  "api_run pf pl [] = Inr ([], pl)"
| "api_run pf pl (x # xs) =
     bindR (api_step pf pl x) (\<lambda>(r, pl').
       bindR (api_run pf pl' xs) (\<lambda>(rs, pl''). Inr (r # rs, pl'')))"

text \<open>The pointer a call works on, if it has one.\<close>

fun op_packet :: "api_op \<Rightarrow> uint32_t option" where
  "op_packet (Pool x) = None"
| "op_packet (SetLocalAddr p) = Some p"
| "op_packet (Build p_packet hdl ver data len) = p_packet"
| "op_packet (AdvDataSanitize p_packet) = p_packet"
| "op_packet (AdvDataGet p_packet) = p_packet"
| "op_packet (HandleGet p_packet) = p_packet"
| "op_packet (HasAdditionalData p) = Some p"
| "op_packet (TakeOwnership p) = Some p"

section \<open>Slots and their addresses\<close>

text \<open>\<open>slot_ptr pl p i\<close>: the address \<open>p\<close> is that of slot \<open>i\<close> of the packet array.\<close>

definition slot_ptr :: "mesh_pool \<Rightarrow> uint32_t \<Rightarrow> nat \<Rightarrow> bool" where
  "slot_ptr pl p i \<longleftrightarrow>
     i = packet_index pl p \<and> packet_ptr pl i = p \<and> i < length (g_packet_pool pl)"

lemma slot_ptr_packet_ptr:
  "pool_wf pl \<Longrightarrow> i < MESH_PACKET_POOL_SIZE pl \<Longrightarrow> slot_ptr pl (packet_ptr pl i) i"
  by (simp add: slot_ptr_def packet_index_ptr pool_wf_def)

lemma slot_ptr_unique: "slot_ptr pl p i \<Longrightarrow> slot_ptr pl p j \<Longrightarrow> i = j"
  by (simp add: slot_ptr_def)

lemma slot_ptr_inject: "slot_ptr pl p i \<Longrightarrow> slot_ptr pl q i \<Longrightarrow> p = q"
  by (auto simp: slot_ptr_def)

lemma slot_ptr_cong:
  "pool_addr pl' = pool_addr pl \<Longrightarrow> length (g_packet_pool pl') = length (g_packet_pool pl) \<Longrightarrow>
   slot_ptr pl' p i = slot_ptr pl p i"
  by (simp add: slot_ptr_def packet_index_def packet_ptr_def)

lemma packet_at_eq_Inr_iff:
  "packet_at pl p = Inr pkt \<longleftrightarrow> (\<exists>i. slot_ptr pl p i \<and> g_packet_pool pl ! i = pkt)"
  by (auto simp: packet_at_def slot_ptr_def Let_def rd_eq_Inr_iff)

lemma packet_store_eq_Inr_iff:
  "packet_store pl p pkt = Inr pl' \<longleftrightarrow>
   (\<exists>i. slot_ptr pl p i \<and> pl' = pl\<lparr>g_packet_pool := (g_packet_pool pl)[i := pkt]\<rparr>)"
  by (auto simp: packet_store_def slot_ptr_def Let_def bindR_eq_Inr_iff wr_eq_Inr_iff)

lemma packet_at_slot:
  "pool_wf pl \<Longrightarrow> i < MESH_PACKET_POOL_SIZE pl \<Longrightarrow>
   packet_at pl (packet_ptr pl i) = Inr (g_packet_pool pl ! i)"
  using slot_ptr_packet_ptr [of pl i] by (auto simp: packet_at_eq_Inr_iff)

lemma packet_at_wf:
  assumes "pool_wf pl" and "i < MESH_PACKET_POOL_SIZE pl"
    and "packet_at pl (packet_ptr pl i) = Inr pkt"
  shows "packet_wf pkt"
  using assms by (auto simp: packet_at_slot pool_wf_def list_all_length)

lemma packet_store_slot:
  "pool_wf pl \<Longrightarrow> i < MESH_PACKET_POOL_SIZE pl \<Longrightarrow>
   packet_store pl (packet_ptr pl i) pkt =
     Inr (pl\<lparr>g_packet_pool := (g_packet_pool pl)[i := pkt]\<rparr>)"
  using slot_ptr_packet_ptr [of pl i]
  by (simp add: packet_store_def slot_ptr_def Let_def wr_in)

lemma packet_store_wf:
  assumes "pool_wf pl" and "i < MESH_PACKET_POOL_SIZE pl" and "packet_wf pkt"
  shows "pool_wf (pl\<lparr>g_packet_pool := (g_packet_pool pl)[i := pkt]\<rparr>)"
  using assms
  by (auto simp: pool_wf_def MESH_PACKET_POOL_SIZE_def list_all_length nth_list_update)

text \<open>What a call through a pointer does to the pool: one slot is rewritten.\<close>

lemma with_packet_eq_Inr_iff:
  "with_packet pl p f = Inr (r, pl') \<longleftrightarrow>
   (\<exists>i pkt'. slot_ptr pl p i \<and> f (g_packet_pool pl ! i) = Inr (r, pkt') \<and>
       pl' = pl\<lparr>g_packet_pool := (g_packet_pool pl)[i := pkt']\<rparr>)"
  by (auto simp: with_packet_def bindR_eq_Inr_iff packet_at_eq_Inr_iff packet_store_eq_Inr_iff
      dest: slot_ptr_unique)

section \<open>Every packet function keeps a packet well formed\<close>

lemma set_local_addr_keeps_wf:
  assumes "platform_wf pf" and "packet_wf pkt"
    and "mesh_packet_set_local_addr pf pkt = Inr (e, pkt')"
  shows "packet_wf pkt'"
  using assms(3) local_addr_stamp_wf [OF assms(1,2)]
  by (simp add: set_local_addr_eq [OF assms(1,2)])

lemma build_keeps_wf:
  assumes "platform_wf pf" and "packet_wf pkt"
    and "mesh_packet_build pf (Some pkt) hdl ver data len = Inr (e, q)"
  shows "\<exists>pkt'. q = Some pkt' \<and> packet_wf pkt'"
  using assms(3) assms(2) built_packet_wf [OF assms(1,2), of len data hdl ver]
  by (auto simp: mesh_packet_build_wf [OF assms(1,2)] not_less split: if_splits)

lemma sanitize_keeps_wf:
  assumes "packet_wf pkt" and "mesh_packet_adv_data_sanitize (Some pkt) = Inr (e, q)"
  shows "\<exists>pkt'. q = Some pkt' \<and> packet_wf pkt'"
  using assms by (auto simp: sanitize_wf split: if_splits)

lemma take_ownership_result:
  assumes "platform_wf pf" and "packet_wf pkt"
    and "mesh_packet_take_ownership pf pkt = Inr pkt'"
  shows "pkt' = local_addr_stamp pf pkt \<or> pkt' = local_addr_stamp pf (sanitized pkt)"
  using assms
  by (auto simp: mesh_packet_take_ownership_def bindR_eq_Inr_iff sanitize_wf set_local_addr_eq
      split: if_splits)

lemma take_ownership_keeps_wf:
  assumes "platform_wf pf" and "packet_wf pkt"
    and "mesh_packet_take_ownership pf pkt = Inr pkt'"
  shows "packet_wf pkt'"
  using take_ownership_result [OF assms] assms(1,2)
  by (auto simp: local_addr_stamp_wf)

section \<open>The effect of a step\<close>

text \<open>
  A call that returns is a pool operation, or leaves the pool as it is, or rewrites
  the one slot its pointer names with a well-formed packet.
\<close>

lemma with_packet_opt_effect:
  assumes "with_packet_opt pl p_packet f = Inr (r, pl')"
    and "\<And>pkt r q. packet_wf pkt \<Longrightarrow> f (Some pkt) = Inr (r, q) \<Longrightarrow>
           \<exists>pkt'. q = Some pkt' \<and> packet_wf pkt'"
  shows "pl' = pl \<or>
         (\<exists>p i pkt'. p_packet = Some p \<and> slot_ptr pl p i \<and>
            pl' = pl\<lparr>g_packet_pool := (g_packet_pool pl)[i := pkt']\<rparr> \<and>
            (packet_wf (g_packet_pool pl ! i) \<longrightarrow> packet_wf pkt'))"
proof (cases p_packet)
  case None
  with assms(1) show ?thesis
    by (auto simp: with_packet_opt_def bindR_eq_Inr_iff)
next
  case (Some p)
  with assms(1) obtain i pkt' r' q where i: "slot_ptr pl p i"
    and f: "f (Some (g_packet_pool pl ! i)) = Inr (r', q)"
    and pkt': "pkt' = (case q of Some pkt' \<Rightarrow> pkt' | None \<Rightarrow> g_packet_pool pl ! i)"
    and pl': "pl' = pl\<lparr>g_packet_pool := (g_packet_pool pl)[i := pkt']\<rparr>"
    by (auto simp: with_packet_opt_def with_packet_eq_Inr_iff bindR_eq_Inr_iff)
  have "packet_wf pkt'" if "packet_wf (g_packet_pool pl ! i)"
    using assms(2) [OF that f] by (auto simp: pkt')
  with Some i pl' show ?thesis by blast
qed

lemma api_step_effect:
  assumes "platform_wf pf" and "api_step pf pl x = Inr (r, pl')"
  shows "(\<exists>y r'. x = Pool y \<and> pool_step pl y = Inr (r', pl')) \<or> pl' = pl \<or>
         (\<exists>p i pkt'. op_packet x = Some p \<and> slot_ptr pl p i \<and>
            pl' = pl\<lparr>g_packet_pool := (g_packet_pool pl)[i := pkt']\<rparr> \<and>
            (packet_wf (g_packet_pool pl ! i) \<longrightarrow> packet_wf pkt'))"
proof (cases x)
  case (Pool y)
  with assms(2) show ?thesis by (auto simp: bindR_eq_Inr_iff)
next
  case (SetLocalAddr p)
  with assms show ?thesis
    by (auto simp: with_packet_eq_Inr_iff bindR_eq_Inr_iff dest: set_local_addr_keeps_wf)
next
  case (Build p_packet hdl ver data len)
  with assms(2) have "with_packet_opt pl p_packet (\<lambda>q.
      bindR (mesh_packet_build pf q hdl ver data len) (\<lambda>(e, q'). Inr (RetCode e, q'))) =
      Inr (r, pl')"
    by simp
  from with_packet_opt_effect [OF this] assms(1) Build show ?thesis
    by (auto simp: bindR_eq_Inr_iff dest: build_keeps_wf)
next
  case (AdvDataSanitize p_packet)
  with assms(2) have "with_packet_opt pl p_packet (\<lambda>q.
      bindR (mesh_packet_adv_data_sanitize q) (\<lambda>(e, q'). Inr (RetCode e, q'))) = Inr (r, pl')"
    by simp
  from with_packet_opt_effect [OF this] AdvDataSanitize show ?thesis
    by (auto simp: bindR_eq_Inr_iff dest: sanitize_keeps_wf)
next
  case (AdvDataGet p_packet)
  with assms(2) show ?thesis by (auto simp: bindR_eq_Inr_iff)
next
  case (HandleGet p_packet)
  with assms(2) show ?thesis by (auto simp: bindR_eq_Inr_iff)
next
  case (HasAdditionalData p)
  with assms(2) show ?thesis by (auto simp: bindR_eq_Inr_iff)
next
  case (TakeOwnership p)
  with assms show ?thesis
    by (auto simp: with_packet_eq_Inr_iff bindR_eq_Inr_iff dest: take_ownership_keeps_wf)
qed

text \<open>The layout is fixed, and a packet operation leaves the reference counts alone.\<close>

lemma api_step_frame:
  assumes "platform_wf pf" and "api_step pf pl x = Inr (r, pl')"
  shows "pool_addr pl' = pool_addr pl"
    and "MESH_PACKET_POOL_SIZE pl' = MESH_PACKET_POOL_SIZE pl"
    and "length (g_packet_pool pl') = length (g_packet_pool pl)"
    and "(\<And>y. x \<noteq> Pool y) \<Longrightarrow> g_packet_refs pl' = g_packet_refs pl"
  using api_step_effect [OF assms]
  by (auto simp: MESH_PACKET_POOL_SIZE_def dest: pool_step_frame)

lemma api_step_refs:
  assumes "platform_wf pf" and "api_step pf pl x = Inr (r, pl')" and "op_packet x = Some p"
  shows "g_packet_refs pl' = g_packet_refs pl"
  using assms(3) by (intro api_step_frame(4) [OF assms(1,2)]) auto

text \<open>A call reads and writes no slot but the one its pointer names.\<close>

lemma packet_at_cong:
  "pool_addr pl' = pool_addr pl \<Longrightarrow> g_packet_pool pl' = g_packet_pool pl \<Longrightarrow>
   packet_at pl' q = packet_at pl q"
  by (simp add: packet_at_def packet_index_def packet_ptr_def)

lemma packet_at_other_slot:
  assumes "slot_ptr pl p i" and "q \<noteq> p"
  shows "packet_at (pl\<lparr>g_packet_pool := (g_packet_pool pl)[i := pkt]\<rparr>) q = packet_at pl q"
proof -
  let ?pl' = "pl\<lparr>g_packet_pool := (g_packet_pool pl)[i := pkt]\<rparr>"
  have eq: "packet_index ?pl' q = packet_index pl q" "\<And>j. packet_ptr ?pl' j = packet_ptr pl j"
    by (simp_all add: packet_index_def packet_ptr_def)
  show ?thesis
  proof (cases "packet_ptr pl (packet_index pl q) = q")
    case True
    with assms have "packet_index pl q \<noteq> i"
      by (auto simp: slot_ptr_def)
    with True show ?thesis
      by (simp add: packet_at_def eq Let_def rd_def)
  next
    case False
    then show ?thesis by (simp add: packet_at_def eq Let_def)
  qed
qed

lemma packet_at_updated:
  assumes "slot_ptr pl p i"
  shows "packet_at (pl\<lparr>g_packet_pool := (g_packet_pool pl)[i := pkt]\<rparr>) p = Inr pkt"
proof -
  let ?pl' = "pl\<lparr>g_packet_pool := (g_packet_pool pl)[i := pkt]\<rparr>"
  have "packet_index ?pl' p = packet_index pl p" "\<And>j. packet_ptr ?pl' j = packet_ptr pl j"
    by (simp_all add: packet_index_def packet_ptr_def)
  moreover from assms
  have "packet_index pl p = i" "packet_ptr pl i = p" "i < length (g_packet_pool pl)"
    by (auto simp: slot_ptr_def)
  ultimately show ?thesis by (simp add: packet_at_def rd_in)
qed

lemma api_step_other_slot:
  assumes "platform_wf pf" and "api_step pf pl x = Inr (r, pl')" and "op_packet x = Some p"
    and "q \<noteq> p"
  shows "packet_at pl' q = packet_at pl q"
  using api_step_effect [OF assms(1,2)] assms(3,4)
  by (auto simp: packet_at_other_slot)

lemma api_step_wf:
  assumes "platform_wf pf" and "pool_wf pl" and "api_step pf pl x = Inr (r, pl')"
  shows "pool_wf pl'"
  using api_step_effect [OF assms(1,3)]
proof (elim disjE exE conjE)
  fix y r'
  assume "pool_step pl y = Inr (r', pl')"
  from pool_step_wf [OF this] assms(2) show ?thesis by simp
next
  assume "pl' = pl"
  with assms(2) show ?thesis by simp
next
  fix p i pkt'
  assume i: "slot_ptr pl p i" and pl': "pl' = pl\<lparr>g_packet_pool := (g_packet_pool pl)[i := pkt']\<rparr>"
    and wf: "packet_wf (g_packet_pool pl ! i) \<longrightarrow> packet_wf pkt'"
  from i assms(2) have "i < MESH_PACKET_POOL_SIZE pl" "packet_wf (g_packet_pool pl ! i)"
    by (auto simp: slot_ptr_def pool_wf_def list_all_length)
  with wf assms(2) show ?thesis
    unfolding pl' by (blast intro: packet_store_wf)
qed

lemma api_run_frame_wf:
  assumes "platform_wf pf"
  shows "pool_wf pl \<Longrightarrow> api_run pf pl xs = Inr (rs, pl') \<Longrightarrow>
         pool_wf pl' \<and> pool_addr pl' = pool_addr pl \<and>
         MESH_PACKET_POOL_SIZE pl' = MESH_PACKET_POOL_SIZE pl \<and> length rs = length xs"
proof (induction xs arbitrary: pl rs)
  case Nil
  then show ?case by simp
next
  case (Cons x xs)
  from Cons.prems(2) obtain r pl1 rs' where
    s: "api_step pf pl x = Inr (r, pl1)" and t: "api_run pf pl1 xs = Inr (rs', pl')"
    and rs: "rs = r # rs'"
    by (auto simp: bindR_eq_Inr_iff)
  from api_step_wf [OF assms Cons.prems(1) s] have "pool_wf pl1" .
  from Cons.IH [OF this t] api_step_frame(1,2) [OF assms s] rs show ?case by simp
qed

section \<open>Calls on a slot\<close>

text \<open>
  A packet function called with the address of a slot, as a function of the packet
  in that slot. \<open>call_faults\<close> are the calls that read outside an array: the
  builder with a buffer shorter than the length it is given, and the two
  functions that walk the payload up to the header length when that length
  overruns. \<open>packet_call\<close> is the value every other call returns, with the
  packet it leaves in the slot.
\<close>

fun call_faults :: "api_op \<Rightarrow> mesh_packet_t \<Rightarrow> bool" where
  "call_faults (Build p_packet hdl ver data len) pkt \<longleftrightarrow>
     unat len \<le> RBC_MESH_VALUE_MAX_LEN \<and> \<not> data_fits data len"
| "call_faults (HasAdditionalData p) pkt \<longleftrightarrow> length_overruns pkt"
| "call_faults (TakeOwnership p) pkt \<longleftrightarrow> length_overruns pkt"
| "call_faults x pkt \<longleftrightarrow> False"

definition located :: "mesh_packet_t \<Rightarrow> bool" where
  "located pkt \<longleftrightarrow> mesh_adv_data_at (payload pkt) 0 \<and> unat (payload pkt ! 0) \<le> 30"

fun packet_call :: "platform \<Rightarrow> api_op \<Rightarrow> mesh_packet_t \<Rightarrow> api_ret \<times> mesh_packet_t" where
  "packet_call pf (SetLocalAddr p) pkt = (RetCode (local_addr_status pf), local_addr_stamp pf pkt)"
| "packet_call pf (Build p_packet hdl ver data len) pkt =
     (if RBC_MESH_VALUE_MAX_LEN < unat len then (RetCode NRF_ERROR_INVALID_LENGTH, pkt)
      else (RetCode NRF_SUCCESS, built_packet pf pkt hdl ver data len))"
| "packet_call pf (AdvDataSanitize p_packet) pkt =
     (if located pkt then (RetCode NRF_SUCCESS, sanitized pkt)
      else (RetCode NRF_ERROR_INVALID_DATA, pkt))"
| "packet_call pf (AdvDataGet p_packet) pkt =
     (RetAdvData (if located pkt then Some 0 else None), pkt)"
| "packet_call pf (HandleGet p_packet) pkt =
     (RetHandle (if located pkt then u16_of_bytes (payload pkt ! 4) (payload pkt ! 5)
                 else RBC_MESH_INVALID_HANDLE), pkt)"
| "packet_call pf (HasAdditionalData p) pkt =
     (Ret (RetBool (7 < uint (length_field (header pkt)) \<and> \<not> mesh_adv_data_at (payload pkt) 0)),
      pkt)"
| "packet_call pf (TakeOwnership p) pkt = (Ret RetVoid, local_addr_stamp pf pkt)"
| "packet_call pf (Pool x) pkt = (Ret RetVoid, pkt)"

text \<open>The packet a build leaves is located, within its length, and already sanitized.\<close>

lemma built_packet_reading:
  assumes "unat len \<le> RBC_MESH_VALUE_MAX_LEN"
  shows "located (built_packet pf p hdl ver data len)"
    and "\<not> length_overruns (built_packet pf p hdl ver data len)"
    and "sanitized (built_packet pf p hdl ver data len) = built_packet pf p hdl ver data len"
proof -
  from assms show "located (built_packet pf p hdl ver data len)"
    by (simp add: located_def built_adv_length mesh_consts)
  have "uint (length_field (header (built_packet pf p hdl ver data len))) = int (14 + unat len)"
    using assms by (rule built_header_length)
  moreover from assms have "int (14 + unat len) \<le> 38"
    unfolding RBC_MESH_VALUE_MAX_LEN_def by linarith
  ultimately have "uint (length_field (header (built_packet pf p hdl ver data len))) \<le> 38"
    by (simp only:)
  then show "\<not> length_overruns (built_packet pf p hdl ver data len)"
    by (rule length_overruns_legal)
  show "sanitized (built_packet pf p hdl ver data len) = built_packet pf p hdl ver data len"
    by (simp add: sanitized_def built_packet_def Let_def built_adv_length_byte mesh_consts)
qed

lemma with_packet_slot:
  assumes "pool_wf pl" and "i < MESH_PACKET_POOL_SIZE pl"
  shows "with_packet pl (packet_ptr pl i) f =
         bindR (f (g_packet_pool pl ! i)) (\<lambda>(r, pkt').
           Inr (r, pl\<lparr>g_packet_pool := (g_packet_pool pl)[i := pkt']\<rparr>))"
  by (simp add: with_packet_def packet_at_slot [OF assms] packet_store_slot [OF assms])

lemma pool_slot_unchanged [simp]:
  "pl\<lparr>g_packet_pool := (g_packet_pool pl)[i := g_packet_pool pl ! i]\<rparr> = pl"
  by simp

text \<open>Every call with the address of a slot is one of the two.\<close>

lemma api_step_slot:
  assumes pf: "platform_wf pf" and wf: "pool_wf pl" and i: "i < MESH_PACKET_POOL_SIZE pl"
    and x: "op_packet x = Some (packet_ptr pl i)"
  shows "api_step pf pl x =
         (if call_faults x (g_packet_pool pl ! i) then Inl OutOfBounds
          else Inr (fst (packet_call pf x (g_packet_pool pl ! i)),
                    pl\<lparr>g_packet_pool :=
                         (g_packet_pool pl)[i := snd (packet_call pf x (g_packet_pool pl ! i))]\<rparr>))"
proof -
  from wf i have pkt: "packet_wf (g_packet_pool pl ! i)"
    by (simp add: pool_wf_def list_all_length)
  note calls = with_packet_opt_def read_packet_opt_def with_packet_slot [OF wf i]
    packet_at_slot [OF wf i] set_local_addr_eq [OF pf pkt] mesh_packet_build_wf [OF pf pkt]
    sanitize_wf [OF pkt] adv_data_get_wf [OF pkt] handle_get_wf [OF pkt]
    has_additional_data_cases [OF pkt] take_ownership_cases [OF pf pkt] located_def
  from x show ?thesis
    by (cases x) (simp_all add: calls)
qed

section \<open>A pool of two packets with contents\<close>

text \<open>The pool of the examples with the packets of its two slots given.\<close>

definition two_packets :: "uint8_t list \<Rightarrow> mesh_packet_t \<Rightarrow> mesh_packet_t \<Rightarrow> mesh_pool" where
  "two_packets refs a b = \<lparr>pool_addr = 0x20000000, g_packet_pool = [a, b], g_packet_refs = refs\<rparr>"

lemma two_packets_simps [simp]:
  "pool_addr (two_packets refs a b) = 0x20000000"
  "g_packet_refs (two_packets refs a b) = refs"
  "g_packet_pool (two_packets refs a b) = [a, b]"
  "MESH_PACKET_POOL_SIZE (two_packets [r0, r1] a b) = 2"
  "two_packets refs a b\<lparr>g_packet_refs := refs'\<rparr> = two_packets refs' a b"
  "two_packets refs a b\<lparr>g_packet_pool := [a', b']\<rparr> = two_packets refs a' b'"
  by (simp_all add: two_packets_def MESH_PACKET_POOL_SIZE_def)

lemma two_pool_eq_two_packets: "two_pool refs = two_packets refs blank_packet blank_packet"
  by (simp add: two_pool_def two_packets_def boot_pool_def numeral_2_eq_2)

lemma two_packets_wf [simp]:
  "packet_wf a \<Longrightarrow> packet_wf b \<Longrightarrow> pool_wf (two_packets [r0, r1] a b)"
  by (simp add: two_packets_def pool_wf_def MESH_PACKET_POOL_SIZE_def sizeof_mesh_packet_t_eq)

lemma two_packets_ptr [simp]:
  "packet_ptr (two_packets refs a b) 0 = 0x20000000"
  "packet_ptr (two_packets refs a b) (Suc 0) = 0x20000028"
  "packet_index (two_packets refs a b) 0x20000000 = 0"
  "packet_index (two_packets refs a b) 0x20000028 = Suc 0"
  by (simp_all add: packet_ptr_def packet_index_alt sizeof_mesh_packet_t_eq)

lemma two_packets_init [simp]:
  "mesh_packet_init (two_packets [r0, r1] a b) = two_packets [0, 0] a b"
  by (simp add: mesh_packet_init_def MESH_PACKET_POOL_SIZE_def upt_rec two_packets_def)

lemma two_packets_acquire [simp]:
  "mesh_packet_acquire (two_packets [0, r1] a b) = (Some 0x20000000, two_packets [1, r1] a b)"
  "r0 \<noteq> 0 \<Longrightarrow>
   mesh_packet_acquire (two_packets [r0, 0] a b) = (Some 0x20000028, two_packets [r0, 1] a b)"
  "r0 \<noteq> 0 \<Longrightarrow> r1 \<noteq> 0 \<Longrightarrow>
   mesh_packet_acquire (two_packets [r0, r1] a b) = (None, two_packets [r0, r1] a b)"
  by (simp_all add: mesh_packet_acquire_def acquire_scan_eq_first_free first_free_def)

lemma two_packets_ref_count [simp]:
  "r0 \<noteq> 255 \<Longrightarrow> mesh_packet_ref_count_inc (two_packets [r0, r1] a b) 0x20000000 =
     Inr (True, two_packets [r0 + 1, r1] a b)"
  "r1 \<noteq> 255 \<Longrightarrow> mesh_packet_ref_count_inc (two_packets [r0, r1] a b) 0x20000028 =
     Inr (True, two_packets [r0, r1 + 1] a b)"
  "r0 \<noteq> 0 \<Longrightarrow> mesh_packet_ref_count_dec (two_packets [r0, r1] a b) 0x20000000 =
     Inr (True, two_packets [r0 - 1, r1] a b)"
  "r1 \<noteq> 0 \<Longrightarrow> mesh_packet_ref_count_dec (two_packets [r0, r1] a b) 0x20000028 =
     Inr (True, two_packets [r0, r1 - 1] a b)"
  by (simp_all add: mesh_packet_ref_count_inc_def mesh_packet_ref_count_dec_def rd_in Let_def
      u8_plus_one_eq_0_iff)

lemma two_packets_at [simp]:
  "packet_at (two_packets refs a b) 0x20000000 = Inr a"
  "packet_at (two_packets refs a b) 0x20000028 = Inr b"
  "packet_store (two_packets refs a b) 0x20000000 c = Inr (two_packets refs c b)"
  "packet_store (two_packets refs a b) 0x20000028 c = Inr (two_packets refs a c)"
  by (simp_all add: packet_at_def packet_store_def rd_in wr_in Let_def)

end
