(* ===== verification/Valid_Packets.thy ===== *)
theory Valid_Packets
  imports Packet_Api
begin

text \<open>
  The packets the layer is there to produce. \<^verbatim>\<open>mesh_packet_build\<close> leaves a packet
  that holds the mesh structure and nothing else: type \<^verbatim>\<open>ADV_NONCONN_IND\<close>, the
  structure at the start of the payload with a length byte between 7 and 30, and
  a header length that counts the address and exactly that structure. This theory
  names such packets \<open>mesh_valid\<close> and shows that validity is an invariant of the
  interface: the builder establishes it, and no function of the file, called on any
  slot with any argument, takes it away from a packet that has it. The proof goes
  through an interface of its own: \<open>kept_by_calls pf P\<close> says that the four
  functions that write a packet keep the predicate \<open>P\<close>, and the lemmas on steps
  and runs are stated for every such predicate.
\<close>

section \<open>Valid mesh packets\<close>

definition mesh_valid :: "mesh_packet_t \<Rightarrow> bool" where
  "mesh_valid p \<longleftrightarrow>
     packet_wf p \<and>
     type_field (header p) = BLE_PACKET_TYPE_ADV_NONCONN_IND \<and>
     mesh_adv_data_at (payload p) 0 \<and>
     MESH_PACKET_ADV_OVERHEAD \<le> unat (payload p ! 0) \<and>
     unat (payload p ! 0) \<le> MESH_PACKET_ADV_OVERHEAD + RBC_MESH_VALUE_MAX_LEN \<and>
     unat (length_field (header p)) = BLE_GAP_ADDR_LEN + 1 + unat (payload p ! 0)"

text \<open>The same with the constants evaluated.\<close>

lemma mesh_valid_iff:
  "mesh_valid p \<longleftrightarrow>
     packet_wf p \<and> type_field (header p) = BLE_PACKET_TYPE_ADV_NONCONN_IND \<and>
     mesh_adv_data_at (payload p) 0 \<and>
     7 \<le> unat (payload p ! 0) \<and> unat (payload p ! 0) \<le> 30 \<and>
     unat (length_field (header p)) = 7 + unat (payload p ! 0)"
proof -
  have "MESH_PACKET_ADV_OVERHEAD = 7" "MESH_PACKET_ADV_OVERHEAD + RBC_MESH_VALUE_MAX_LEN = 30"
    "BLE_GAP_ADDR_LEN + 1 + unat (payload p ! 0) = 7 + unat (payload p ! 0)"
    by (simp_all add: mesh_consts)
  then show ?thesis by (simp only: mesh_valid_def)
qed

lemma mesh_validD:
  assumes "mesh_valid p"
  shows "packet_wf p" and "mesh_adv_data_at (payload p) 0"
    and "7 \<le> unat (payload p ! 0)" and "unat (payload p ! 0) \<le> 30"
    and "unat (length_field (header p)) = 7 + unat (payload p ! 0)"
  using assms unfolding mesh_valid_iff by blast+

text \<open>The header length is one a packet can have, and as a byte the sum does not wrap.\<close>

lemma mesh_valid_legal:
  assumes "mesh_valid p"
  shows "uint (length_field (header p)) \<le> 38" and "7 < uint (length_field (header p))"
    and "uint (length_field (header p)) - 7 = int (unat (payload p ! 0))"
proof -
  have "uint (length_field (header p)) = int (unat (length_field (header p)))"
    by (rule uint_nat)
  with mesh_validD(3,4,5) [OF assms]
  show "uint (length_field (header p)) \<le> 38" and "7 < uint (length_field (header p))"
    and "uint (length_field (header p)) - 7 = int (unat (payload p ! 0))"
    by linarith+
qed

lemma mesh_valid_length_byte:
  assumes "mesh_valid p"
  shows "length_field (header p) = 7 + payload p ! 0"
proof -
  have "unat (7 + payload p ! 0) = (7 + unat (payload p ! 0)) mod 256"
    by (simp add: unat_word_ariths)
  with mesh_validD(4) [OF assms] have "unat (7 + payload p ! 0) = 7 + unat (payload p ! 0)"
    by simp
  with mesh_validD(5) [OF assms] show ?thesis by (simp only: word_unat_eq_iff)
qed

section \<open>What the functions answer on a valid packet\<close>

lemma mesh_valid_sanitized: "mesh_valid p \<Longrightarrow> sanitized p = p"
  by (simp add: sanitized_def mesh_valid_length_byte [symmetric])

lemma mesh_valid_reads:
  assumes "mesh_valid p"
  shows "mesh_packet_adv_data_get (Some p) = Inr (Some 0)"
    and "mesh_packet_handle_get (Some p) = handle (payload p) 0"
    and "mesh_packet_has_additional_data p = Inr False"
    and "mesh_packet_adv_data_sanitize (Some p) = Inr (NRF_SUCCESS, Some p)"
proof -
  note v = mesh_validD [OF assms]
  from v(2,4) show "mesh_packet_adv_data_get (Some p) = Inr (Some 0)"
    by (simp add: adv_data_get_wf [OF v(1)])
  from v(2,4) packet_wf_lengths(2) [OF v(1)]
  show "mesh_packet_handle_get (Some p) = handle (payload p) 0"
    by (simp add: handle_get_wf [OF v(1)] handle_def rd16_in)
  from v(2) show "mesh_packet_has_additional_data p = Inr False"
    by (simp add: has_additional_data_upto_38 [OF v(1) mesh_valid_legal(1) [OF assms]])
  from v(2,4) show "mesh_packet_adv_data_sanitize (Some p) = Inr (NRF_SUCCESS, Some p)"
    by (simp add: sanitize_wf [OF v(1)] mesh_valid_sanitized [OF assms])
qed

text \<open>The chain of a valid packet is the mesh structure alone.\<close>

lemma mesh_valid_chain:
  assumes "mesh_valid p"
  shows "chain_find (payload p) 0 = Some 0"
    and "\<not> chain_has_foreign (payload p) (uint (length_field (header p)) - 7) 0"
proof -
  note v = mesh_validD [OF assms]
  note l = packet_wf_lengths(2) [OF v(1)]
  from v(2,4) l show "chain_find (payload p) 0 = Some 0"
    by (simp add: chain_find_first)
  have "uint (length_field (header p)) - 7 \<le> int (0 + 1 + unat (payload p ! 0))"
    unfolding mesh_valid_legal(3) [OF assms] by simp
  then have "\<not> chain_has_foreign (payload p) (uint (length_field (header p)) - 7)
                  (0 + 1 + unat (payload p ! 0))"
    by (rule chain_has_foreign_done)
  with v(2) show "\<not> chain_has_foreign (payload p) (uint (length_field (header p)) - 7) 0"
    by (simp add: chain_has_foreign.simps [of "payload p" _ 0])
qed

section \<open>The builder establishes validity, the other functions keep it\<close>

lemma built_packet_valid:
  assumes "platform_wf pf" and "packet_wf p" and "unat len \<le> RBC_MESH_VALUE_MAX_LEN"
    and "data_fits data len"
  shows "mesh_valid (built_packet pf p hdl ver data len)"
proof -
  let ?b = "built_packet pf p hdl ver data len"
  have "int (unat (length_field (header ?b))) = int (14 + unat len)"
    using built_header_length [OF assms(3), of pf p hdl ver data] by (simp only: uint_nat)
  then have "unat (length_field (header ?b)) = 14 + unat len"
    by (simp only: of_nat_eq_iff)
  moreover note n = built_adv_length [OF assms(3), of "payload p" hdl ver data]
  moreover from assms(3) have "unat len \<le> 23" by (simp add: mesh_consts)
  ultimately have "7 \<le> unat (payload ?b ! 0)" "unat (payload ?b ! 0) \<le> 30"
    "unat (length_field (header ?b)) = 7 + unat (payload ?b ! 0)"
    by simp_all
  with built_packet_wf [OF assms] show ?thesis
    unfolding mesh_valid_iff by simp
qed

lemma build_makes_valid:
  assumes "platform_wf pf" and "packet_wf p"
    and "mesh_packet_build pf (Some p) hdl ver data len = Inr (NRF_SUCCESS, q)"
  shows "\<exists>p'. q = Some p' \<and> mesh_valid p'"
proof (cases q)
  case None
  with assms(3) show ?thesis
    by (simp add: mesh_packet_build_wf [OF assms(1,2)] split: if_splits)
next
  case (Some p')
  from mesh_packet_build_success [OF assms(1,2) assms(3) [unfolded Some]] assms(1,2) Some
  show ?thesis by (simp add: built_packet_valid)
qed

lemma stamp_keeps_valid:
  assumes "platform_wf pf" and "mesh_valid p"
  shows "mesh_valid (local_addr_stamp pf p)"
  using assms(2) local_addr_stamp_wf [OF assms(1), of p]
  unfolding mesh_valid_iff by simp

section \<open>Predicates the packet functions keep\<close>

text \<open>
  \<open>kept_by_calls pf P\<close>: each of the four functions that write to a packet leaves a
  packet with \<open>P\<close> when it was given one, whatever its other arguments and
  whatever status it returns.
\<close>

definition kept_by_calls :: "platform \<Rightarrow> (mesh_packet_t \<Rightarrow> bool) \<Rightarrow> bool" where
  "kept_by_calls pf P \<longleftrightarrow>
     (\<forall>p e q. P p \<longrightarrow> mesh_packet_set_local_addr pf p = Inr (e, q) \<longrightarrow> P q) \<and>
     (\<forall>p hdl ver data len e q.
        P p \<longrightarrow> mesh_packet_build pf (Some p) hdl ver data len = Inr (e, Some q) \<longrightarrow> P q) \<and>
     (\<forall>p e q. P p \<longrightarrow> mesh_packet_adv_data_sanitize (Some p) = Inr (e, Some q) \<longrightarrow> P q) \<and>
     (\<forall>p q. P p \<longrightarrow> mesh_packet_take_ownership pf p = Inr q \<longrightarrow> P q)"

lemma kept_by_callsD:
  assumes "kept_by_calls pf P" and "P p"
  shows "mesh_packet_set_local_addr pf p = Inr (e, q) \<Longrightarrow> P q"
    and "mesh_packet_build pf (Some p) hdl ver data len = Inr (e, Some q) \<Longrightarrow> P q"
    and "mesh_packet_adv_data_sanitize (Some p) = Inr (e, Some q) \<Longrightarrow> P q"
    and "mesh_packet_take_ownership pf p = Inr q \<Longrightarrow> P q"
  using assms unfolding kept_by_calls_def by blast+

text \<open>The two instances: the sizes of the arrays, and validity.\<close>

lemma packet_wf_kept: "platform_wf pf \<Longrightarrow> kept_by_calls pf packet_wf"
  unfolding kept_by_calls_def
  by (blast dest: set_local_addr_keeps_wf build_keeps_wf sanitize_keeps_wf
      take_ownership_keeps_wf)

lemma mesh_valid_kept:
  assumes "platform_wf pf"
  shows "kept_by_calls pf mesh_valid"
  unfolding kept_by_calls_def
proof (intro conjI allI impI)
  fix p e q
  assume "mesh_valid p" and "mesh_packet_set_local_addr pf p = Inr (e, q)"
  then show "mesh_valid q"
    using stamp_keeps_valid [OF assms, of p]
    by (simp add: set_local_addr_eq [OF assms mesh_validD(1)])
next
  fix p hdl ver data len e q
  assume v: "mesh_valid p"
    and b: "mesh_packet_build pf (Some p) hdl ver data len = Inr (e, Some q)"
  show "mesh_valid q"
  proof (cases "e = NRF_SUCCESS")
    case True
    with build_makes_valid [OF assms mesh_validD(1) [OF v], of hdl ver data len "Some q"] b
    show ?thesis by simp
  next
    case False
    with b v show ?thesis
      by (auto simp: mesh_packet_build_wf [OF assms mesh_validD(1)] split: if_splits)
  qed
next
  fix p e q
  assume "mesh_valid p" and "mesh_packet_adv_data_sanitize (Some p) = Inr (e, Some q)"
  then show "mesh_valid q" by (simp add: mesh_valid_reads(4))
next
  fix p q
  assume "mesh_valid p" and "mesh_packet_take_ownership pf p = Inr q"
  then show "mesh_valid q"
    using stamp_keeps_valid [OF assms, of p]
    by (simp add: take_ownership_wf [OF assms mesh_validD(1) mesh_valid_legal(1)])
qed

section \<open>Steps and runs of the interface\<close>

text \<open>A call through a pointer rewrites one slot, with what the function returns.\<close>

lemma with_packet_keeps:
  assumes "with_packet pl p f = Inr (r, pl')"
    and "\<And>pkt r q. P pkt \<Longrightarrow> f pkt = Inr (r, q) \<Longrightarrow> P q"
    and "j < length (g_packet_pool pl)" and "P (g_packet_pool pl ! j)"
  shows "P (g_packet_pool pl' ! j)"
proof -
  from assms(1) obtain i pkt' where f: "f (g_packet_pool pl ! i) = Inr (r, pkt')"
    and pl': "pl' = pl\<lparr>g_packet_pool := (g_packet_pool pl)[i := pkt']\<rparr>"
    by (auto simp: with_packet_eq_Inr_iff)
  show ?thesis
  proof (cases "j = i")
    case True
    with assms(2) [OF _ f] assms(3,4) show ?thesis by (simp add: pl')
  next
    case False
    with assms(4) show ?thesis by (simp add: pl')
  qed
qed

lemma with_packet_opt_keeps:
  assumes "with_packet_opt pl p_packet f = Inr (r, pl')"
    and "\<And>pkt r q. P pkt \<Longrightarrow> f (Some pkt) = Inr (r, Some q) \<Longrightarrow> P q"
    and "j < length (g_packet_pool pl)" and "P (g_packet_pool pl ! j)"
  shows "P (g_packet_pool pl' ! j)"
proof (cases p_packet)
  case None
  with assms(1,4) show ?thesis by (auto simp: with_packet_opt_def bindR_eq_Inr_iff)
next
  case (Some p)
  let ?g = "\<lambda>pkt. bindR (f (Some pkt)) (\<lambda>(r, q).
      Inr (r, case q of Some pkt' \<Rightarrow> pkt' | None \<Rightarrow> pkt))"
  from Some assms(1) have "with_packet pl p ?g = Inr (r, pl')"
    by (simp add: with_packet_opt_def)
  moreover have "P q" if "P pkt" and "?g pkt = Inr (r, q)" for pkt r q
    using that assms(2) [OF that(1)]
    by (auto simp: bindR_eq_Inr_iff split: option.splits)
  ultimately show ?thesis using assms(3,4) by (rule with_packet_keeps)
qed

lemma api_step_keeps:
  assumes keep: "kept_by_calls pf P" and step: "api_step pf pl x = Inr (r, pl')"
    and j: "j < length (g_packet_pool pl)" and P: "P (g_packet_pool pl ! j)"
  shows "P (g_packet_pool pl' ! j)"
proof (cases x)
  case (Pool y)
  with step P show ?thesis by (auto simp: bindR_eq_Inr_iff dest: pool_step_frame(2))
next
  case (SetLocalAddr p)
  from step [unfolded SetLocalAddr api_step.simps] show ?thesis
    by (rule with_packet_keeps [where P = P and j = j, OF _ _ j P])
       (auto simp: bindR_eq_Inr_iff dest: kept_by_callsD(1) [OF keep])
next
  case (Build p_packet hdl ver data len)
  from step [unfolded Build api_step.simps] show ?thesis
    by (rule with_packet_opt_keeps [where P = P and j = j, OF _ _ j P])
       (auto simp: bindR_eq_Inr_iff dest: kept_by_callsD(2) [OF keep])
next
  case (AdvDataSanitize p_packet)
  from step [unfolded AdvDataSanitize api_step.simps] show ?thesis
    by (rule with_packet_opt_keeps [where P = P and j = j, OF _ _ j P])
       (auto simp: bindR_eq_Inr_iff dest: kept_by_callsD(3) [OF keep])
next
  case (TakeOwnership p)
  from step [unfolded TakeOwnership api_step.simps] show ?thesis
    by (rule with_packet_keeps [where P = P and j = j, OF _ _ j P])
       (auto simp: bindR_eq_Inr_iff dest: kept_by_callsD(4) [OF keep])
qed (use step P in \<open>auto simp: bindR_eq_Inr_iff\<close>)

lemma api_run_keeps:
  assumes "platform_wf pf" and "kept_by_calls pf P"
  shows "api_run pf pl xs = Inr (rs, pl') \<Longrightarrow> j < length (g_packet_pool pl) \<Longrightarrow>
         P (g_packet_pool pl ! j) \<Longrightarrow> P (g_packet_pool pl' ! j)"
proof (induction xs arbitrary: pl rs)
  case Nil
  then show ?case by simp
next
  case (Cons x xs)
  from Cons.prems(1) obtain r pl1 rs' where
    s: "api_step pf pl x = Inr (r, pl1)" and t: "api_run pf pl1 xs = Inr (rs', pl')"
    by (auto simp: bindR_eq_Inr_iff)
  from api_step_frame(3) [OF assms(1) s] Cons.prems(2)
  have "j < length (g_packet_pool pl1)" by simp
  with t show ?case
    by (rule Cons.IH) (rule api_step_keeps [OF assms(2) s Cons.prems(2,3)])
qed

text \<open>A successful build through a pointer leaves a valid packet in the slot it names.\<close>

lemma api_build_valid:
  assumes pf: "platform_wf pf" and wf: "pool_wf pl"
    and step: "api_step pf pl (Build (Some p) hdl ver data len) = Inr (RetCode NRF_SUCCESS, pl')"
  shows "\<exists>i < MESH_PACKET_POOL_SIZE pl. p = packet_ptr pl i \<and> mesh_valid (g_packet_pool pl' ! i)"
proof -
  from step obtain i q where i: "slot_ptr pl p i"
    and b: "mesh_packet_build pf (Some (g_packet_pool pl ! i)) hdl ver data len =
              Inr (NRF_SUCCESS, q)"
    and pl': "pl' = pl\<lparr>g_packet_pool := (g_packet_pool pl)
                [i := case q of Some pkt' \<Rightarrow> pkt' | None \<Rightarrow> g_packet_pool pl ! i]\<rparr>"
    by (auto simp: with_packet_opt_def with_packet_eq_Inr_iff bindR_eq_Inr_iff)
  from i wf have less: "i < MESH_PACKET_POOL_SIZE pl" and ptr: "p = packet_ptr pl i"
    and "packet_wf (g_packet_pool pl ! i)"
    by (auto simp: slot_ptr_def pool_wf_def list_all_length)
  from build_makes_valid [OF pf this(3) b] obtain p' where "q = Some p'" "mesh_valid p'"
    by blast
  with less wf have "mesh_valid (g_packet_pool pl' ! i)"
    by (simp add: pl' pool_wf_def)
  with less ptr show ?thesis by blast
qed

section \<open>Validity is an invariant of the interface\<close>

text \<open>
  C23. Every sequence of calls of the interface that returns leaves a well-formed
  pool of the same size at the same address in which every packet that was a valid
  mesh packet still is one, whatever pointers, handles, data and lengths the calls
  were given and whatever they returned; and a \<^verbatim>\<open>mesh_packet_build\<close> that then
  returns \<^verbatim>\<open>NRF_SUCCESS\<close> leaves a valid mesh packet in the slot it was given.
  A valid mesh packet has type \<^verbatim>\<open>ADV_NONCONN_IND\<close>, the mesh structure at the start
  of its payload with a length byte from 7 to 30, and a header length of 7 plus that
  byte.
\<close>

theorem api_run_keeps_mesh_packets:
  assumes "platform_wf pf" and "pool_wf pl" and "api_run pf pl xs = Inr (rs, pl')"
  shows "pool_wf pl' \<and> pool_addr pl' = pool_addr pl \<and>
         MESH_PACKET_POOL_SIZE pl' = MESH_PACKET_POOL_SIZE pl \<and>
         (\<forall>i < MESH_PACKET_POOL_SIZE pl.
            mesh_valid (g_packet_pool pl ! i) \<longrightarrow> mesh_valid (g_packet_pool pl' ! i)) \<and>
         (\<forall>p hdl ver data len pl''.
            api_step pf pl' (Build (Some p) hdl ver data len) = Inr (RetCode NRF_SUCCESS, pl'') \<longrightarrow>
            (\<exists>i < MESH_PACKET_POOL_SIZE pl.
               p = packet_ptr pl i \<and> mesh_valid (g_packet_pool pl'' ! i)))"
proof -
  note frame = api_run_frame_wf [OF assms]
  have "mesh_valid (g_packet_pool pl' ! i)"
    if "i < MESH_PACKET_POOL_SIZE pl" and "mesh_valid (g_packet_pool pl ! i)" for i
    using assms(1) mesh_valid_kept [OF assms(1)] assms(3) _ that(2)
    by (rule api_run_keeps) (use that(1) assms(2) in \<open>simp add: pool_wf_def\<close>)
  moreover have "\<exists>i < MESH_PACKET_POOL_SIZE pl. p = packet_ptr pl i \<and> mesh_valid (g_packet_pool pl'' ! i)"
    if "api_step pf pl' (Build (Some p) hdl ver data len) = Inr (RetCode NRF_SUCCESS, pl'')"
    for p hdl ver data len pl''
    using api_build_valid [OF assms(1) _ that] frame by (simp add: packet_ptr_def)
  ultimately show ?thesis using frame by blast
qed

section \<open>Witnesses\<close>

text \<open>
  The first slot of the pool of two packets holds a built packet. Its ownership is
  transferred, it is sanitized, a build with 24 data bytes is refused and its
  reference is released: the slot holds the packet it held.
\<close>

theorem api_run_keeps_mesh_packets_witness:
  "mesh_valid (built_packet ficr_platform blank_packet 0x1234 7 (Some [0xAA, 0xBB, 0xCC]) 3) \<and>
   (\<exists>pl'. api_run ficr_platform
      (two_packets [1, 0]
         (built_packet ficr_platform blank_packet 0x1234 7 (Some [0xAA, 0xBB, 0xCC]) 3) rx_packet)
      [TakeOwnership 0x20000000, AdvDataSanitize (Some 0x20000000),
       Build (Some 0x20000000) 0x4321 1 None 24, Pool (RefCountDec 0x20000000)] =
    Inr ([Ret RetVoid, RetCode NRF_SUCCESS, RetCode NRF_ERROR_INVALID_LENGTH, Ret (RetBool True)],
         pl') \<and>
    g_packet_refs pl' = [0, 0] \<and> mesh_valid (g_packet_pool pl' ! 0))"
proof -
  let ?b = "built_packet ficr_platform blank_packet 0x1234 7 (Some [0xAA, 0xBB, 0xCC]) 3"
  let ?s = "local_addr_stamp ficr_platform ?b"
  have v: "mesh_valid ?b"
    by (intro built_packet_valid) (simp_all add: data_fits_def mesh_consts)
  then have s: "mesh_valid ?s" by (intro stamp_keeps_valid) simp
  have run: "api_run ficr_platform (two_packets [1, 0] ?b rx_packet)
      [TakeOwnership 0x20000000, AdvDataSanitize (Some 0x20000000),
       Build (Some 0x20000000) 0x4321 1 None 24, Pool (RefCountDec 0x20000000)] =
    Inr ([Ret RetVoid, RetCode NRF_SUCCESS, RetCode NRF_ERROR_INVALID_LENGTH, Ret (RetBool True)],
         two_packets [0, 0] ?s rx_packet)"
    by (simp add: with_packet_def with_packet_opt_def
        take_ownership_wf [OF ficr_platform_wf mesh_validD(1) [OF v] mesh_valid_legal(1) [OF v]]
        mesh_valid_reads(4) [OF s] mesh_packet_build_too_long mesh_consts)
  from api_run_keeps_mesh_packets [OF ficr_platform_wf _ run] mesh_validD(1) [OF v]
  have "\<forall>i<2. mesh_valid ([?b, rx_packet] ! i) \<longrightarrow> mesh_valid ([?s, rx_packet] ! i)"
    by simp
  from this [rule_format, of 0] v have "mesh_valid ?s" by simp
  with v run show ?thesis by (intro conjI exI [of _ "two_packets [0, 0] ?s rx_packet"]) simp_all
qed

end
