(* ===== verification/Independence.thy ===== *)
theory Independence
  imports Packet_Api
begin

text \<open>
  Which calls of the interface can be exchanged. The functions of the pool read and
  write the reference counts and never a packet; a packet function reads and writes
  the packet behind its pointer and nothing else. Two calls that are next to each
  other in a run, one of them on the pool and the other on a packet, or both on
  packets in different slots, therefore return the same values and leave the same
  pool in either order.
\<close>

section \<open>Independent calls\<close>

fun is_pool :: "api_op \<Rightarrow> bool" where
  "is_pool (Pool x) = True"
| "is_pool x = False"

text \<open>
  Two calls are independent when they are not both calls of the pool and do not name
  the same packet.
\<close>

definition independent :: "api_op \<Rightarrow> api_op \<Rightarrow> bool" where
  "independent x y \<longleftrightarrow>
     \<not> (is_pool x \<and> is_pool y) \<and> (op_packet x = None \<or> op_packet x \<noteq> op_packet y)"

text \<open>The run with the calls at positions \<open>n\<close> and \<open>n + 1\<close> exchanged.\<close>

fun swap_at :: "nat \<Rightarrow> 'a list \<Rightarrow> 'a list" where
  "swap_at 0 (x # y # xs) = y # x # xs"
| "swap_at (Suc n) (x # xs) = x # swap_at n xs"
| "swap_at n xs = xs"

lemma independent_sym: "independent x y \<Longrightarrow> independent y x"
  by (auto simp: independent_def)

lemma is_pool_iff: "is_pool x \<longleftrightarrow> (\<exists>u. x = Pool u)"
  by (cases x) simp_all

section \<open>What a call does not read\<close>

text \<open>A call of the pool does not read the packets.\<close>

lemma pool_step_packets:
  "pool_step (pl\<lparr>g_packet_pool := ps\<rparr>) u =
   bindR (pool_step pl u) (\<lambda>(r, pl'). Inr (r, pl'\<lparr>g_packet_pool := ps\<rparr>))"
  by (cases u)
    (auto simp: mesh_packet_init_def mesh_packet_on_ts_begin_def mesh_packet_acquire_def
      mesh_packet_ref_count_inc_def mesh_packet_ref_count_dec_def MESH_PACKET_POOL_SIZE_def
      packet_index_def packet_ptr_def Let_def bindR_def APP_ERROR_CHECK_def
      split: option.splits sum.splits)

lemma api_pool_step_packets:
  "is_pool x \<Longrightarrow>
   api_step pf (pl\<lparr>g_packet_pool := ps\<rparr>) x =
   bindR (api_step pf pl x) (\<lambda>(r, pl'). Inr (r, pl'\<lparr>g_packet_pool := ps\<rparr>))"
  by (auto simp: is_pool_iff pool_step_packets bindR_def split: sum.splits)

text \<open>A packet function does not read the reference counts.\<close>

lemma with_packet_refs:
  "with_packet (pl\<lparr>g_packet_refs := rs\<rparr>) p f =
   bindR (with_packet pl p f) (\<lambda>(r, pl'). Inr (r, pl'\<lparr>g_packet_refs := rs\<rparr>))"
  by (auto simp: with_packet_def packet_at_def packet_store_def Let_def bindR_def
      packet_index_def packet_ptr_def split: sum.splits)

lemma packet_at_refs [simp]: "packet_at (pl\<lparr>g_packet_refs := rs\<rparr>) p = packet_at pl p"
  by (simp add: packet_at_def Let_def)

lemma api_step_refs_update:
  "\<not> is_pool x \<Longrightarrow>
   api_step pf (pl\<lparr>g_packet_refs := rs\<rparr>) x =
   bindR (api_step pf pl x) (\<lambda>(r, pl'). Inr (r, pl'\<lparr>g_packet_refs := rs\<rparr>))"
  by (cases x)
    (auto simp: with_packet_refs with_packet_opt_def read_packet_opt_def bindR_def
      split: option.splits sum.splits)

text \<open>A packet function called with \<^verbatim>\<open>NULL\<close> reads nothing.\<close>

lemma api_step_null:
  "\<not> is_pool x \<Longrightarrow> op_packet x = None \<Longrightarrow>
   api_step pf pl' x = bindR (api_step pf pl x) (\<lambda>(r, _). Inr (r, pl'))"
  by (cases x)
    (auto simp: with_packet_opt_def read_packet_opt_def bindR_def split: sum.splits)

text \<open>A packet function does not read the other slots.\<close>

lemma api_step_other_update:
  assumes pf: "platform_wf pf" and wf: "pool_wf pl"
    and i: "i < MESH_PACKET_POOL_SIZE pl" and j: "j < MESH_PACKET_POOL_SIZE pl" and "i \<noteq> j"
    and b: "packet_wf b" and x: "op_packet x = Some (packet_ptr pl i)"
  shows "api_step pf (pl\<lparr>g_packet_pool := (g_packet_pool pl)[j := b]\<rparr>) x =
         bindR (api_step pf pl x) (\<lambda>(r, pl').
           Inr (r, pl'\<lparr>g_packet_pool := (g_packet_pool pl')[j := b]\<rparr>))"
proof -
  let ?pl = "pl\<lparr>g_packet_pool := (g_packet_pool pl)[j := b]\<rparr>"
  from wf j b have "pool_wf ?pl" by (rule packet_store_wf)
  moreover from i have "i < MESH_PACKET_POOL_SIZE ?pl" by (simp add: MESH_PACKET_POOL_SIZE_def)
  moreover from x have "op_packet x = Some (packet_ptr ?pl i)" by (simp add: packet_ptr_def)
  ultimately show ?thesis
    using \<open>i \<noteq> j\<close>
    by (simp add: api_step_slot [OF pf] api_step_slot [OF pf wf i x] list_update_swap)
qed

text \<open>A packet function that returns was called with the address of a slot.\<close>

lemma api_step_returns_slot:
  assumes "pool_wf pl" and "op_packet x = Some p" and "api_step pf pl x = Inr (r, pl')"
  obtains i where "i < MESH_PACKET_POOL_SIZE pl" and "p = packet_ptr pl i"
proof -
  from assms(2,3) have "\<exists>i. slot_ptr pl p i"
    by (cases x)
      (auto simp: with_packet_opt_def read_packet_opt_def with_packet_eq_Inr_iff
        packet_at_eq_Inr_iff bindR_eq_Inr_iff)
  with assms(1) that show thesis
    by (auto simp: slot_ptr_def pool_wf_def)
qed

section \<open>Exchanging two steps\<close>

text \<open>
  Two steps can be exchanged when neither reads what the other writes: the second
  does not see the update \<open>U\<close> of the first, and the first does not see the update
  \<open>W\<close> of the second.
\<close>

lemma frames_commute:
  fixes f :: "'s \<Rightarrow> ('a \<times> 's) result" and g :: "'s \<Rightarrow> ('b \<times> 's) result"
  assumes f: "f t = Inr (r, U t)" and g: "g (U t) = Inr (s, t2)"
    and gU: "g (U t) = bindR (g t) (\<lambda>(s, t'). Inr (s, U t'))"
    and fW: "\<And>t1. g t = Inr (s, t1) \<Longrightarrow>
               \<exists>W. f t1 = bindR (f t) (\<lambda>(r, t'). Inr (r, W t')) \<and> W (U t) = U t1"
  shows "\<exists>t1. g t = Inr (s, t1) \<and> f t1 = Inr (r, t2)"
proof -
  from g gU obtain t1 where t1: "g t = Inr (s, t1)" and t2: "t2 = U t1"
    by (auto simp: bindR_eq_Inr_iff)
  from fW [OF t1] f have "f t1 = Inr (r, U t1)" by auto
  with t1 t2 show ?thesis by simp
qed

text \<open>What a call that returns has written: the counts, or the packets.\<close>

lemma pool_call_writes:
  assumes "is_pool x" and "api_step pf pl x = Inr (r, pl')"
  shows "pl' = pl\<lparr>g_packet_refs := g_packet_refs pl'\<rparr>"
proof -
  from assms obtain u a where "pool_step pl u = Inr (a, pl')"
    by (auto simp: is_pool_iff bindR_eq_Inr_iff)
  from pool_step_frame(1,2) [OF this] show ?thesis
    by (intro mesh_pool.equality) simp_all
qed

lemma packet_call_writes:
  assumes "platform_wf pf" and "\<not> is_pool x" and "api_step pf pl x = Inr (r, pl')"
  shows "pl' = pl\<lparr>g_packet_pool := g_packet_pool pl'\<rparr>"
proof -
  from assms(2) have "g_packet_refs pl' = g_packet_refs pl"
    by (intro api_step_frame(4) [OF assms(1,3)]) auto
  with api_step_frame(1) [OF assms(1,3)] show ?thesis
    by (intro mesh_pool.equality) simp_all
qed

lemma pool_then_packet:
  assumes pf: "platform_wf pf" and x: "is_pool x" and y: "\<not> is_pool y"
    and "api_step pf pl x = Inr (r, pl1)" and "api_step pf pl1 y = Inr (s, pl2)"
  shows "\<exists>pl1'. api_step pf pl y = Inr (s, pl1') \<and> api_step pf pl1' x = Inr (r, pl2)"
proof (rule frames_commute [where U = "\<lambda>q. q\<lparr>g_packet_refs := g_packet_refs pl1\<rparr>"])
  from pool_call_writes [OF x assms(4)] assms(4,5)
  show "api_step pf pl x = Inr (r, pl\<lparr>g_packet_refs := g_packet_refs pl1\<rparr>)"
    and "api_step pf (pl\<lparr>g_packet_refs := g_packet_refs pl1\<rparr>) y = Inr (s, pl2)"
    by simp_all
  show "api_step pf (pl\<lparr>g_packet_refs := g_packet_refs pl1\<rparr>) y =
      bindR (api_step pf pl y) (\<lambda>(s, t'). Inr (s, t'\<lparr>g_packet_refs := g_packet_refs pl1\<rparr>))"
    using y by (rule api_step_refs_update)
next
  fix t1 assume t1: "api_step pf pl y = Inr (s, t1)"
  define ps where "ps = g_packet_pool t1"
  from packet_call_writes [OF pf y t1] have eq: "t1 = pl\<lparr>g_packet_pool := ps\<rparr>"
    by (simp add: ps_def)
  have "api_step pf t1 x =
      bindR (api_step pf pl x) (\<lambda>(r, t'). Inr (r, t'\<lparr>g_packet_pool := ps\<rparr>))"
    unfolding eq using x by (rule api_pool_step_packets)
  moreover have "pl\<lparr>g_packet_refs := g_packet_refs pl1, g_packet_pool := ps\<rparr> =
      t1\<lparr>g_packet_refs := g_packet_refs pl1\<rparr>"
    unfolding eq by simp
  ultimately
  show "\<exists>W. api_step pf t1 x = bindR (api_step pf pl x) (\<lambda>(r, t'). Inr (r, W t')) \<and>
      W (pl\<lparr>g_packet_refs := g_packet_refs pl1\<rparr>) = t1\<lparr>g_packet_refs := g_packet_refs pl1\<rparr>"
    by (intro exI [of _ "\<lambda>q. q\<lparr>g_packet_pool := ps\<rparr>"]) simp
qed

lemma packet_then_pool:
  assumes pf: "platform_wf pf" and x: "\<not> is_pool x" and y: "is_pool y"
    and "api_step pf pl x = Inr (r, pl1)" and "api_step pf pl1 y = Inr (s, pl2)"
  shows "\<exists>pl1'. api_step pf pl y = Inr (s, pl1') \<and> api_step pf pl1' x = Inr (r, pl2)"
proof (rule frames_commute [where U = "\<lambda>q. q\<lparr>g_packet_pool := g_packet_pool pl1\<rparr>"])
  from packet_call_writes [OF pf x assms(4)] assms(4,5)
  show "api_step pf pl x = Inr (r, pl\<lparr>g_packet_pool := g_packet_pool pl1\<rparr>)"
    and "api_step pf (pl\<lparr>g_packet_pool := g_packet_pool pl1\<rparr>) y = Inr (s, pl2)"
    by simp_all
  show "api_step pf (pl\<lparr>g_packet_pool := g_packet_pool pl1\<rparr>) y =
      bindR (api_step pf pl y) (\<lambda>(s, t'). Inr (s, t'\<lparr>g_packet_pool := g_packet_pool pl1\<rparr>))"
    using y by (rule api_pool_step_packets)
next
  fix t1 assume t1: "api_step pf pl y = Inr (s, t1)"
  define rs where "rs = g_packet_refs t1"
  from pool_call_writes [OF y t1] have eq: "t1 = pl\<lparr>g_packet_refs := rs\<rparr>"
    by (simp add: rs_def)
  have "api_step pf t1 x =
      bindR (api_step pf pl x) (\<lambda>(r, t'). Inr (r, t'\<lparr>g_packet_refs := rs\<rparr>))"
    unfolding eq using x by (rule api_step_refs_update)
  moreover have "pl\<lparr>g_packet_pool := g_packet_pool pl1, g_packet_refs := rs\<rparr> =
      t1\<lparr>g_packet_pool := g_packet_pool pl1\<rparr>"
    unfolding eq by simp
  ultimately
  show "\<exists>W. api_step pf t1 x = bindR (api_step pf pl x) (\<lambda>(r, t'). Inr (r, W t')) \<and>
      W (pl\<lparr>g_packet_pool := g_packet_pool pl1\<rparr>) = t1\<lparr>g_packet_pool := g_packet_pool pl1\<rparr>"
    by (intro exI [of _ "\<lambda>q. q\<lparr>g_packet_refs := rs\<rparr>"]) simp
qed

text \<open>What a call on a slot that returns has written.\<close>

lemma slot_call_writes:
  assumes pf: "platform_wf pf" and wf: "pool_wf pl" and i: "i < MESH_PACKET_POOL_SIZE pl"
    and x: "op_packet x = Some (packet_ptr pl i)" and step: "api_step pf pl x = Inr (r, pl')"
  defines "a \<equiv> snd (packet_call pf x (g_packet_pool pl ! i))"
  shows "pl' = pl\<lparr>g_packet_pool := (g_packet_pool pl)[i := a]\<rparr>" and "packet_wf a"
proof -
  from step show pl': "pl' = pl\<lparr>g_packet_pool := (g_packet_pool pl)[i := a]\<rparr>"
    by (simp add: api_step_slot [OF pf wf i x] a_def split: if_splits)
  from api_step_wf [OF pf wf step] i show "packet_wf a"
    by (auto simp: pl' pool_wf_def MESH_PACKET_POOL_SIZE_def list_all_length
        dest!: spec [of _ i])
qed

lemma slots_commute:
  assumes pf: "platform_wf pf" and wf: "pool_wf pl"
    and i: "i < MESH_PACKET_POOL_SIZE pl" and j: "j < MESH_PACKET_POOL_SIZE pl" and ij: "i \<noteq> j"
    and x: "op_packet x = Some (packet_ptr pl i)" and y: "op_packet y = Some (packet_ptr pl j)"
    and "api_step pf pl x = Inr (r, pl1)" and "api_step pf pl1 y = Inr (s, pl2)"
  shows "\<exists>pl1'. api_step pf pl y = Inr (s, pl1') \<and> api_step pf pl1' x = Inr (r, pl2)"
proof -
  define a where "a = snd (packet_call pf x (g_packet_pool pl ! i))"
  note a = slot_call_writes [OF pf wf i x assms(8), folded a_def]
  show ?thesis
  proof (rule frames_commute [where U = "\<lambda>q. q\<lparr>g_packet_pool := (g_packet_pool q)[i := a]\<rparr>"])
    from a(1) assms(8,9)
    show "api_step pf pl x = Inr (r, pl\<lparr>g_packet_pool := (g_packet_pool pl)[i := a]\<rparr>)"
      and "api_step pf (pl\<lparr>g_packet_pool := (g_packet_pool pl)[i := a]\<rparr>) y = Inr (s, pl2)"
      by simp_all
    from ij show "api_step pf (pl\<lparr>g_packet_pool := (g_packet_pool pl)[i := a]\<rparr>) y =
        bindR (api_step pf pl y) (\<lambda>(s, t').
          Inr (s, t'\<lparr>g_packet_pool := (g_packet_pool t')[i := a]\<rparr>))"
      by (intro api_step_other_update [OF pf wf j i _ a(2) y]) simp
  next
    fix t1 assume t1: "api_step pf pl y = Inr (s, t1)"
    define b where "b = snd (packet_call pf y (g_packet_pool pl ! j))"
    note b = slot_call_writes [OF pf wf j y t1, folded b_def]
    have "api_step pf t1 x = bindR (api_step pf pl x) (\<lambda>(r, t').
        Inr (r, t'\<lparr>g_packet_pool := (g_packet_pool t')[j := b]\<rparr>))"
      unfolding b(1) by (rule api_step_other_update [OF pf wf i j ij b(2) x])
    moreover from ij
    have "pl\<lparr>g_packet_pool := (g_packet_pool pl)[i := a, j := b]\<rparr> =
        t1\<lparr>g_packet_pool := (g_packet_pool t1)[i := a]\<rparr>"
      unfolding b(1) by (simp add: list_update_swap)
    ultimately
    show "\<exists>W. api_step pf t1 x = bindR (api_step pf pl x) (\<lambda>(r, t'). Inr (r, W t')) \<and>
        W (pl\<lparr>g_packet_pool := (g_packet_pool pl)[i := a]\<rparr>) =
        t1\<lparr>g_packet_pool := (g_packet_pool t1)[i := a]\<rparr>"
      by (intro exI [of _ "\<lambda>q. q\<lparr>g_packet_pool := (g_packet_pool q)[j := b]\<rparr>"]) simp
  qed
qed

text \<open>A call with \<^verbatim>\<open>NULL\<close> can be exchanged with every call.\<close>

lemma null_call_returns:
  assumes "\<not> is_pool x" and "op_packet x = None" and "api_step pf pl x = Inr (r, pl')"
  shows "pl' = pl" and "api_step pf pl'' x = Inr (r, pl'')"
  using assms(3) api_step_null [OF assms(1,2), of pf pl pl] api_step_null [OF assms(1,2), of pf pl'' pl]
  by simp_all

text \<open>Independent calls can be exchanged.\<close>

lemma independent_swap:
  assumes pf: "platform_wf pf" and wf: "pool_wf pl" and ind: "independent x y"
    and sx: "api_step pf pl x = Inr (r, pl1)" and sy: "api_step pf pl1 y = Inr (s, pl2)"
  shows "\<exists>pl1'. api_step pf pl y = Inr (s, pl1') \<and> api_step pf pl1' x = Inr (r, pl2)"
proof -
  from ind consider "is_pool x" "\<not> is_pool y" | "\<not> is_pool x" "is_pool y"
    | "\<not> is_pool x" "op_packet x = None" | "\<not> is_pool y" "op_packet y = None"
    | p q where "op_packet x = Some p" "op_packet y = Some q" "p \<noteq> q"
    by (cases "op_packet x"; cases "op_packet y") (auto simp: independent_def is_pool_iff)
  then show ?thesis
  proof cases
    case 1
    then show ?thesis using sx sy by (intro pool_then_packet [OF pf])
  next
    case 2
    then show ?thesis using sx sy by (intro packet_then_pool [OF pf])
  next
    case 3
    from null_call_returns [OF 3 sx] sy show ?thesis by simp
  next
    case 4
    from null_call_returns [OF 4 sy] sx show ?thesis by simp
  next
    case 5
    from api_step_returns_slot [OF wf 5(1) sx]
    obtain i where i: "i < MESH_PACKET_POOL_SIZE pl" "p = packet_ptr pl i" .
    from api_step_wf [OF pf wf sx] 5(2) sy
    obtain j where "j < MESH_PACKET_POOL_SIZE pl1" "q = packet_ptr pl1 j"
      by (rule api_step_returns_slot)
    with api_step_frame(1,2) [OF pf sx]
    have j: "j < MESH_PACKET_POOL_SIZE pl" "q = packet_ptr pl j"
      by (simp_all add: packet_ptr_def)
    with i 5 have "i \<noteq> j" by auto
    with i j 5 sx sy show ?thesis
      by (intro slots_commute [OF pf wf, of i j]) simp_all
  qed
qed

section \<open>Exchanging two calls of a run\<close>

lemma length_swap_at [simp]: "length (swap_at n xs) = length xs"
  by (induction n xs rule: swap_at.induct) simp_all

lemma swap_at_swap_at [simp]: "swap_at n (swap_at n xs) = xs"
  by (induction n xs rule: swap_at.induct) simp_all

lemma swap_at_nth:
  "Suc n < length xs \<Longrightarrow> swap_at n xs ! n = xs ! Suc n \<and> swap_at n xs ! Suc n = xs ! n"
  by (induction n xs rule: swap_at.induct) simp_all

lemma api_run_Cons_eq_Inr_iff:
  "api_run pf pl (x # xs) = Inr (rs, pl') \<longleftrightarrow>
   (\<exists>r pl1 rs'. api_step pf pl x = Inr (r, pl1) \<and> api_run pf pl1 xs = Inr (rs', pl') \<and>
      rs = r # rs')"
  by (auto simp: bindR_eq_Inr_iff)

lemma api_run_swap:
  assumes pf: "platform_wf pf"
  shows "pool_wf pl \<Longrightarrow> Suc n < length xs \<Longrightarrow> independent (xs ! n) (xs ! Suc n) \<Longrightarrow>
         api_run pf pl xs = Inr (rs, pl') \<Longrightarrow>
         api_run pf pl (swap_at n xs) = Inr (swap_at n rs, pl')"
proof (induction n xs arbitrary: pl rs rule: swap_at.induct)
  case (1 x y xs)
  from "1.prems"(4) obtain r pl1 s pl2 ss where sx: "api_step pf pl x = Inr (r, pl1)"
    and sy: "api_step pf pl1 y = Inr (s, pl2)" and run: "api_run pf pl2 xs = Inr (ss, pl')"
    and rs: "rs = r # s # ss"
    unfolding api_run_Cons_eq_Inr_iff by blast
  from "1.prems"(3) have "independent x y" by simp
  from independent_swap [OF pf "1.prems"(1) this sx sy] run rs show ?case
    by (auto simp: api_run_Cons_eq_Inr_iff)
next
  case (2 n x xs)
  from "2.prems"(4) obtain r pl1 rs' where sx: "api_step pf pl x = Inr (r, pl1)"
    and run: "api_run pf pl1 xs = Inr (rs', pl')" and rs: "rs = r # rs'"
    unfolding api_run_Cons_eq_Inr_iff by blast
  from "2.prems"(2,3) have "Suc n < length xs" "independent (xs ! n) (xs ! Suc n)"
    by simp_all
  from "2.IH" [OF api_step_wf [OF pf "2.prems"(1) sx] this run] sx rs show ?case
    by (simp add: api_run_Cons_eq_Inr_iff)
qed simp_all

lemma api_run_swap_iff:
  assumes "platform_wf pf" and "pool_wf pl" and "Suc n < length xs"
    and "independent (xs ! n) (xs ! Suc n)"
  shows "api_run pf pl (swap_at n xs) = Inr (swap_at n rs, pl') \<longleftrightarrow>
         api_run pf pl xs = Inr (rs, pl')"
proof
  assume run: "api_run pf pl (swap_at n xs) = Inr (swap_at n rs, pl')"
  from assms(3,4) have "Suc n < length (swap_at n xs)"
    and "independent (swap_at n xs ! n) (swap_at n xs ! Suc n)"
    by (simp_all add: swap_at_nth independent_sym)
  from api_run_swap [OF assms(1,2) this run] show "api_run pf pl xs = Inr (rs, pl')"
    by simp
qed (rule api_run_swap [OF assms])

text \<open>A run faults in one order exactly if it does in the other.\<close>

lemma api_run_swap_faults:
  assumes "platform_wf pf" and "pool_wf pl" and "Suc n < length xs"
    and "independent (xs ! n) (xs ! Suc n)"
  shows "isl (api_run pf pl (swap_at n xs)) \<longleftrightarrow> isl (api_run pf pl xs)"
proof -
  have "(\<exists>rs pl'. api_run pf pl (swap_at n xs) = Inr (rs, pl')) \<longleftrightarrow>
        (\<exists>rs pl'. api_run pf pl xs = Inr (rs, pl'))"
    using api_run_swap_iff [OF assms] by (metis swap_at_swap_at)
  then show ?thesis
    by (cases "api_run pf pl (swap_at n xs)"; cases "api_run pf pl xs") auto
qed

section \<open>Properties of independent calls\<close>

text \<open>
  C14. Calls that do not share a packet can be exchanged. When two calls that are next
  to each other in a run are independent (one of them a pool function and the other a
  packet function, or two packet functions on different pointers or on \<^verbatim>\<open>NULL\<close>), the
  run with the two exchanged returns the same values, those of the two calls
  exchanged, and leaves the same pool; and it reads outside an array or reaches the
  error hook exactly if the run in the original order does. The order in which two
  contexts use different packets, or one the pool and the other a packet, is never
  observable.
\<close>

theorem independent_calls_commute:
  assumes "platform_wf pf" and "pool_wf pl" and "Suc n < length xs"
    and "independent (xs ! n) (xs ! Suc n)"
  shows "(api_run pf pl (swap_at n xs) = Inr (swap_at n rs, pl') \<longleftrightarrow>
          api_run pf pl xs = Inr (rs, pl')) \<and>
         (isl (api_run pf pl (swap_at n xs)) \<longleftrightarrow> isl (api_run pf pl xs))"
  using api_run_swap_iff [OF assms] api_run_swap_faults [OF assms] by simp

section \<open>Witnesses\<close>

text \<open>
  In the pool of two packets the first slot is held. Building a packet in it and
  acquiring the second slot can be exchanged: the run that builds first returns, and
  so the run that acquires first does not fault.
\<close>

theorem independent_calls_commute_witness:
  "api_run ficr_platform (two_packets [1, 0] blank_packet blank_packet)
     [Build (Some 0x20000000) 0x1234 7 None 0, Pool Acquire, HandleGet (Some 0x20000000)] =
   Inr ([RetCode NRF_SUCCESS, Ret (RetPacket (Some 0x20000028)), RetHandle 0x1234],
        two_packets [1, 1] (built_packet ficr_platform blank_packet 0x1234 7 None 0) blank_packet) \<and>
   \<not> isl (api_run ficr_platform (two_packets [1, 0] blank_packet blank_packet)
     [Pool Acquire, Build (Some 0x20000000) 0x1234 7 None 0, HandleGet (Some 0x20000000)])"
proof -
  have "api_run ficr_platform (two_packets [1, 0] blank_packet blank_packet)
     [Build (Some 0x20000000) 0x1234 7 None 0, Pool Acquire, HandleGet (Some 0x20000000)] =
   Inr ([RetCode NRF_SUCCESS, Ret (RetPacket (Some 0x20000028)), RetHandle 0x1234],
        two_packets [1, 1] (built_packet ficr_platform blank_packet 0x1234 7 None 0) blank_packet)"
    by (simp add: with_packet_def with_packet_opt_def read_packet_opt_def mesh_packet_build_ok
        handle_get_wf built_packet_wf built_adv_length mesh_consts)
  with independent_calls_commute [of ficr_platform "two_packets [1, 0] blank_packet blank_packet" 0
      "[Build (Some 0x20000000) 0x1234 7 None 0, Pool Acquire, HandleGet (Some 0x20000000)]"
      "[RetCode NRF_SUCCESS, Ret (RetPacket (Some 0x20000028)), RetHandle 0x1234]"]
  show ?thesis by (simp add: independent_def)
qed

end
