(* ===== verification/Callers.thy ===== *)
theory Callers
  imports Packet_Api
begin

text \<open>
  Several callers on one pool. The execution contexts that use the packet layer
  (the main loop, the radio and timeslot handlers) are the values of a type \<open>'c\<close>;
  what they hold is a multiset of pairs of a caller and a reference. A step is
  one call of the interface by one caller, taken as atomic, and the discipline
  the callers keep is in its rules: a caller retains, releases, hands over and
  works on the packets of references it holds, and of no others. The steps of
  different callers interleave in any order.
\<close>

section \<open>Holdings and steps\<close>

type_synonym 'c holdings = "('c \<times> uint32_t) multiset"

definition held_refs :: "'c holdings \<Rightarrow> uint32_t multiset" where
  "held_refs H = image_mset snd H"

text \<open>
  \<open>call_step pf c (pl, H) (pl', H')\<close>: caller \<open>c\<close> makes one call. A new reference
  made by \<^verbatim>\<open>mesh_packet_ref_count_inc\<close> goes to a caller \<open>c'\<close>, which may be \<open>c\<close>
  itself; \<open>hand_over\<close> passes a reference on without a call. A packet operation
  is any call whose pointer argument is a reference the caller holds.
\<close>

inductive call_step ::
    "platform \<Rightarrow> 'c \<Rightarrow> mesh_pool \<times> 'c holdings \<Rightarrow> mesh_pool \<times> 'c holdings \<Rightarrow> bool"
  for pf :: platform and c :: 'c where
  acquire:
    "api_step pf pl (Pool Acquire) = Inr (Ret (RetPacket (Some p)), pl') \<Longrightarrow>
     call_step pf c (pl, H) (pl', add_mset (c, p) H)"
| exhausted:
    "api_step pf pl (Pool Acquire) = Inr (Ret (RetPacket None), pl') \<Longrightarrow>
     call_step pf c (pl, H) (pl', H)"
| retain:
    "(c, p) \<in># H \<Longrightarrow>
     api_step pf pl (Pool (RefCountInc p)) = Inr (Ret (RetBool True), pl') \<Longrightarrow>
     call_step pf c (pl, H) (pl', add_mset (c', p) H)"
| release:
    "(c, p) \<in># H \<Longrightarrow>
     api_step pf pl (Pool (RefCountDec p)) = Inr (Ret (RetBool True), pl') \<Longrightarrow>
     call_step pf c (pl, H) (pl', H - {#(c, p)#})"
| hand_over:
    "(c, p) \<in># H \<Longrightarrow> call_step pf c (pl, H) (pl, add_mset (c', p) (H - {#(c, p)#}))"
| packet:
    "(c, p) \<in># H \<Longrightarrow> op_packet x = Some p \<Longrightarrow> api_step pf pl x = Inr (r, pl') \<Longrightarrow>
     call_step pf c (pl, H) (pl', H)"

text \<open>The states the callers reach from an initialised pool.\<close>

inductive shared :: "platform \<Rightarrow> mesh_pool \<Rightarrow> 'c holdings \<Rightarrow> bool" for pf :: platform where
  shared_init: "platform_wf pf \<Longrightarrow> pool_wf pl \<Longrightarrow> shared pf (mesh_packet_init pl) {#}"
| shared_step: "shared pf pl H \<Longrightarrow> call_step pf c (pl, H) (pl', H') \<Longrightarrow> shared pf pl' H'"

text \<open>A step of any caller.\<close>

definition any_step ::
    "platform \<Rightarrow> mesh_pool \<times> 'c holdings \<Rightarrow> mesh_pool \<times> 'c holdings \<Rightarrow> bool" where
  "any_step pf s s' \<longleftrightarrow> (\<exists>c. call_step pf c s s')"

text \<open>A step of any caller but \<open>c\<close>, and a reference that only \<open>c\<close> holds.\<close>

definition others_step ::
    "platform \<Rightarrow> 'c \<Rightarrow> mesh_pool \<times> 'c holdings \<Rightarrow> mesh_pool \<times> 'c holdings \<Rightarrow> bool" where
  "others_step pf c s s' \<longleftrightarrow> (\<exists>c'. c' \<noteq> c \<and> call_step pf c' s s')"

definition exclusive :: "'c \<Rightarrow> uint32_t \<Rightarrow> 'c holdings \<Rightarrow> bool" where
  "exclusive c p H \<longleftrightarrow> (c, p) \<in># H \<and> (\<forall>c'. c' \<noteq> c \<longrightarrow> (c', p) \<notin># H)"

section \<open>The pool calls behind the steps\<close>

lemma api_acquire_iff [simp]:
  "api_step pf pl (Pool Acquire) = Inr (Ret (RetPacket r), pl') \<longleftrightarrow>
   mesh_packet_acquire pl = (r, pl')"
  by (auto split: prod.splits)

lemma api_inc_iff [simp]:
  "api_step pf pl (Pool (RefCountInc p)) = Inr (Ret (RetBool b), pl') \<longleftrightarrow>
   mesh_packet_ref_count_inc pl p = Inr (b, pl')"
  by (auto simp: bindR_eq_Inr_iff)

lemma api_dec_iff [simp]:
  "api_step pf pl (Pool (RefCountDec p)) = Inr (Ret (RetBool b), pl') \<longleftrightarrow>
   mesh_packet_ref_count_dec pl p = Inr (b, pl')"
  by (auto simp: bindR_eq_Inr_iff)

declare api_step.simps [simp del]

lemma held_refs_simps [simp]:
  "held_refs {#} = {#}"
  "held_refs (add_mset (c, p) H) = add_mset p (held_refs H)"
  "(c, p) \<in># H \<Longrightarrow> held_refs (H - {#(c, p)#}) = held_refs H - {#p#}"
  by (simp_all add: held_refs_def image_mset_Diff)

lemma held_refs_member: "(c, p) \<in># H \<Longrightarrow> p \<in># held_refs H"
  by (force simp: held_refs_def)

section \<open>The counts are the references held by all callers together\<close>

lemma counts_agree_packets:
  assumes "counts_agree pl H" and "pool_wf pl'" and "pool_addr pl' = pool_addr pl"
    and "g_packet_refs pl' = g_packet_refs pl"
  shows "counts_agree pl' H"
  using assms by (simp add: counts_agree_def packet_ptr_def MESH_PACKET_POOL_SIZE_def)

text \<open>
  A step keeps the counts equal to the references held, also when some references
  \<open>S\<close> are counted that no caller has on record.
\<close>

lemma call_step_counts_agree_plus:
  assumes pf: "platform_wf pf" and ca: "counts_agree pl (held_refs H + S)"
    and step: "call_step pf c (pl, H) (pl', H')"
  shows "counts_agree pl' (held_refs H' + S)"
  using step
proof (cases rule: call_step.cases)
  case (acquire p)
  with ca show ?thesis by (auto simp: counts_agree_acquire(1))
next
  case exhausted
  with ca show ?thesis by (auto simp: mesh_packet_acquire_None_iff)
next
  case (retain p c')
  with ca show ?thesis by (auto simp: counts_agree_retain held_refs_member)
next
  case (release p)
  then have "held_refs H' + S = held_refs H + S - {#p#}"
    by (simp add: held_refs_member)
  with release ca show ?thesis by (auto simp: counts_agree_release held_refs_member)
next
  case (hand_over p c')
  with ca show ?thesis by (auto simp: held_refs_member)
next
  case (packet p x r)
  then have x: "op_packet x = Some p" and s: "api_step pf pl x = Inr (r, pl')" and H': "H' = H"
    by simp_all
  from api_step_frame(1) [OF pf s] api_step_refs [OF pf s x]
  have "pool_addr pl' = pool_addr pl" "g_packet_refs pl' = g_packet_refs pl" .
  moreover have "pool_wf pl'"
    using pf counts_agreeD(1) [OF ca] s by (rule api_step_wf)
  ultimately show ?thesis using ca by (simp add: H' counts_agree_packets)
qed

text \<open>No step moves or resizes the pool.\<close>

lemma call_step_frame:
  assumes "platform_wf pf" and "call_step pf c (pl, H) (pl', H')"
  shows "pool_addr pl' = pool_addr pl"
    and "MESH_PACKET_POOL_SIZE pl' = MESH_PACKET_POOL_SIZE pl"
  using assms(2)
  by (cases rule: call_step.cases; blast dest: api_step_frame(1,2) [OF assms(1)])+

lemma call_step_counts_agree:
  assumes "platform_wf pf" and "counts_agree pl (held_refs H)"
    and "call_step pf c (pl, H) (pl', H')"
  shows "counts_agree pl' (held_refs H')"
  using call_step_counts_agree_plus [of pf pl H "{#}"] assms by simp

lemma shared_counts_agree:
  "shared pf pl H \<Longrightarrow> platform_wf pf \<and> counts_agree pl (held_refs H)"
proof (induction rule: shared.induct)
  case (shared_init pl)
  then show ?case by (simp add: counts_agree_init)
next
  case (shared_step pl H c pl' H')
  then show ?case by (blast intro: call_step_counts_agree)
qed

section \<open>What the other callers cannot do to a held packet\<close>

lemma exclusiveD:
  "exclusive c p H \<Longrightarrow> (c, p) \<in># H"
  "exclusive c p H \<Longrightarrow> c' \<noteq> c \<Longrightarrow> (c', q) \<in># H \<Longrightarrow> q \<noteq> p"
  by (auto simp: exclusive_def)

lemma exclusive_add:
  "exclusive c p H \<Longrightarrow> q \<noteq> p \<Longrightarrow> exclusive c p (add_mset (c', q) H)"
  by (auto simp: exclusive_def)

lemma exclusive_remove:
  assumes "exclusive c p H" and "c' \<noteq> c"
  shows "exclusive c p (H - {#(c', q)#})"
proof -
  from assms have "(c, p) \<in># H - {#(c', q)#}"
    by (simp add: exclusive_def in_diff_count)
  moreover have "(c'', p) \<notin># H - {#(c', q)#}" if "c'' \<noteq> c" for c''
    using assms(1) that by (auto simp: exclusive_def dest: in_diffD)
  ultimately show ?thesis by (simp add: exclusive_def)
qed

lemma pool_call_keeps_packets:
  assumes "pool_step pl y = Inr (r, pl')"
  shows "packet_at pl' q = packet_at pl q"
  using pool_step_frame(1,2) [OF assms] by (rule packet_at_cong)

lemma pool_calls_keep_packets:
  "mesh_packet_acquire pl = (a, pl') \<Longrightarrow> packet_at pl' q = packet_at pl q"
  "mesh_packet_ref_count_inc pl p = Inr (b, pl') \<Longrightarrow> packet_at pl' q = packet_at pl q"
  "mesh_packet_ref_count_dec pl p = Inr (b, pl') \<Longrightarrow> packet_at pl' q = packet_at pl q"
  using pool_call_keeps_packets [of pl Acquire "RetPacket a" pl' q]
    pool_call_keeps_packets [of pl "RefCountInc p" "RetBool b" pl' q]
    pool_call_keeps_packets [of pl "RefCountDec p" "RetBool b" pl' q]
  by simp_all

text \<open>
  One step of another caller: the packet behind a reference that only \<open>c\<close> holds
  is as it was, and the reference is still held by \<open>c\<close> alone.
\<close>

lemma other_step_isolated:
  assumes pf: "platform_wf pf" and ca: "counts_agree pl (held_refs H)"
    and ex: "exclusive c p H" and other: "c' \<noteq> c"
    and step: "call_step pf c' (pl, H) (pl', H')"
  shows "packet_at pl' p = packet_at pl p" and "exclusive c p H'"
    and "count H' (c, p) = count H (c, p)"
proof -
  note held = held_refs_member [OF exclusiveD(1) [OF ex]]
  have "packet_at pl' p = packet_at pl p \<and> exclusive c p H' \<and>
        count H' (c, p) = count H (c, p)"
    using step
  proof (cases rule: call_step.cases)
    case (acquire q)
    then have acq: "mesh_packet_acquire pl = (Some q, pl')" by simp
    from counts_agree_acquire(2) [OF ca acq] held have "q \<noteq> p" by auto
    with ex other acquire(1) pool_calls_keep_packets(1) [OF acq] show ?thesis
      by (simp add: exclusive_add)
  next
    case exhausted
    then have "pl' = pl" by (simp add: mesh_packet_acquire_None_iff)
    with exhausted ex show ?thesis by simp
  next
    case (retain q c'')
    from exclusiveD(2) [OF ex other retain(2)] have "q \<noteq> p" .
    moreover from retain(3) have "mesh_packet_ref_count_inc pl q = Inr (True, pl')" by simp
    ultimately show ?thesis
      using ex retain(1) by (simp add: pool_calls_keep_packets(2) exclusive_add)
  next
    case (release q)
    from release(3) have "mesh_packet_ref_count_dec pl q = Inr (True, pl')" by simp
    then show ?thesis
      using ex other release(1) by (simp add: pool_calls_keep_packets(3) exclusive_remove)
  next
    case (hand_over q c'')
    from exclusiveD(2) [OF ex other hand_over(3)] have "q \<noteq> p" .
    with ex other hand_over(1,2) show ?thesis
      by (simp add: exclusive_add exclusive_remove)
  next
    case (packet q x r)
    from exclusiveD(2) [OF ex other packet(2)] have "p \<noteq> q" by simp
    from api_step_other_slot [OF pf packet(4,3) this] packet(1) ex show ?thesis by simp
  qed
  then show "packet_at pl' p = packet_at pl p" and "exclusive c p H'"
    and "count H' (c, p) = count H (c, p)"
    by simp_all
qed

lemma others_run_isolated:
  assumes "rtranclp (others_step pf c) s s'"
  shows "shared pf (fst s) (snd s) \<Longrightarrow> exclusive c p (snd s) \<Longrightarrow>
         shared pf (fst s') (snd s') \<and> exclusive c p (snd s') \<and>
         packet_at (fst s') p = packet_at (fst s) p \<and>
         count (snd s') (c, p) = count (snd s) (c, p)"
  using assms
proof (induction rule: rtranclp_induct)
  case base
  then show ?case by simp
next
  case (step t u)
  from step.IH [OF step.prems] have sh: "shared pf (fst t) (snd t)"
    and ex: "exclusive c p (snd t)"
    and eq: "packet_at (fst t) p = packet_at (fst s) p"
      "count (snd t) (c, p) = count (snd s) (c, p)"
    by simp_all
  from step.hyps(2) obtain c' where c': "c' \<noteq> c"
    and cs: "call_step pf c' (fst t, snd t) (fst u, snd u)"
    by (auto simp: others_step_def)
  from shared_counts_agree [OF sh]
  have pf: "platform_wf pf" and ca: "counts_agree (fst t) (held_refs (snd t))"
    by simp_all
  from other_step_isolated [OF pf ca ex c' cs] shared_step [OF sh cs] eq
  show ?case by simp
qed

section \<open>One caller alone\<close>

text \<open>The discipline of the pool by itself is that of a single caller.\<close>

lemma owned_shared:
  assumes "platform_wf pf"
  shows "owned pl H \<Longrightarrow> shared pf pl (image_mset (Pair c) H)"
proof (induction rule: owned.induct)
  case (owned_init pl)
  with assms show ?case by (simp add: shared_init)
next
  case (owned_acquire pl H p pl')
  from owned_acquire.hyps(2) have "call_step pf c (pl, image_mset (Pair c) H)
      (pl', add_mset (c, p) (image_mset (Pair c) H))"
    by (intro call_step.acquire) simp
  with owned_acquire.IH show ?case by (auto intro: shared_step)
next
  case (owned_retain pl H p pl')
  from owned_retain.hyps(2,3) have "call_step pf c (pl, image_mset (Pair c) H)
      (pl', add_mset (c, p) (image_mset (Pair c) H))"
    by (intro call_step.retain) auto
  with owned_retain.IH show ?case by (auto intro: shared_step)
next
  case (owned_release pl H p pl')
  from owned_release.hyps(2,3) have "call_step pf c (pl, image_mset (Pair c) H)
      (pl', image_mset (Pair c) H - {#(c, p)#})"
    by (intro call_step.release) auto
  moreover from owned_release.hyps(2)
  have "image_mset (Pair c) (H - {#p#}) = image_mset (Pair c) H - {#(c, p)#}"
    by (simp add: image_mset_Diff)
  ultimately show ?case using owned_release.IH by (auto intro: shared_step)
qed

lemma shared_acquire_fresh:
  assumes "shared pf pl H" and "mesh_packet_acquire pl = (Some p, pl')"
  shows "(c, p) \<notin># H"
  using counts_agree_acquire(2) [OF _ assms(2)] shared_counts_agree [OF assms(1)]
  by (auto dest: held_refs_member)

section \<open>Properties of the interleaved callers\<close>

text \<open>
  C3. A packet whose reference one caller holds alone is out of reach of all other
  callers: whatever calls they make and in whatever order, as long as each works
  only on references it holds itself, the packet is afterwards what it was, the
  caller still holds its references to it and nobody else holds one. In
  particular no acquisition by another caller returns the slot, and no build,
  sanitize or change of ownership by another caller writes to it.
\<close>

theorem held_packet_isolated:
  assumes "shared pf pl H" and "(c, p) \<in># H" and "\<forall>c'. c' \<noteq> c \<longrightarrow> (c', p) \<notin># H"
    and "rtranclp (others_step pf c) (pl, H) (pl', H')"
  shows "packet_at pl' p = packet_at pl p \<and> count H' (c, p) = count H (c, p) \<and>
         (\<forall>c'. c' \<noteq> c \<longrightarrow> (c', p) \<notin># H')"
  using others_run_isolated [OF assms(4), of p] assms(1-3) by (simp add: exclusive_def)

section \<open>Two callers on the pool of two packets\<close>

text \<open>
  Caller 0 holds the first slot with a received packet in it; caller 1 acquires the
  second slot and builds a packet there.
\<close>

lemma shared_two_packets_1:
  "shared ficr_platform (two_packets [1, 0] rx_packet blank_packet) {#(0 :: nat, 0x20000000)#}"
proof -
  have "shared ficr_platform (mesh_packet_init (two_packets [0, 0] rx_packet blank_packet))
          ({#} :: nat holdings)"
    by (intro shared_init) simp_all
  moreover have "call_step ficr_platform (0 :: nat) (two_packets [0, 0] rx_packet blank_packet, {#})
      (two_packets [1, 0] rx_packet blank_packet, add_mset (0, 0x20000000) {#})"
    by (intro call_step.acquire) simp
  ultimately show ?thesis by (auto intro: shared_step)
qed

lemma others_run_two_packets:
  "rtranclp (others_step ficr_platform (0 :: nat))
     (two_packets [1, 0] a blank_packet, {#(0, 0x20000000)#})
     (two_packets [1, 1] a
        (built_packet ficr_platform blank_packet 0x1234 7 (Some [0xAA, 0xBB, 0xCC]) 3),
      {#(1, 0x20000028), (0, 0x20000000)#})"
proof -
  let ?b = "built_packet ficr_platform blank_packet 0x1234 7 (Some [0xAA, 0xBB, 0xCC]) 3"
  let ?H = "{#(1 :: nat, 0x20000028 :: uint32_t), (0, 0x20000000)#}"
  have "call_step ficr_platform (1 :: nat)
      (two_packets [1, 0] a blank_packet, {#(0, 0x20000000)#})
      (two_packets [1, 1] a blank_packet, add_mset (1, 0x20000028) {#(0, 0x20000000)#})"
    by (intro call_step.acquire) simp
  then have 1: "others_step ficr_platform (0 :: nat)
      (two_packets [1, 0] a blank_packet, {#(0, 0x20000000)#})
      (two_packets [1, 1] a blank_packet, ?H)"
    by (auto simp: others_step_def)
  have "call_step ficr_platform (1 :: nat) (two_packets [1, 1] a blank_packet, ?H)
      (two_packets [1, 1] a ?b, ?H)"
    by (rule call_step.packet
          [where p = "0x20000028" and r = "RetCode NRF_SUCCESS" and
            x = "Build (Some 0x20000028) 0x1234 7 (Some [0xAA, 0xBB, 0xCC]) 3"])
       (simp_all add: api_step.simps with_packet_opt_def with_packet_def build_blank_ficr)
  then have 2: "others_step ficr_platform (0 :: nat)
      (two_packets [1, 1] a blank_packet, ?H) (two_packets [1, 1] a ?b, ?H)"
    by (auto simp: others_step_def)
  from 1 2 show ?thesis by (rule converse_rtranclp_into_rtranclp [OF _ r_into_rtranclp])
qed

theorem held_packet_isolated_witness:
  "packet_at (two_packets [1, 1] rx_packet
       (built_packet ficr_platform blank_packet 0x1234 7 (Some [0xAA, 0xBB, 0xCC]) 3))
     0x20000000 = Inr rx_packet"
  using held_packet_isolated [OF shared_two_packets_1 _ _ others_run_two_packets] by simp

text \<open>
  A reference kept without \<^verbatim>\<open>mesh_packet_ref_count_inc\<close> is not protected: after the
  holder's release the slot is acquired and built again, and a
  \<^verbatim>\<open>mesh_packet_handle_get\<close> through the stale pointer reads the new handle.
\<close>

lemma stale_pointer_reads_new_packet:
  "\<exists>pl'. api_run ficr_platform (two_packets [0, 0] blank_packet blank_packet)
     [Pool Acquire, Build (Some 0x20000000) 0x1234 7 None 0, Pool (RefCountDec 0x20000000),
      Pool Acquire, Build (Some 0x20000000) 0x5678 1 None 0, HandleGet (Some 0x20000000)] =
   Inr ([Ret (RetPacket (Some 0x20000000)), RetCode NRF_SUCCESS, Ret (RetBool True),
         Ret (RetPacket (Some 0x20000000)), RetCode NRF_SUCCESS, RetHandle 0x5678], pl')"
  by (simp add: api_step.simps with_packet_def with_packet_opt_def read_packet_opt_def
      mesh_packet_build_ok handle_get_wf built_packet_wf built_adv_length mesh_consts)

end
