(* ===== verification/Holders.thy ===== *)
theory Holders
  imports Callers
begin

text \<open>
  What a caller that keeps the discipline can rely on. A reference it holds is the
  address of a slot with a well-formed packet, so a packet function called with
  it is decided by \<open>packet_call\<close> and \<open>call_faults\<close>; what it builds in a packet
  it holds alone it reads back, whatever the others do; and the references can
  always be given back, so that no slot is lost to the pool. None of this survives
  a caller that releases a reference it does not hold or initialises the pool
  again.
\<close>

section \<open>The calls of a holder\<close>

text \<open>A reference that is held is the address of a slot.\<close>

lemma shared_held_slot:
  assumes "shared pf pl H" and "(c, p) \<in># H"
  shows "platform_wf pf" and "pool_wf pl"
    and "\<exists>i < MESH_PACKET_POOL_SIZE pl. p = packet_ptr pl i"
  using shared_counts_agree [OF assms(1)] held_refs_member [OF assms(2)]
  by (auto dest: counts_agreeD)

text \<open>
  The call of a holder through its reference: it faults or it returns what
  \<open>packet_call\<close> says, leaves that packet in the slot and the callers where
  they were.
\<close>

lemma held_call:
  assumes sh: "shared pf pl H" and held: "(c, p) \<in># H" and x: "op_packet x = Some p"
    and pkt: "pkt = g_packet_pool pl ! packet_index pl p"
    and pl': "pl' = pl\<lparr>g_packet_pool :=
                       (g_packet_pool pl)[packet_index pl p := snd (packet_call pf x pkt)]\<rparr>"
  shows "packet_at pl p = Inr pkt" and "packet_wf pkt"
    and "call_faults x pkt \<Longrightarrow> api_step pf pl x = Inl OutOfBounds"
    and "\<not> call_faults x pkt \<Longrightarrow> api_step pf pl x = Inr (fst (packet_call pf x pkt), pl')"
    and "\<not> call_faults x pkt \<Longrightarrow> shared pf pl' H"
    and "packet_at pl' p = Inr (snd (packet_call pf x pkt))"
    and "q \<noteq> p \<Longrightarrow> packet_at pl' q = packet_at pl q"
proof -
  note pf = shared_held_slot(1) [OF sh held] and wf = shared_held_slot(2) [OF sh held]
  from shared_held_slot(3) [OF sh held] obtain i
    where i: "i < MESH_PACKET_POOL_SIZE pl" and p: "p = packet_ptr pl i"
    by blast
  from wf i have slot: "slot_ptr pl p i"
    unfolding p by (rule slot_ptr_packet_ptr)
  then have ix: "packet_index pl p = i" by (simp add: slot_ptr_def)
  from x have "op_packet x = Some (packet_ptr pl i)" by (simp add: p)
  note step = api_step_slot [OF pf wf i this]
  from slot show "packet_at pl p = Inr pkt"
    by (auto simp: packet_at_eq_Inr_iff pkt ix)
  from wf i show "packet_wf pkt"
    by (simp add: pkt ix pool_wf_def list_all_length)
  from step show "call_faults x pkt \<Longrightarrow> api_step pf pl x = Inl OutOfBounds"
    and ret: "\<not> call_faults x pkt \<Longrightarrow> api_step pf pl x = Inr (fst (packet_call pf x pkt), pl')"
    by (simp_all add: pkt pl' ix)
  from call_step.packet [OF held x ret] sh show "\<not> call_faults x pkt \<Longrightarrow> shared pf pl' H"
    by (rule shared_step [rotated])
  from slot show "packet_at pl' p = Inr (snd (packet_call pf x pkt))"
    unfolding pl' ix by (rule packet_at_updated)
  from slot show "q \<noteq> p \<Longrightarrow> packet_at pl' q = packet_at pl q"
    unfolding pl' ix by (rule packet_at_other_slot)
qed

section \<open>Giving the references back\<close>

text \<open>
  \<open>release_step\<close>: a caller gives back a reference it holds, and
  \<^verbatim>\<open>mesh_packet_ref_count_dec\<close> returns true. It is a step of the discipline.
\<close>

definition release_step ::
    "mesh_pool \<times> 'c holdings \<Rightarrow> mesh_pool \<times> 'c holdings \<Rightarrow> bool" where
  "release_step s s' \<longleftrightarrow>
     (\<exists>c p. (c, p) \<in># snd s \<and> mesh_packet_ref_count_dec (fst s) p = Inr (True, fst s') \<and>
            snd s' = snd s - {#(c, p)#})"

lemma release_step_call:
  assumes "release_step s s'"
  shows "any_step pf s s'"
proof -
  obtain pl H pl' H' where s: "s = (pl, H)" "s' = (pl', H')"
    by (cases s, cases s')
  with assms obtain c p where "(c, p) \<in># H"
    and "mesh_packet_ref_count_dec pl p = Inr (True, pl')" and "H' = H - {#(c, p)#}"
    unfolding release_step_def by auto
  then have "call_step pf c (pl, H) (pl', H')"
    by (auto intro: call_step.release)
  then show ?thesis unfolding any_step_def s ..
qed

text \<open>A holder's release succeeds and writes no packet.\<close>

lemma shared_release:
  assumes "shared pf pl H" and "(c, p) \<in># H"
  obtains pl' where "release_step (pl, H) (pl', H - {#(c, p)#})"
    and "g_packet_pool pl' = g_packet_pool pl"
    and "MESH_PACKET_POOL_SIZE pl' = MESH_PACKET_POOL_SIZE pl"
proof -
  from shared_counts_agree [OF assms(1)] held_refs_member [OF assms(2)]
  obtain i where "packet_index pl p = i" "i < MESH_PACKET_POOL_SIZE pl"
    "g_packet_refs pl ! i \<noteq> 0"
    by (auto elim: counts_agree_held_slot)
  then have "mesh_packet_ref_count_dec pl p =
      Inr (True, pl\<lparr>g_packet_refs := (g_packet_refs pl)[i := g_packet_refs pl ! i - 1]\<rparr>)"
    using ref_count_dec_slot [of pl p] by simp
  with assms(2) show thesis
    by (intro that [of "pl\<lparr>g_packet_refs := (g_packet_refs pl)[i := g_packet_refs pl ! i - 1]\<rparr>"])
       (auto simp: release_step_def MESH_PACKET_POOL_SIZE_def)
qed

text \<open>With no reference held every count is 0.\<close>

lemma shared_empty_refs:
  assumes "shared pf pl {#}"
  shows "g_packet_refs pl = replicate (MESH_PACKET_POOL_SIZE pl) 0"
proof (rule nth_equalityI)
  show "length (g_packet_refs pl) = length (replicate (MESH_PACKET_POOL_SIZE pl) (0 :: uint8_t))"
    by (simp add: MESH_PACKET_POOL_SIZE_def)
next
  fix i assume "i < length (g_packet_refs pl)"
  then have i: "i < MESH_PACKET_POOL_SIZE pl" by (simp add: MESH_PACKET_POOL_SIZE_def)
  from shared_counts_agree [OF assms] have "counts_agree pl {#}" by simp
  from counts_agreeD(3) [OF this i] have "g_packet_refs pl ! i = 0"
    by (simp add: unsigned_eq_0_iff)
  with i show "g_packet_refs pl ! i = replicate (MESH_PACKET_POOL_SIZE pl) 0 ! i" by simp
qed

lemma shared_drains:
  fixes H :: "'c holdings"
  shows "shared pf pl H \<Longrightarrow>
   \<exists>pl'. rtranclp release_step (pl, H) (pl', {#}) \<and> shared pf pl' ({#} :: 'c holdings) \<and>
         g_packet_pool pl' = g_packet_pool pl \<and>
         MESH_PACKET_POOL_SIZE pl' = MESH_PACKET_POOL_SIZE pl"
proof (induction "size H" arbitrary: pl H)
  case 0
  then show ?case by (intro exI [of _ pl]) simp
next
  case (Suc n)
  from Suc.hyps(2) obtain c p where held: "(c, p) \<in># H"
    by (cases H) auto
  from Suc.prems held obtain pl1 where step: "release_step (pl, H) (pl1, H - {#(c, p)#})"
    and same: "g_packet_pool pl1 = g_packet_pool pl"
      "MESH_PACKET_POOL_SIZE pl1 = MESH_PACKET_POOL_SIZE pl"
    by (rule shared_release)
  from release_step_call [OF step, of pf] Suc.prems
  have sh: "shared pf pl1 (H - {#(c, p)#})"
    by (auto simp: any_step_def intro: shared_step)
  from held Suc.hyps(2) have "n = size (H - {#(c, p)#})"
    by (simp add: size_Diff_singleton)
  from Suc.hyps(1) [OF this sh] obtain pl'
    where run: "rtranclp release_step (pl1, H - {#(c, p)#}) (pl', {#})"
      and rest: "shared pf pl' ({#} :: 'c holdings)" "g_packet_pool pl' = g_packet_pool pl1"
        "MESH_PACKET_POOL_SIZE pl' = MESH_PACKET_POOL_SIZE pl1"
    by (elim exE conjE)
  from step run have "rtranclp release_step (pl, H) (pl', {#})"
    by (rule converse_rtranclp_into_rtranclp)
  with rest same show ?case by (intro exI [of _ pl']) simp
qed

text \<open>A run of releases is a run of steps of the discipline.\<close>

lemma release_run_calls: "rtranclp release_step s s' \<Longrightarrow> rtranclp (any_step pf) s s'"
  by (induction rule: rtranclp_induct) (auto dest: release_step_call [where pf = pf])

section \<open>Calls that break the discipline\<close>

text \<open>
  The pool cannot tell who calls. A release of a reference by a caller that does not
  hold it is accepted like the holder's: when one reference to the slot is held, the
  call returns true and leaves the count at 0, so the slot is free while its holder
  still works on it, and the holder's own release is then refused. The test for a
  count of 0 catches a release too many only when nobody holds the slot.
\<close>

lemma stray_release_frees_held_slot:
  assumes "shared pf pl H" and "count (held_refs H) p = 1"
  shows "\<exists>pl' i. mesh_packet_ref_count_dec pl p = Inr (True, pl') \<and>
           i < MESH_PACKET_POOL_SIZE pl' \<and> p = packet_ptr pl' i \<and> g_packet_refs pl' ! i = 0 \<and>
           mesh_packet_ref_count_dec pl' p = Inr (False, pl')"
proof -
  from shared_counts_agree [OF assms(1)] have ca: "counts_agree pl (held_refs H)" ..
  moreover from assms(2) have "p \<in># held_refs H" by (simp add: count_greater_zero_iff [symmetric])
  ultimately obtain i where i: "i < MESH_PACKET_POOL_SIZE pl" "p = packet_ptr pl i"
    "packet_index pl p = i" "g_packet_refs pl ! i \<noteq> 0"
    by (rule counts_agree_held_slot)
  from counts_agreeD(3) [OF ca i(1)] assms(2) i(2) have "g_packet_refs pl ! i = 1"
    by (simp add: word_unat_eq_iff)
  let ?pl = "pl\<lparr>g_packet_refs := (g_packet_refs pl)[i := 0]\<rparr>"
  from i \<open>g_packet_refs pl ! i = 1\<close> have "mesh_packet_ref_count_dec pl p = Inr (True, ?pl)"
    using ref_count_dec_slot [of pl p] by simp
  moreover from i have "mesh_packet_ref_count_dec ?pl p = Inr (False, ?pl)"
    by (intro ref_count_dec_zero) (simp_all add: MESH_PACKET_POOL_SIZE_def)
  moreover from i have "i < MESH_PACKET_POOL_SIZE ?pl" "p = packet_ptr ?pl i"
    "g_packet_refs ?pl ! i = 0"
    by (simp_all add: MESH_PACKET_POOL_SIZE_def)
  ultimately show ?thesis by blast
qed

text \<open>
  \<^verbatim>\<open>mesh_packet_init\<close> called again sets the count of every slot to 0, those of the
  slots that are held included.
\<close>

lemma init_frees_held_slots:
  assumes "shared pf pl H" and "(c, p) \<in># H"
  shows "\<exists>i < MESH_PACKET_POOL_SIZE pl. p = packet_ptr pl i \<and>
           g_packet_refs pl ! i \<noteq> 0 \<and> g_packet_refs (mesh_packet_init pl) ! i = 0"
proof -
  from shared_counts_agree [OF assms(1)] held_refs_member [OF assms(2)]
  obtain i where "i < MESH_PACKET_POOL_SIZE pl" "p = packet_ptr pl i" "g_packet_refs pl ! i \<noteq> 0"
    by (auto elim: counts_agree_held_slot)
  then show ?thesis by (auto simp: mesh_packet_init_refs)
qed

section \<open>Properties of the calls of a holder\<close>

text \<open>
  C5. The interface refines the functions on packets for every caller that keeps
  the discipline. A packet function called by a holder with its reference finds a
  well-formed packet behind it. The call reads outside an array exactly in the
  cases of \<open>call_faults\<close>: a build from a buffer shorter than the length given, and
  \<^verbatim>\<open>mesh_packet_has_additional_data\<close> or \<^verbatim>\<open>mesh_packet_take_ownership\<close> on a packet
  whose header length overruns. Every other call returns the value of
  \<open>packet_call\<close> and leaves its packet in the slot; no reference count and no other
  packet changes, and the holdings stay as they are.
\<close>

theorem held_call_refines_packet_call:
  assumes "shared pf pl H" and "(c, p) \<in># H" and "op_packet x = Some p"
  shows "\<exists>pkt. packet_at pl p = Inr pkt \<and> packet_wf pkt \<and>
           (if call_faults x pkt then api_step pf pl x = Inl OutOfBounds
            else \<exists>pl'. api_step pf pl x = Inr (fst (packet_call pf x pkt), pl') \<and>
                   packet_at pl' p = Inr (snd (packet_call pf x pkt)) \<and>
                   g_packet_refs pl' = g_packet_refs pl \<and>
                   (\<forall>q. q \<noteq> p \<longrightarrow> packet_at pl' q = packet_at pl q) \<and>
                   shared pf pl' H)"
proof -
  define pkt where "pkt = g_packet_pool pl ! packet_index pl p"
  define pl' where "pl' = pl\<lparr>g_packet_pool :=
      (g_packet_pool pl)[packet_index pl p := snd (packet_call pf x pkt)]\<rparr>"
  note call = held_call [OF assms pkt_def pl'_def]
  have "g_packet_refs pl' = g_packet_refs pl" by (simp add: pl'_def)
  with call show ?thesis by (cases "call_faults x pkt") auto
qed

text \<open>
  C4. What a caller builds in a packet it holds alone is what it reads back,
  whatever the other callers do in between. After a successful
  \<^verbatim>\<open>mesh_packet_build\<close> through the reference and any number of calls of the other
  callers, \<^verbatim>\<open>mesh_packet_handle_get\<close> returns the handle that was built,
  \<^verbatim>\<open>mesh_packet_adv_data_get\<close> finds the structure at the start of the payload,
  \<^verbatim>\<open>mesh_packet_has_additional_data\<close> is false and
  \<^verbatim>\<open>mesh_packet_adv_data_sanitize\<close> succeeds without changing the pool.
\<close>

theorem built_packet_read_back:
  assumes "shared pf pl H" and "(c, p) \<in># H" and "\<forall>c'. c' \<noteq> c \<longrightarrow> (c', p) \<notin># H"
    and "api_step pf pl (Build (Some p) hdl ver data len) = Inr (RetCode NRF_SUCCESS, pl1)"
    and "rtranclp (others_step pf c) (pl1, H) (pl2, H2)"
  shows "api_step pf pl2 (HandleGet (Some p)) = Inr (RetHandle hdl, pl2) \<and>
         api_step pf pl2 (AdvDataGet (Some p)) = Inr (RetAdvData (Some 0), pl2) \<and>
         api_step pf pl2 (HasAdditionalData p) = Inr (Ret (RetBool False), pl2) \<and>
         api_step pf pl2 (AdvDataSanitize (Some p)) = Inr (RetCode NRF_SUCCESS, pl2)"
proof -
  let ?x = "Build (Some p) hdl ver data len"
  define pkt where "pkt = g_packet_pool pl ! packet_index pl p"
  define b where "b = built_packet pf pkt hdl ver data len"
  have x: "op_packet ?x = Some p" by simp
  note build = held_call [OF assms(1,2) x pkt_def refl]
  from assms(4) build(3) have nf: "\<not> call_faults ?x pkt" by auto
  from assms(4) build(4) [OF nf] have len: "unat len \<le> RBC_MESH_VALUE_MAX_LEN"
    and pl1: "pl1 = pl\<lparr>g_packet_pool := (g_packet_pool pl)[packet_index pl p := b]\<rparr>"
    by (auto simp: b_def split: if_splits)
  from build(5) [OF nf] build(6) len have "shared pf pl1 H" "packet_at pl1 p = Inr b"
    by (simp_all add: pl1 b_def)
  with others_run_isolated [OF assms(5), of p] assms(2,3)
  have sh2: "shared pf pl2 H2" and held2: "(c, p) \<in># H2" and at2: "packet_at pl2 p = Inr b"
    by (simp_all add: exclusive_def)
  have read: "api_step pf pl2 y = Inr (fst (packet_call pf y b), pl2)"
    if y: "op_packet y = Some p" "\<not> call_faults y b" "snd (packet_call pf y b) = b" for y
  proof -
    note call = held_call [OF sh2 held2 y(1) refl refl]
    from call(1) at2 have "g_packet_pool pl2 ! packet_index pl2 p = b" by simp
    moreover from this [symmetric]
    have "(g_packet_pool pl2)[packet_index pl2 p := b] = g_packet_pool pl2" by simp
    ultimately show ?thesis using call(4) y(2,3) by simp
  qed
  have "located b" "\<not> length_overruns b" "sanitized b = b"
    unfolding b_def using len by (rule built_packet_reading)+
  with read [of "HandleGet (Some p)"] read [of "AdvDataGet (Some p)"]
    read [of "HasAdditionalData p"] read [of "AdvDataSanitize (Some p)"]
  show ?thesis by (simp add: b_def)
qed

text \<open>
  C20. No slot is lost to the pool. From every state the callers reach, they can
  give back all the references they hold: there is a run of calls, each a
  release that returns true, after which nothing is held and every reference count
  is 0, so that every slot can be acquired again. The packets are what they were.
\<close>

theorem pool_drains:
  fixes H :: "'c holdings"
  assumes "shared pf pl H"
  shows "\<exists>pl'. rtranclp (any_step pf) (pl, H) (pl', {#}) \<and>
               rtranclp release_step (pl, H) (pl', {#}) \<and>
               g_packet_refs pl' = replicate (MESH_PACKET_POOL_SIZE pl) 0 \<and>
               g_packet_pool pl' = g_packet_pool pl"
proof -
  from shared_drains [OF assms] obtain pl'
    where run: "rtranclp release_step (pl, H) (pl', ({#} :: 'c holdings))"
      and empty: "shared pf pl' ({#} :: 'c holdings)"
      and same: "g_packet_pool pl' = g_packet_pool pl"
        "MESH_PACKET_POOL_SIZE pl' = MESH_PACKET_POOL_SIZE pl"
    by (elim exE conjE)
  from shared_empty_refs [OF empty] same(2)
  have "g_packet_refs pl' = replicate (MESH_PACKET_POOL_SIZE pl) 0" by (simp only:)
  with run release_run_calls [OF run, of pf] same(1) show ?thesis
    by (intro exI [of _ pl'] conjI)
qed

section \<open>Witnesses\<close>

text \<open>
  Caller 0 transfers the ownership of the received packet it holds, and a build
  from a buffer of one byte with length 2 reads past the buffer.
\<close>

theorem held_call_refines_packet_call_witness:
  "(\<exists>pl'. api_step ficr_platform (two_packets [1, 0] rx_packet blank_packet)
             (TakeOwnership 0x20000000) = Inr (Ret RetVoid, pl') \<and>
          packet_at pl' 0x20000000 = Inr (local_addr_stamp ficr_platform rx_packet)) \<and>
   api_step ficr_platform (two_packets [1, 0] rx_packet blank_packet)
     (Build (Some 0x20000000) 0x1234 7 (Some [0xAA]) 2) = Inl OutOfBounds"
  using held_call_refines_packet_call
      [OF shared_two_packets_1, of 0 "0x20000000" "TakeOwnership 0x20000000"]
    held_call_refines_packet_call
      [OF shared_two_packets_1, of 0 "0x20000000"
        "Build (Some 0x20000000) 0x1234 7 (Some [0xAA]) 2"]
  by (auto simp: length_overruns_legal data_fits_def mesh_consts)

text \<open>
  Caller 0 builds in the slot it holds; caller 1 acquires the other slot and builds
  there; caller 0 reads its handle back.
\<close>

theorem built_packet_read_back_witness:
  "api_step ficr_platform
     (two_packets [1, 1]
        (built_packet ficr_platform rx_packet 0x4321 2 (Some [0x01, 0x02, 0x03]) 3)
        (built_packet ficr_platform blank_packet 0x1234 7 (Some [0xAA, 0xBB, 0xCC]) 3))
     (HandleGet (Some 0x20000000)) =
   Inr (RetHandle 0x4321,
     two_packets [1, 1]
        (built_packet ficr_platform rx_packet 0x4321 2 (Some [0x01, 0x02, 0x03]) 3)
        (built_packet ficr_platform blank_packet 0x1234 7 (Some [0xAA, 0xBB, 0xCC]) 3))"
proof -
  have "api_step ficr_platform (two_packets [1, 0] rx_packet blank_packet)
          (Build (Some 0x20000000) 0x4321 2 (Some [0x01, 0x02, 0x03]) 3) =
        Inr (RetCode NRF_SUCCESS, two_packets [1, 0]
          (built_packet ficr_platform rx_packet 0x4321 2 (Some [0x01, 0x02, 0x03]) 3)
          blank_packet)"
    by (simp add: api_step.simps with_packet_opt_def with_packet_def mesh_packet_build_ok
        mesh_consts)
  from built_packet_read_back [OF shared_two_packets_1 _ _ this others_run_two_packets]
  show ?thesis by simp
qed

text \<open>Caller 0 holds the first slot of the pool of two packets and gives it back.\<close>

theorem pool_drains_witness:
  "\<exists>pl'. rtranclp (any_step ficr_platform)
          (two_packets [1, 0] rx_packet blank_packet, {#(0 :: nat, 0x20000000)#}) (pl', {#}) \<and>
        rtranclp release_step
          (two_packets [1, 0] rx_packet blank_packet, {#(0 :: nat, 0x20000000)#}) (pl', {#}) \<and>
        g_packet_refs pl' = [0, 0] \<and> g_packet_pool pl' = [rx_packet, blank_packet]"
proof -
  have "replicate 2 (0 :: uint8_t) = [0, 0]" by (simp add: numeral_2_eq_2)
  moreover from pool_drains [OF shared_two_packets_1] obtain pl'
    where "rtranclp (any_step ficr_platform)
          (two_packets [1, 0] rx_packet blank_packet, {#(0 :: nat, 0x20000000)#}) (pl', {#})"
      and "rtranclp release_step
          (two_packets [1, 0] rx_packet blank_packet, {#(0 :: nat, 0x20000000)#}) (pl', {#})"
      and "g_packet_refs pl' = replicate 2 0" and "g_packet_pool pl' = [rx_packet, blank_packet]"
    by (auto simp only: two_packets_simps)
  ultimately show ?thesis by (intro exI [of _ pl']) (simp only: simp_thms)
qed

end
