(* ===== verification/Stray_Calls.thy ===== *)
theory Stray_Calls
  imports Holders Pool_Pointers
begin

text \<open>
  Callers that do not keep the discipline. The states of \<open>shared\<close> are reached by
  callers that pass to every function only references they hold. Here any caller
  may also make any call of the interface with any argument, as long as the call
  is not one of the two that lower a count, \<^verbatim>\<open>mesh_packet_init\<close> and
  \<^verbatim>\<open>mesh_packet_ref_count_dec\<close>: a packet function on a pointer it does not hold,
  \<^verbatim>\<open>mesh_packet_ref_count_inc\<close> on any address, \<^verbatim>\<open>mesh_packet_acquire\<close> with the
  pointer thrown away. Such calls overwrite packets under their holders and lose
  slots to the pool, but they never make the pool hand out a slot that is held:
  the count of a slot stays at or above the number of references held to it.
\<close>

section \<open>Steps outside the discipline\<close>

text \<open>The calls that lower a reference count.\<close>

fun frees :: "api_op \<Rightarrow> bool" where
  "frees (Pool Init) = True"
| "frees (Pool (RefCountDec p)) = True"
| "frees x = False"

text \<open>
  \<open>lax_step\<close>: a step of a caller under the discipline, or a call of anyone that
  is not on record: it changes the pool and nobody's holdings.
\<close>

inductive lax_step ::
    "platform \<Rightarrow> mesh_pool \<times> 'c holdings \<Rightarrow> mesh_pool \<times> 'c holdings \<Rightarrow> bool"
  for pf :: platform where
  kept: "call_step pf c s s' \<Longrightarrow> lax_step pf s s'"
| stray: "\<not> frees x \<Longrightarrow> api_step pf pl x = Inr (r, pl') \<Longrightarrow> lax_step pf (pl, H) (pl', H)"

text \<open>
  \<open>counts_cover pl H\<close>: the references \<open>H\<close> are addresses of slots, and the count of
  every slot is at least the number of references to it.
\<close>

definition counts_cover :: "mesh_pool \<Rightarrow> uint32_t multiset \<Rightarrow> bool" where
  "counts_cover pl H \<longleftrightarrow>
     pool_wf pl \<and>
     (\<forall>p. p \<in># H \<longrightarrow> (\<exists>i < MESH_PACKET_POOL_SIZE pl. p = packet_ptr pl i)) \<and>
     (\<forall>i < MESH_PACKET_POOL_SIZE pl. count H (packet_ptr pl i) \<le> unat (g_packet_refs pl ! i))"

section \<open>The counts cover the references held\<close>

text \<open>
  The counts are those of the references held together with the references \<open>S\<close>
  that stray calls have made and nobody has on record.
\<close>

lemma counts_agree_cover:
  assumes "counts_agree pl (H + S)"
  shows "counts_cover pl H"
  using counts_agreeD [OF assms] by (simp add: counts_cover_def)

lemma counts_cover_acquire:
  assumes "counts_cover pl H" and "mesh_packet_acquire pl = (Some p, pl')"
  shows "p \<notin># H"
proof -
  from assms(2) obtain i where "first_free (g_packet_refs pl) = Some i" and p: "p = packet_ptr pl i"
    by (auto simp: mesh_packet_acquire_Some_iff)
  then have "i < MESH_PACKET_POOL_SIZE pl" "g_packet_refs pl ! i = 0"
    by (auto simp: first_free_Some MESH_PACKET_POOL_SIZE_def)
  with assms(1) have "count H (packet_ptr pl i) = 0"
    by (auto simp: counts_cover_def)
  then show ?thesis by (simp add: p count_eq_zero_iff)
qed

text \<open>An increment through any address inside a slot is a reference to that slot.\<close>

lemma counts_agree_stray_retain:
  assumes ca: "counts_agree pl H" and room: "pool_room pl"
    and inc: "mesh_packet_ref_count_inc pl p = Inr (b, pl')"
  shows "\<exists>S. counts_agree pl' (H + S)"
proof (cases "ptr_class_of pl p")
  case Foreign
  with inc ca show ?thesis
    by (auto simp: ref_count_inc_class [OF room] intro: exI [of _ "{#}"])
next
  case PastEnd
  with inc show ?thesis by (simp add: ref_count_inc_class [OF room])
next
  case (Slot i)
  let ?r = "g_packet_refs pl ! i"
  from Slot have i: "i < MESH_PACKET_POOL_SIZE pl"
    by (simp add: packet_index_classD(3) [OF room])
  from Slot inc have r: "?r \<noteq> 255" and pl': "pl' = pl\<lparr>g_packet_refs := (g_packet_refs pl)[i := ?r + 1]\<rparr>"
    by (auto simp: ref_count_inc_class [OF room] split: if_splits)
  from r have "unat (?r + 1) = unat ?r + 1" by (rule unat_plus_one_u8)
  with counts_agreeD(3) [OF ca i]
  have "unat (?r + 1) = count (H + {#packet_ptr pl i#}) (packet_ptr pl i)" by simp
  with ca i have "counts_agree pl' (H + {#packet_ptr pl i#})"
    unfolding pl' by (rule counts_agree_update) simp
  then show ?thesis ..
qed

text \<open>An acquisition whose pointer is thrown away is a reference to the slot it found.\<close>

lemma counts_agree_stray_acquire:
  assumes ca: "counts_agree pl H" and acq: "mesh_packet_acquire pl = (q, pl')"
  shows "\<exists>S. counts_agree pl' (H + S)"
proof (cases q)
  case None
  with acq ca have "counts_agree pl' (H + {#})" by (simp add: mesh_packet_acquire_None_iff)
  then show ?thesis ..
next
  case (Some p)
  with acq ca have "counts_agree pl' (H + {#p#})" by (simp add: counts_agree_acquire(1))
  then show ?thesis ..
qed

text \<open>A stray call leaves the counts those of the references held and of some others.\<close>

lemma stray_call_counts:
  assumes pf: "platform_wf pf" and room: "pool_room pl" and ca: "counts_agree pl H"
    and x: "\<not> frees x" and s: "api_step pf pl x = Inr (r, pl')"
  shows "\<exists>S. counts_agree pl' (H + S)"
proof (cases "\<exists>y. x = Pool y")
  case False
  with api_step_frame(1,4) [OF pf s]
  have "pool_addr pl' = pool_addr pl" "g_packet_refs pl' = g_packet_refs pl" by simp_all
  moreover have "pool_wf pl'"
    using pf counts_agreeD(1) [OF ca] s by (rule api_step_wf)
  ultimately have "counts_agree pl' (H + {#})" using ca by (simp add: counts_agree_packets)
  then show ?thesis ..
next
  case True
  then obtain y where y: "x = Pool y" ..
  show ?thesis
  proof (cases y)
    case TsBegin
    with s y ca have "counts_agree pl' (H + {#})"
      by (auto simp: api_step.simps bindR_eq_Inr_iff mesh_packet_on_ts_begin_def)
    then show ?thesis ..
  next
    case Acquire
    with s y obtain q where "mesh_packet_acquire pl = (q, pl')"
      by (auto simp: api_step.simps bindR_eq_Inr_iff split: prod.splits)
    with ca show ?thesis by (rule counts_agree_stray_acquire)
  next
    case (RefCountInc p)
    with s y obtain b where "mesh_packet_ref_count_inc pl p = Inr (b, pl')"
      by (auto simp: api_step.simps bindR_eq_Inr_iff)
    with ca room show ?thesis by (rule counts_agree_stray_retain)
  qed (use x y in simp_all)
qed

lemma lax_step_counts:
  assumes pf: "platform_wf pf" and room: "pool_room pl"
    and ca: "counts_agree pl (held_refs H + S)" and step: "lax_step pf (pl, H) (pl', H')"
  shows "pool_room pl' \<and> (\<exists>S'. counts_agree pl' (held_refs H' + S'))"
  using step
proof (cases rule: lax_step.cases)
  case (kept c)
  from pf ca kept have "counts_agree pl' (held_refs H' + S)"
    by (rule call_step_counts_agree_plus)
  moreover from call_step_frame [OF pf kept] room have "pool_room pl'"
    by (simp add: pool_room_def)
  ultimately show ?thesis by blast
next
  case (stray x r)
  from stray_call_counts [OF pf room ca stray(2,3)]
  obtain S' where "counts_agree pl' (held_refs H + S + S')" ..
  then have "counts_agree pl' (held_refs H' + (S + S'))"
    by (simp add: stray(1) add.assoc)
  moreover from api_step_frame(1,2) [OF pf stray(3)] room have "pool_room pl'"
    by (simp add: pool_room_def)
  ultimately show ?thesis by blast
qed

lemma lax_run_counts:
  assumes "rtranclp (lax_step pf) s s'" and "platform_wf pf" and "pool_room (fst s)"
    and "\<exists>S. counts_agree (fst s) (held_refs (snd s) + S)"
  shows "pool_room (fst s') \<and> (\<exists>S. counts_agree (fst s') (held_refs (snd s') + S))"
  using assms
proof (induction rule: rtranclp_induct)
  case base
  then show ?case by simp
next
  case (step s1 s2)
  then obtain S where "pool_room (fst s1)" "counts_agree (fst s1) (held_refs (snd s1) + S)"
    by blast
  with step.prems(1) step.hyps(2) show ?case
    using lax_step_counts [of pf "fst s1" "snd s1" S "fst s2" "snd s2"] by simp
qed

text \<open>
  A slot counted for a reference that nobody has on record is lost: whatever the
  callers do under the discipline, \<^verbatim>\<open>mesh_packet_acquire\<close> does not return it again.
\<close>

lemma leaked_slot_stays_taken:
  assumes "platform_wf pf" and "rtranclp (any_step pf) s s'"
    and "counts_agree (fst s) (held_refs (snd s) + S)" and "p \<in># S"
  shows "mesh_packet_acquire (fst s') \<noteq> (Some p, pl'')"
proof -
  from assms(2,3) have "counts_agree (fst s') (held_refs (snd s') + S)"
  proof (induction rule: rtranclp_induct)
    case (step s1 s2)
    then show ?case
      using call_step_counts_agree_plus [OF assms(1), of "fst s1" "snd s1" S _ "fst s2" "snd s2"]
      by (auto simp: any_step_def)
  qed
  with assms(4) show ?thesis by (auto dest: counts_agree_acquire(2))
qed

section \<open>\<^verbatim>\<open>NULL\<close> where a function does not test for it\<close>

text \<open>
  \<^verbatim>\<open>mesh_packet_build\<close>, \<^verbatim>\<open>mesh_packet_adv_data_get\<close> and the two functions that
  call the latter first return an error for \<^verbatim>\<open>NULL\<close>. The other three packet
  functions use their argument as it is: address 0 is the address of no slot
  unless the pool starts there, and the call is an access outside the pool. The
  interface reads the slot before it runs the function, so this is the outcome
  also of \<^verbatim>\<open>mesh_packet_set_local_addr\<close> on a device whose SoftDevice does not
  give its address, where the code returns before it uses the pointer.
\<close>

lemma packet_at_NULL:
  assumes "pool_wf pl" and "pool_addr pl \<noteq> 0"
  shows "packet_at pl 0 = Inl OutOfBounds"
proof (rule ccontr)
  assume "packet_at pl 0 \<noteq> Inl OutOfBounds"
  then obtain i where i: "i < MESH_PACKET_POOL_SIZE pl" and p: "packet_ptr pl i = 0"
    using assms(1)
    by (auto simp: packet_at_def Let_def rd_def pool_wf_def split: if_splits)
  from ptr_class_of_slot [OF assms(1) i, of 0] p have "ptr_class_of pl 0 = Slot i" by simp
  moreover from assms(2) have "ptr_class_of pl 0 = Foreign"
    by (intro ptr_class_of_cases(1)) (simp add: unat_gt_0)
  ultimately show False by simp
qed

lemma null_calls_fault:
  assumes "pool_wf pl" and "pool_addr pl \<noteq> 0"
  shows "api_step pf pl (SetLocalAddr 0) = Inl OutOfBounds"
    and "api_step pf pl (HasAdditionalData 0) = Inl OutOfBounds"
    and "api_step pf pl (TakeOwnership 0) = Inl OutOfBounds"
  by (simp_all add: api_step.simps with_packet_def packet_at_NULL [OF assms])

lemma null_calls_return:
  "api_step pf pl (Build None hdl ver data len) = Inr (RetCode NRF_ERROR_NULL, pl)"
  "api_step pf pl (AdvDataSanitize None) = Inr (RetCode NRF_ERROR_INVALID_DATA, pl)"
  "api_step pf pl (AdvDataGet None) = Inr (RetAdvData None, pl)"
  "api_step pf pl (HandleGet None) = Inr (RetHandle RBC_MESH_INVALID_HANDLE, pl)"
  by (simp_all add: api_step.simps with_packet_opt_def read_packet_opt_def
      mesh_packet_build_def mesh_packet_adv_data_sanitize_def mesh_packet_adv_data_get_def
      mesh_packet_handle_get_def)

section \<open>Properties of the calls outside the discipline\<close>

text \<open>
  C13. Only the calls that lower a count need the discipline for the pool to be safe.
  From a state reached under the discipline, let the callers go on with steps of
  the discipline and with any other calls of the interface that return, made by
  anyone with any pointer, except \<^verbatim>\<open>mesh_packet_init\<close> and
  \<^verbatim>\<open>mesh_packet_ref_count_dec\<close>. Then every reference held is still the address of
  a slot whose count is at least the number of references held to it, and
  \<^verbatim>\<open>mesh_packet_acquire\<close> never returns a pointer that is held.
\<close>

theorem stray_calls_keep_acquire_safe:
  assumes "shared pf pl H" and "pool_room pl" and "rtranclp (lax_step pf) (pl, H) (pl', H')"
  shows "counts_cover pl' (held_refs H') \<and>
         (\<forall>p pl''. mesh_packet_acquire pl' = (Some p, pl'') \<longrightarrow> p \<notin># held_refs H')"
proof -
  from shared_counts_agree [OF assms(1)]
  have pf: "platform_wf pf" and ca: "counts_agree pl (held_refs H)" by simp_all
  from ca have "\<exists>S. counts_agree (fst (pl, H)) (held_refs (snd (pl, H)) + S)"
    by (intro exI [of _ "{#}"]) simp
  from lax_run_counts [OF assms(3) pf _ this] assms(2)
  obtain S where "counts_agree pl' (held_refs H' + S)" by auto
  then have "counts_cover pl' (held_refs H')" by (rule counts_agree_cover)
  then show ?thesis by (blast dest: counts_cover_acquire)
qed

section \<open>Witnesses\<close>

text \<open>
  Caller 0 holds the first slot of the pool of two packets with a received packet
  in it. Someone increments the count through an address three bytes into that
  slot, and someone builds a packet in it.
\<close>

lemma two_packets_room [simp]: "pool_room (two_packets [r0, r1] a b)"
  by (simp add: pool_room_def sizeof_mesh_packet_t_eq)

lemma lax_run_two_packets:
  "rtranclp (lax_step ficr_platform)
     (two_packets [1, 0] rx_packet blank_packet, {#(0 :: nat, 0x20000000)#})
     (two_packets [2, 0] (built_packet ficr_platform rx_packet 0x1234 7 None 0) blank_packet,
      {#(0, 0x20000000)#})"
proof -
  let ?H = "{#(0 :: nat, 0x20000000 :: uint32_t)#}"
  have "lax_step ficr_platform (two_packets [1, 0] rx_packet blank_packet, ?H)
          (two_packets [2, 0] rx_packet blank_packet, ?H)"
    by (rule lax_step.stray [where x = "Pool (RefCountInc 0x20000003)" and r = "Ret (RetBool True)"])
       (simp_all add: mesh_packet_ref_count_inc_def packet_index_alt sizeof_mesh_packet_t_eq
          rd_in wr_in Let_def)
  moreover have "lax_step ficr_platform (two_packets [2, 0] rx_packet blank_packet, ?H)
          (two_packets [2, 0] (built_packet ficr_platform rx_packet 0x1234 7 None 0) blank_packet, ?H)"
    by (rule lax_step.stray [where x = "Build (Some 0x20000000) 0x1234 7 None 0"
            and r = "RetCode NRF_SUCCESS"])
       (simp_all add: api_step.simps with_packet_opt_def with_packet_def mesh_packet_build_ok
          mesh_consts)
  ultimately show ?thesis by (rule converse_rtranclp_into_rtranclp [OF _ r_into_rtranclp])
qed

theorem stray_calls_keep_acquire_safe_witness:
  "counts_cover
     (two_packets [2, 0] (built_packet ficr_platform rx_packet 0x1234 7 None 0) blank_packet)
     {#0x20000000#} \<and>
   mesh_packet_acquire
     (two_packets [2, 0] (built_packet ficr_platform rx_packet 0x1234 7 None 0) blank_packet) =
   (Some 0x20000028,
    two_packets [2, 1] (built_packet ficr_platform rx_packet 0x1234 7 None 0) blank_packet)"
  using stray_calls_keep_acquire_safe [OF shared_two_packets_1 _ lax_run_two_packets]
  by simp

text \<open>
  What is lost. Caller 0 is the only holder of the first slot, and the packet it
  received there has been replaced; and once it has released its reference the
  count of the slot is 1 with no reference held, so the slot is not handed out
  again.
\<close>

lemma stray_build_overwrites_held_packet:
  "exclusive (0 :: nat) 0x20000000 {#(0, 0x20000000)#} \<and>
   packet_at (two_packets [1, 0] rx_packet blank_packet) 0x20000000 = Inr rx_packet \<and>
   packet_at
     (two_packets [2, 0] (built_packet ficr_platform rx_packet 0x1234 7 None 0) blank_packet)
     0x20000000 \<noteq> Inr rx_packet"
proof -
  have "length_field (header (built_packet ficr_platform rx_packet 0x1234 7 None 0)) \<noteq>
        length_field (header rx_packet)"
    by (simp add: built_packet_def Let_def rx_packet_def mesh_consts)
  then show ?thesis by (auto simp: exclusive_def)
qed

lemma stray_retain_loses_slot:
  assumes "packet_wf a" and "packet_wf b"
    and "rtranclp (any_step ficr_platform) (two_packets [1, 0] a b, ({#} :: nat holdings)) (pl', H')"
  shows "mesh_packet_acquire pl' \<noteq> (Some 0x20000000, pl'')"
proof -
  from shared_counts_agree [OF shared_two_packets_1] assms(1,2)
  have "counts_agree (two_packets [1, 0] a b) {#0x20000000#}"
    by (auto intro: counts_agree_packets)
  then show ?thesis
    using leaked_slot_stays_taken [OF ficr_platform_wf assms(3), of "{#0x20000000#}" "0x20000000"]
    by simp
qed

end
