(* ===== verification/Schedules.thy ===== *)
theory Schedules
  imports Holders
begin

text \<open>
  The steps of the callers as a function. A call names the caller that makes it and
  what it passes; \<open>do_call\<close> is the state after it, or \<open>None\<close> when the call is not
  one the discipline allows or does not return. A schedule is a list of calls. The
  steps of \<open>call_step\<close> are the calls that \<open>do_call\<close> accepts, and the states of
  \<open>shared\<close> are those that schedules reach from an initialised pool, so that a state
  is shown to be reachable by running a schedule.
\<close>

section \<open>Calls and schedules\<close>

datatype 'c call =
    Acquires 'c
  | Retains 'c uint32_t 'c
  | Releases 'c uint32_t
  | Hands 'c uint32_t 'c
  | Calls 'c api_op

fun caller :: "'c call \<Rightarrow> 'c" where
  "caller (Acquires c) = c"
| "caller (Retains c p c') = c"
| "caller (Releases c p) = c"
| "caller (Hands c p c') = c"
| "caller (Calls c x) = c"

fun do_call ::
    "platform \<Rightarrow> 'c call \<Rightarrow> mesh_pool \<times> 'c holdings \<Rightarrow> (mesh_pool \<times> 'c holdings) option" where
  "do_call pf (Acquires c) (pl, H) =
     (case api_step pf pl (Pool Acquire) of
        Inr (Ret (RetPacket (Some p)), pl') \<Rightarrow> Some (pl', add_mset (c, p) H)
      | Inr (Ret (RetPacket None), pl') \<Rightarrow> Some (pl', H)
      | _ \<Rightarrow> None)"
| "do_call pf (Retains c p c') (pl, H) =
     (if (c, p) \<in># H
      then (case api_step pf pl (Pool (RefCountInc p)) of
              Inr (Ret (RetBool True), pl') \<Rightarrow> Some (pl', add_mset (c', p) H)
            | _ \<Rightarrow> None)
      else None)"
| "do_call pf (Releases c p) (pl, H) =
     (if (c, p) \<in># H
      then (case api_step pf pl (Pool (RefCountDec p)) of
              Inr (Ret (RetBool True), pl') \<Rightarrow> Some (pl', H - {#(c, p)#})
            | _ \<Rightarrow> None)
      else None)"
| "do_call pf (Hands c p c') (pl, H) =
     (if (c, p) \<in># H then Some (pl, add_mset (c', p) (H - {#(c, p)#})) else None)"
| "do_call pf (Calls c x) (pl, H) =
     (case op_packet x of
        Some p \<Rightarrow>
          if (c, p) \<in># H
          then (case api_step pf pl x of Inr (r, pl') \<Rightarrow> Some (pl', H) | Inl e \<Rightarrow> None)
          else None
      | None \<Rightarrow> None)"

fun schedule ::
    "platform \<Rightarrow> 'c call list \<Rightarrow> mesh_pool \<times> 'c holdings \<Rightarrow> (mesh_pool \<times> 'c holdings) option" where
  "schedule pf [] s = Some s"
| "schedule pf (x # xs) s = (case do_call pf x s of Some s' \<Rightarrow> schedule pf xs s' | None \<Rightarrow> None)"

section \<open>The calls are the steps\<close>

lemmas call_splits =
  sum.splits prod.splits option.splits api_ret.splits pool_ret.splits bool.splits if_splits

lemma do_call_step:
  assumes "do_call pf x s = Some s'"
  shows "call_step pf (caller x) s s'"
proof (cases s)
  case (Pair pl H)
  with assms show ?thesis
    by (cases x) (auto split: call_splits intro: call_step.intros)
qed

lemma call_step_do_call:
  assumes "call_step pf c s s'"
  shows "\<exists>x. caller x = c \<and> do_call pf x s = Some s'"
  using assms
proof (cases rule: call_step.cases)
  case (acquire pl p pl' H)
  then have "do_call pf (Acquires c) s = Some s'" by (simp add: api_step.simps)
  then show ?thesis by (intro exI [of _ "Acquires c"]) simp
next
  case (exhausted pl pl' H)
  then have "do_call pf (Acquires c) s = Some s'" by (simp add: api_step.simps)
  then show ?thesis by (intro exI [of _ "Acquires c"]) simp
next
  case (retain p H pl pl' c')
  then have "do_call pf (Retains c p c') s = Some s'" by (simp add: api_step.simps)
  then show ?thesis by (intro exI [of _ "Retains c p c'"]) simp
next
  case (release p H pl pl')
  then have "do_call pf (Releases c p) s = Some s'" by (simp add: api_step.simps)
  then show ?thesis by (intro exI [of _ "Releases c p"]) simp
next
  case (hand_over p H pl c')
  then have "do_call pf (Hands c p c') s = Some s'" by simp
  then show ?thesis by (intro exI [of _ "Hands c p c'"]) simp
next
  case (packet p H x pl r pl')
  then have "do_call pf (Calls c x) s = Some s'" by simp
  then show ?thesis by (intro exI [of _ "Calls c x"]) simp
qed

lemma call_step_iff_do_call:
  "call_step pf c s s' \<longleftrightarrow> (\<exists>x. caller x = c \<and> do_call pf x s = Some s')"
  by (auto dest: call_step_do_call do_call_step)

section \<open>Schedules are the runs\<close>

lemma schedule_append:
  "schedule pf (xs @ ys) s = (case schedule pf xs s of Some s' \<Rightarrow> schedule pf ys s' | None \<Rightarrow> None)"
  by (induction xs arbitrary: s) (auto split: option.splits)

lemma schedule_run:
  "schedule pf xs s = Some s' \<Longrightarrow> rtranclp (any_step pf) s s'"
proof (induction xs arbitrary: s)
  case Nil
  then show ?case by simp
next
  case (Cons x xs)
  then obtain s1 where "do_call pf x s = Some s1" and "schedule pf xs s1 = Some s'"
    by (auto split: option.splits)
  with Cons.IH [of s1] show ?case
    by (auto simp: any_step_def dest!: do_call_step intro: converse_rtranclp_into_rtranclp)
qed

lemma run_schedule:
  "rtranclp (any_step pf) s s' \<Longrightarrow> \<exists>xs. schedule pf xs s = Some s'"
proof (induction rule: rtranclp_induct)
  case base
  have "schedule pf [] s = Some s" by simp
  then show ?case ..
next
  case (step s1 s2)
  then obtain xs x where "schedule pf xs s = Some s1" and "do_call pf x s1 = Some s2"
    by (auto simp: any_step_def dest!: call_step_do_call)
  then have "schedule pf (xs @ [x]) s = Some s2" by (simp add: schedule_append)
  then show ?case ..
qed

text \<open>The states of \<open>shared\<close> are the states schedules reach after initialisation.\<close>

lemma shared_schedule:
  assumes "platform_wf pf" and "pool_wf pl0"
    and "schedule pf xs (mesh_packet_init pl0, {#}) = Some (pl, H)"
  shows "shared pf pl H"
proof -
  have "rtranclp (any_step pf) s s' \<Longrightarrow> shared pf (fst s) (snd s) \<Longrightarrow> shared pf (fst s') (snd s')"
    for s s' :: "mesh_pool \<times> 'a holdings"
    by (induction rule: rtranclp_induct) (auto simp: any_step_def intro: shared_step)
  from this [OF schedule_run [OF assms(3)]] shared_init [OF assms(1,2)] show ?thesis by simp
qed

lemma shared_iff_schedule:
  "shared pf pl H \<longleftrightarrow>
   platform_wf pf \<and>
   (\<exists>pl0 xs. pool_wf pl0 \<and> schedule pf xs (mesh_packet_init pl0, {#}) = Some (pl, H))"
proof
  show "shared pf pl H \<Longrightarrow> platform_wf pf \<and>
      (\<exists>pl0 xs. pool_wf pl0 \<and> schedule pf xs (mesh_packet_init pl0, {#}) = Some (pl, H))"
  proof (induction rule: shared.induct)
    case (shared_init pl)
    then have "pool_wf pl \<and> schedule pf [] (mesh_packet_init pl, {#}) = Some (mesh_packet_init pl, {#})"
      by simp
    with shared_init show ?case by blast
  next
    case (shared_step pl H c pl' H')
    then obtain pl0 xs x where "platform_wf pf" and "pool_wf pl0"
      and "schedule pf xs (mesh_packet_init pl0, {#}) = Some (pl, H)"
      and "do_call pf x (pl, H) = Some (pl', H')"
      by (auto dest!: call_step_do_call)
    then have "pool_wf pl0 \<and> schedule pf (xs @ [x]) (mesh_packet_init pl0, {#}) = Some (pl', H')"
      by (simp add: schedule_append)
    with \<open>platform_wf pf\<close> show ?case by blast
  qed
qed (auto intro: shared_schedule)

section \<open>A schedule of two callers\<close>

text \<open>
  After initialisation caller 0 acquires the first slot, builds a packet in it and retains it for caller
  1; caller 0 releases, caller 1 acquires the second slot and releases the first.
  The state after the schedule is one of \<open>shared\<close>. A release by caller 1 of a
  reference it does not hold is no call of a schedule.
\<close>

lemma schedule_two_callers:
  "schedule ficr_platform
     [Acquires 0, Calls 0 (Build (Some 0x20000000) 0x1234 7 None 0), Retains 0 0x20000000 1,
      Releases 0 0x20000000, Acquires 1, Releases 1 0x20000000]
     (mesh_packet_init (two_packets [0, 0] blank_packet blank_packet), ({#} :: nat holdings)) =
   Some (two_packets [0, 1] (built_packet ficr_platform blank_packet 0x1234 7 None 0) blank_packet,
         {#(1, 0x20000028)#})"
  by (simp add: api_step.simps with_packet_def with_packet_opt_def mesh_packet_build_ok)

lemma shared_two_callers:
  "shared ficr_platform
     (two_packets [0, 1] (built_packet ficr_platform blank_packet 0x1234 7 None 0) blank_packet)
     {#(1 :: nat, 0x20000028)#}"
  by (rule shared_schedule [OF ficr_platform_wf _ schedule_two_callers]) simp

lemma stray_release_no_call:
  "do_call pf (Releases (1 :: nat) 0x20000000) (pl, {#(0, 0x20000000)#}) = None"
  by simp

end
