(* ===== verification/Preemption.thy ===== *)
theory Preemption
  imports Pool_Machine
begin

text \<open>
  The pool operations between their memory accesses. \<^verbatim>\<open>mesh_packet.c\<close> takes no
  lock and masks no interrupt, so a caller in a handler can run between the read
  of a reference count and the write that follows it. The operations are split
  at that point into stages: \<^verbatim>\<open>mesh_packet_acquire\<close> into the scan up to the
  successful test and the claim of the slot found,
  \<^verbatim>\<open>mesh_packet_ref_count_inc\<close> into the load of the count and the store of the
  incremented value, and \<^verbatim>\<open>mesh_packet_ref_count_dec\<close> into its test, the load
  of the count and the store of the decremented value. Run back to back the
  stages are the operations; with a complete operation of another caller between
  them they are not.
\<close>

section \<open>The stages\<close>

text \<open>The loop of \<^verbatim>\<open>mesh_packet_acquire\<close> up to the test that succeeds.\<close>

definition acquire_find :: "mesh_pool \<Rightarrow> nat option" where
  "acquire_find pl = acquire_scan (g_packet_refs pl) 0"

text \<open>The body of the \<^verbatim>\<open>if\<close>: the count is set, the pointer is returned.\<close>

definition acquire_claim :: "mesh_pool \<Rightarrow> nat \<Rightarrow> uint32_t option \<times> mesh_pool" where
  "acquire_claim pl i =
     (Some (packet_ptr pl i), pl\<lparr>g_packet_refs := (g_packet_refs pl)[i := 1]\<rparr>)"

text \<open>
  \<^verbatim>\<open>mesh_packet_ref_count_inc\<close> up to the read of the count: \<open>None\<close> is the early
  \<^verbatim>\<open>return false\<close>, \<open>Some\<close> the index and the value read.
\<close>

definition ref_count_load :: "mesh_pool \<Rightarrow> uint32_t \<Rightarrow> (nat \<times> uint8_t) option result" where
  "ref_count_load pl p_packet =
     (let index = packet_index pl p_packet in
      if index > MESH_PACKET_POOL_SIZE pl then Inr None
      else bindR (rd (g_packet_refs pl) index) (\<lambda>r. Inr (Some (index, r))))"

text \<open>The rest of the increment: the store of the value read plus one, and the test for rollover.\<close>

definition ref_count_inc_store :: "mesh_pool \<Rightarrow> nat \<Rightarrow> uint8_t \<Rightarrow> (bool \<times> mesh_pool) result" where
  "ref_count_inc_store pl index r =
     bindR (wr (g_packet_refs pl) index (r + 1)) (\<lambda>refs.
     bindR (if r + 1 = 0 then APP_ERROR_CHECK NRF_ERROR_NO_MEM else Inr ()) (\<lambda>_.
       Inr (True, pl\<lparr>g_packet_refs := refs\<rparr>)))"

text \<open>
  \<^verbatim>\<open>mesh_packet_ref_count_dec\<close> up to its test of the count: \<open>None\<close> is one of
  the two \<^verbatim>\<open>return false\<close>, \<open>Some\<close> the index whose count was found not to be 0.
\<close>

definition ref_count_dec_test :: "mesh_pool \<Rightarrow> uint32_t \<Rightarrow> nat option result" where
  "ref_count_dec_test pl p_packet =
     (let index = packet_index pl p_packet in
      if index > MESH_PACKET_POOL_SIZE pl then Inr None
      else bindR (rd (g_packet_refs pl) index) (\<lambda>r.
             if r = 0 then Inr None else Inr (Some index)))"

text \<open>
  The decrement \<^verbatim>\<open>g_packet_refs[index]--\<close> is a load, a subtraction and a store:
  the load, and the store of the value loaded minus one.
\<close>

definition ref_count_dec_load :: "mesh_pool \<Rightarrow> nat \<Rightarrow> uint8_t result" where
  "ref_count_dec_load pl index = rd (g_packet_refs pl) index"

definition ref_count_dec_store :: "mesh_pool \<Rightarrow> nat \<Rightarrow> uint8_t \<Rightarrow> (bool \<times> mesh_pool) result" where
  "ref_count_dec_store pl index r =
     bindR (wr (g_packet_refs pl) index (r - 1)) (\<lambda>refs.
       Inr (True, pl\<lparr>g_packet_refs := refs\<rparr>))"

section \<open>Without preemption the stages are the operations\<close>

lemma acquire_stages:
  "mesh_packet_acquire pl =
     (case acquire_find pl of Some i \<Rightarrow> acquire_claim pl i | None \<Rightarrow> (None, pl))"
  by (simp add: mesh_packet_acquire_def acquire_find_def acquire_claim_def split: option.split)

lemma ref_count_inc_stages:
  "mesh_packet_ref_count_inc pl p =
     bindR (ref_count_load pl p) (\<lambda>x.
       case x of None \<Rightarrow> Inr (False, pl)
       | Some (index, r) \<Rightarrow> ref_count_inc_store pl index r)"
  by (auto simp: mesh_packet_ref_count_inc_def ref_count_load_def ref_count_inc_store_def
      Let_def rd_def wr_def)

lemma ref_count_dec_stages:
  "mesh_packet_ref_count_dec pl p =
     bindR (ref_count_dec_test pl p) (\<lambda>x.
       case x of None \<Rightarrow> Inr (False, pl)
       | Some index \<Rightarrow>
           bindR (ref_count_dec_load pl index) (\<lambda>r. ref_count_dec_store pl index r))"
  by (auto simp: mesh_packet_ref_count_dec_def ref_count_dec_test_def ref_count_dec_load_def
      ref_count_dec_store_def Let_def rd_def wr_def)

lemma acquire_find_Some:
  "acquire_find pl = Some i \<longleftrightarrow>
   i < MESH_PACKET_POOL_SIZE pl \<and> g_packet_refs pl ! i = 0 \<and> (\<forall>j<i. g_packet_refs pl ! j \<noteq> 0)"
  by (simp add: acquire_find_def acquire_scan_eq_first_free first_free_Some
      MESH_PACKET_POOL_SIZE_def)

section \<open>With preemption\<close>

text \<open>
  The preempted acquisition. The scan has found slot \<open>i\<close> free; before its count is
  set another caller runs a whole \<^verbatim>\<open>mesh_packet_acquire\<close>.
\<close>

lemma preempted_acquire:
  assumes wf: "pool_wf pl" and find: "acquire_find pl = Some i"
  defines "p \<equiv> packet_ptr pl i" and "pl1 \<equiv> pl\<lparr>g_packet_refs := (g_packet_refs pl)[i := 1]\<rparr>"
  shows "mesh_packet_acquire pl = (Some p, pl1)"
    and "acquire_claim pl1 i = (Some p, pl1)"
    and "mesh_packet_ref_count_dec pl1 p = Inr (True, pl)"
proof -
  from find have i: "i < MESH_PACKET_POOL_SIZE pl" and zero: "g_packet_refs pl ! i = 0"
    by (simp_all add: acquire_find_Some)
  show "mesh_packet_acquire pl = (Some p, pl1)"
    using find by (simp add: acquire_stages acquire_claim_def p_def pl1_def)
  show "acquire_claim pl1 i = (Some p, pl1)"
    by (simp add: acquire_claim_def p_def pl1_def)
  have idx: "packet_index pl1 p = i"
    using wf i by (simp add: pl1_def p_def packet_index_ptr)
  have "(g_packet_refs pl)[i := 0] = g_packet_refs pl"
    using zero by (metis list_update_id)
  then show "mesh_packet_ref_count_dec pl1 p = Inr (True, pl)"
    using i idx ref_count_dec_slot [of pl1 p]
    by (simp add: pl1_def MESH_PACKET_POOL_SIZE_def)
qed

text \<open>
  The preempted increment: the count has been read; before the store another
  caller runs a whole \<^verbatim>\<open>mesh_packet_ref_count_inc\<close> on the same packet. The store
  then writes the value the other call has written already, and one of the two
  increments is lost.
\<close>

lemma preempted_retain_loses_update:
  assumes "packet_index pl p < MESH_PACKET_POOL_SIZE pl"
    and "g_packet_refs pl ! packet_index pl p \<noteq> 255"
  defines "i \<equiv> packet_index pl p" and "r \<equiv> g_packet_refs pl ! packet_index pl p"
  defines "pl1 \<equiv> pl\<lparr>g_packet_refs := (g_packet_refs pl)[i := r + 1]\<rparr>"
  shows "ref_count_load pl p = Inr (Some (i, r))"
    and "mesh_packet_ref_count_inc pl p = Inr (True, pl1)"
    and "ref_count_inc_store pl1 i r = Inr (True, pl1)"
  using assms(1,2)
  by (simp_all add: ref_count_load_def ref_count_inc_store_def ref_count_inc_slot i_def r_def
      pl1_def MESH_PACKET_POOL_SIZE_def rd_in wr_in Let_def u8_plus_one_eq_0_iff)

text \<open>
  The preempted decrement. Two callers hold the packet and both release it. The
  first has loaded the count; before its store the second runs a whole
  \<^verbatim>\<open>mesh_packet_ref_count_dec\<close>. The store then writes the value the other call
  has written already: both releases return true, the count is one too high, and
  with no reference left the slot is never free again.
\<close>

lemma preempted_release_loses_update:
  assumes "packet_index pl p < MESH_PACKET_POOL_SIZE pl"
    and "g_packet_refs pl ! packet_index pl p \<noteq> 0"
  defines "i \<equiv> packet_index pl p" and "r \<equiv> g_packet_refs pl ! packet_index pl p"
  defines "pl1 \<equiv> pl\<lparr>g_packet_refs := (g_packet_refs pl)[i := r - 1]\<rparr>"
  shows "ref_count_dec_test pl p = Inr (Some i)"
    and "ref_count_dec_load pl i = Inr r"
    and "mesh_packet_ref_count_dec pl p = Inr (True, pl1)"
    and "ref_count_dec_store pl1 i r = Inr (True, pl1)"
  using assms(1,2)
  by (simp_all add: ref_count_dec_test_def ref_count_dec_load_def ref_count_dec_store_def
      ref_count_dec_slot i_def r_def pl1_def MESH_PACKET_POOL_SIZE_def rd_in wr_in Let_def)

text \<open>
  The test of the count does not keep it from wrapping either: a release that has
  passed the test at count 1 and is preempted by another release of the same
  reference decrements the count from 0 to 255.
\<close>

lemma preempted_release_wraps:
  assumes "packet_index pl p < MESH_PACKET_POOL_SIZE pl"
    and "g_packet_refs pl ! packet_index pl p = 1"
  defines "i \<equiv> packet_index pl p"
  defines "pl1 \<equiv> pl\<lparr>g_packet_refs := (g_packet_refs pl)[i := 0]\<rparr>"
  shows "ref_count_dec_test pl p = Inr (Some i)"
    and "mesh_packet_ref_count_dec pl p = Inr (True, pl1)"
    and "bindR (ref_count_dec_load pl1 i) (ref_count_dec_store pl1 i) =
         Inr (True, pl\<lparr>g_packet_refs := (g_packet_refs pl)[i := 255]\<rparr>)"
proof -
  have wrap: "(- 1 :: uint8_t) = 255" by simp
  from assms(1,2) show "ref_count_dec_test pl p = Inr (Some i)"
    and "mesh_packet_ref_count_dec pl p = Inr (True, pl1)"
    and "bindR (ref_count_dec_load pl1 i) (ref_count_dec_store pl1 i) =
         Inr (True, pl\<lparr>g_packet_refs := (g_packet_refs pl)[i := 255]\<rparr>)"
    by (simp_all add: ref_count_dec_test_def ref_count_dec_load_def ref_count_dec_store_def
        ref_count_dec_slot i_def pl1_def MESH_PACKET_POOL_SIZE_def rd_in wr_in Let_def wrap)
qed

section \<open>Properties\<close>

text \<open>
  C11. An acquisition that is preempted between the test of a count and its store
  hands out a held slot. If the scan has found slot \<open>i\<close> free and another caller then
  acquires, that caller is given slot \<open>i\<close>; the preempted caller, resumed, sets the
  count to 1 once more and is given the same pointer, so two callers hold a slot
  whose count is 1; and the first release by either of them puts the pool back
  into the state in which the slot is free, while the other still uses it.
\<close>

theorem preempted_acquire_hands_out_held_slot:
  assumes "pool_wf pl" and "acquire_find pl = Some i"
  shows "\<exists>p pl1. mesh_packet_acquire pl = (Some p, pl1) \<and>
                acquire_claim pl1 i = (Some p, pl1) \<and>
                g_packet_refs pl1 ! i = 1 \<and>
                mesh_packet_ref_count_dec pl1 p = Inr (True, pl)"
proof -
  from assms(2) have "i < length (g_packet_refs pl)"
    by (simp add: acquire_find_Some MESH_PACKET_POOL_SIZE_def)
  with preempted_acquire [OF assms] show ?thesis by simp
qed

theorem preempted_acquire_hands_out_held_slot_witness:
  "mesh_packet_acquire (two_pool [0, 0]) = (Some 0x20000000, two_pool [1, 0]) \<and>
   acquire_claim (two_pool [1, 0]) 0 = (Some 0x20000000, two_pool [1, 0]) \<and>
   mesh_packet_ref_count_dec (two_pool [1, 0]) 0x20000000 = Inr (True, two_pool [0, 0])"
proof -
  have "acquire_find (two_pool [0, 0]) = Some 0"
    by (simp add: acquire_find_Some)
  from preempted_acquire_hands_out_held_slot [OF _ this] show ?thesis by simp
qed

end
