(* ===== verification/Mutual_Exclusion.thy ===== *)
theory Mutual_Exclusion
  imports Callers Preemption
begin

text \<open>
  The callers of theory \<open>Callers\<close> with the pool functions run in the stages of
  theory \<open>Preemption\<close>. Every caller is idle or between two stages of one call,
  and a step is one stage of one caller. Without further condition the stages of
  different callers interleave freely, which is what the source permits. Under
  mutual exclusion of the pool functions, the condition the callers have to
  provide, a caller runs a stage of a pool function only while no other caller is
  inside one; the packet functions need no lock. Then the staged runs reach the
  states of the atomic calls and no others.
\<close>

section \<open>Stages and steps\<close>

text \<open>Where a caller is inside a call, with the values it has in registers.\<close>

datatype stage =
    Idle
  | AcquireFound nat
  | IncLoaded uint32_t nat uint8_t
  | DecTested uint32_t nat
  | DecLoaded uint32_t nat uint8_t

type_synonym 'c staged = "mesh_pool \<times> 'c holdings \<times> ('c \<Rightarrow> stage)"

text \<open>
  \<open>stage_step pf c s s'\<close>: caller \<open>c\<close> runs one stage. A pool function is entered
  by its first stage and left by its last, which is where the holdings change; the
  packet functions and the passing on of a reference are single steps. A call that
  returns false changes nothing and is left out.
\<close>

inductive stage_step :: "platform \<Rightarrow> 'c \<Rightarrow> 'c staged \<Rightarrow> 'c staged \<Rightarrow> bool"
  for pf :: platform and c :: 'c where
  acquire_find:
    "at c = Idle \<Longrightarrow> acquire_find pl = Some i \<Longrightarrow>
     stage_step pf c (pl, H, at) (pl, H, at(c := AcquireFound i))"
| acquire_claim:
    "at c = AcquireFound i \<Longrightarrow> acquire_claim pl i = (Some p, pl') \<Longrightarrow>
     stage_step pf c (pl, H, at) (pl', add_mset (c, p) H, at(c := Idle))"
| inc_load:
    "at c = Idle \<Longrightarrow> (c, p) \<in># H \<Longrightarrow> ref_count_load pl p = Inr (Some (i, r)) \<Longrightarrow>
     stage_step pf c (pl, H, at) (pl, H, at(c := IncLoaded p i r))"
| inc_store:
    "at c = IncLoaded p i r \<Longrightarrow> ref_count_inc_store pl i r = Inr (True, pl') \<Longrightarrow>
     stage_step pf c (pl, H, at) (pl', add_mset (c', p) H, at(c := Idle))"
| dec_test:
    "at c = Idle \<Longrightarrow> (c, p) \<in># H \<Longrightarrow> ref_count_dec_test pl p = Inr (Some i) \<Longrightarrow>
     stage_step pf c (pl, H, at) (pl, H, at(c := DecTested p i))"
| dec_load:
    "at c = DecTested p i \<Longrightarrow> ref_count_dec_load pl i = Inr r \<Longrightarrow>
     stage_step pf c (pl, H, at) (pl, H, at(c := DecLoaded p i r))"
| dec_store:
    "at c = DecLoaded p i r \<Longrightarrow> ref_count_dec_store pl i r = Inr (True, pl') \<Longrightarrow>
     stage_step pf c (pl, H, at) (pl', H - {#(c, p)#}, at(c := Idle))"
| hand_over:
    "at c = Idle \<Longrightarrow> (c, p) \<in># H \<Longrightarrow>
     stage_step pf c (pl, H, at) (pl, add_mset (c', p) (H - {#(c, p)#}), at)"
| packet:
    "at c = Idle \<Longrightarrow> (c, p) \<in># H \<Longrightarrow> op_packet x = Some p \<Longrightarrow>
     api_step pf pl x = Inr (r, pl') \<Longrightarrow>
     stage_step pf c (pl, H, at) (pl', H, at)"

text \<open>Any caller steps; and a caller steps while all others are idle.\<close>

definition free_step :: "platform \<Rightarrow> 'c staged \<Rightarrow> 'c staged \<Rightarrow> bool" where
  "free_step pf s s' \<longleftrightarrow> (\<exists>c. stage_step pf c s s')"

definition locked_step :: "platform \<Rightarrow> 'c staged \<Rightarrow> 'c staged \<Rightarrow> bool" where
  "locked_step pf s s' \<longleftrightarrow>
     (\<exists>c. stage_step pf c s s' \<and> (\<forall>c'. c' \<noteq> c \<longrightarrow> snd (snd s) c' = Idle))"

text \<open>
  A step that begins, continues or ends a pool function changes the stage of its
  caller; a packet function and the passing on of a reference change no stage.
  With the lock taken around the pool functions only, the steps of the second kind
  are free, also while another caller is inside a pool function.
\<close>

definition pool_stage :: "'c staged \<Rightarrow> 'c staged \<Rightarrow> bool" where
  "pool_stage s s' \<longleftrightarrow> snd (snd s') \<noteq> snd (snd s)"

definition pool_locked_step :: "platform \<Rightarrow> 'c staged \<Rightarrow> 'c staged \<Rightarrow> bool" where
  "pool_locked_step pf s s' \<longleftrightarrow>
     (\<exists>c. stage_step pf c s s' \<and>
          (pool_stage s s' \<longrightarrow> (\<forall>c'. c' \<noteq> c \<longrightarrow> snd (snd s) c' = Idle)))"

section \<open>Under mutual exclusion\<close>

text \<open>
  What a caller between two stages has in registers is still true of the pool:
  nobody has run since it was read.
\<close>

fun stage_ok :: "mesh_pool \<Rightarrow> 'c holdings \<Rightarrow> 'c \<Rightarrow> stage \<Rightarrow> bool" where
  "stage_ok pl H c Idle \<longleftrightarrow> True"
| "stage_ok pl H c (AcquireFound i) \<longleftrightarrow> acquire_find pl = Some i"
| "stage_ok pl H c (IncLoaded p i r) \<longleftrightarrow>
     (c, p) \<in># H \<and> ref_count_load pl p = Inr (Some (i, r))"
| "stage_ok pl H c (DecTested p i) \<longleftrightarrow>
     (c, p) \<in># H \<and> ref_count_dec_test pl p = Inr (Some i)"
| "stage_ok pl H c (DecLoaded p i r) \<longleftrightarrow>
     (c, p) \<in># H \<and> ref_count_dec_test pl p = Inr (Some i) \<and> ref_count_dec_load pl i = Inr r"

definition exclusion :: "platform \<Rightarrow> 'c staged \<Rightarrow> bool" where
  "exclusion pf s \<longleftrightarrow>
     (case s of (pl, H, at) \<Rightarrow>
        shared pf pl H \<and> (\<forall>c. stage_ok pl H c (at c)) \<and>
        (\<forall>c c'. at c \<noteq> Idle \<longrightarrow> at c' \<noteq> Idle \<longrightarrow> c = c'))"

text \<open>The last stage of a call completes the call.\<close>

lemma stages_complete:
  "acquire_find pl = Some i \<Longrightarrow> acquire_claim pl i = (Some p, pl') \<Longrightarrow>
   mesh_packet_acquire pl = (Some p, pl')"
  "ref_count_load pl p = Inr (Some (i, r)) \<Longrightarrow> ref_count_inc_store pl i r = Inr (b, pl') \<Longrightarrow>
   mesh_packet_ref_count_inc pl p = Inr (b, pl')"
  "ref_count_dec_test pl p = Inr (Some i) \<Longrightarrow> ref_count_dec_load pl i = Inr r \<Longrightarrow>
   ref_count_dec_store pl i r = Inr (b, pl') \<Longrightarrow>
   mesh_packet_ref_count_dec pl p = Inr (b, pl')"
  by (simp_all add: acquire_stages ref_count_inc_stages ref_count_dec_stages)

text \<open>
  A stage of a caller whose registers are true of the pool either leaves pool and
  holdings alone, or it is the last stage of a call and the step is that call.
\<close>

lemma stage_step_call:
  assumes "stage_step pf c (pl, H, at) (pl', H', at')" and "stage_ok pl H c (at c)"
  shows "(pl' = pl \<and> H' = H \<and> (\<exists>st. at' = at(c := st) \<and> stage_ok pl H c st)) \<or>
         (call_step pf c (pl, H) (pl', H') \<and> at' = at(c := Idle))"
  using assms
  by (cases rule: stage_step.cases)
     (auto simp: stages_complete fun_upd_idem intro: call_step.intros)

text \<open>The steps that are stages of a pool function are those of a caller inside one.\<close>

lemma pool_stage_iff:
  assumes "stage_step pf c (pl, H, at) (pl', H', at')"
  shows "pool_stage (pl, H, at) (pl', H', at') \<longleftrightarrow> at c \<noteq> Idle \<or> at' c \<noteq> Idle"
  using assms
  by (cases rule: stage_step.cases) (auto simp: pool_stage_def fun_upd_idem_iff dest: fun_cong)

lemma locked_step_pool_locked: "locked_step pf s s' \<Longrightarrow> pool_locked_step pf s s'"
  by (auto simp: locked_step_def pool_locked_step_def)

text \<open>
  What a caller has in registers depends on the counts and on its own references:
  it stays true when another caller writes a packet or passes on a reference.
\<close>

lemma stages_read_counts:
  assumes "g_packet_refs pl' = g_packet_refs pl" and "pool_addr pl' = pool_addr pl"
  shows "acquire_find pl' = acquire_find pl" and "ref_count_load pl' p = ref_count_load pl p"
    and "ref_count_dec_test pl' p = ref_count_dec_test pl p"
    and "ref_count_dec_load pl' i = ref_count_dec_load pl i"
  by (simp_all add: assms acquire_find_def ref_count_load_def ref_count_dec_test_def
      ref_count_dec_load_def packet_index_def MESH_PACKET_POOL_SIZE_def Let_def)

lemma stage_ok_frame:
  assumes "stage_ok pl H c st" and "g_packet_refs pl' = g_packet_refs pl"
    and "pool_addr pl' = pool_addr pl" and "\<And>p. (c, p) \<in># H \<Longrightarrow> (c, p) \<in># H'"
  shows "stage_ok pl' H' c st"
  using assms(1,4) by (cases st) (simp_all add: stages_read_counts [OF assms(2,3)])

text \<open>A step outside the pool functions is a call, and the registers of the others stay true.\<close>

lemma outside_step_call:
  assumes pf: "platform_wf pf" and step: "stage_step pf c (pl, H, at) (pl', H', at')"
    and same: "\<not> pool_stage (pl, H, at) (pl', H', at')" and ok: "stage_ok pl H c' (at c')"
  shows "call_step pf c (pl, H) (pl', H')" and "at' = at" and "stage_ok pl' H' c' (at c')"
proof -
  from same show at': "at' = at" by (simp add: pool_stage_def)
  from pool_stage_iff [OF step] same have idle: "at c = Idle" by simp
  from step idle at' show "call_step pf c (pl, H) (pl', H')"
    by (cases rule: stage_step.cases) (auto simp: fun_upd_idem_iff intro: call_step.intros)
  show "stage_ok pl' H' c' (at c')"
  proof (cases "c' = c")
    case True
    with idle show ?thesis by simp
  next
    case False
    with step idle have "g_packet_refs pl' = g_packet_refs pl" "pool_addr pl' = pool_addr pl"
      "(c', p) \<in># H \<Longrightarrow> (c', p) \<in># H'" for p
      by (cases rule: stage_step.cases;
          auto simp: api_step_refs [OF pf] api_step_frame(1) [OF pf] in_diff_count)+
    with ok show ?thesis by (rule stage_ok_frame)
  qed
qed

lemma pool_locked_step_exclusion:
  assumes "exclusion pf s" and "pool_locked_step pf s s'"
  shows "exclusion pf s'"
proof -
  obtain pl H at pl' H' at' where s: "s = (pl, H, at)" and s': "s' = (pl', H', at')"
    by (cases s, cases s') auto
  from assms(1) have sh: "shared pf pl H" and ok: "stage_ok pl H c (at c)"
    and one: "at c \<noteq> Idle \<Longrightarrow> at c' \<noteq> Idle \<Longrightarrow> c = c'" for c c'
    by (auto simp: exclusion_def s)
  from shared_counts_agree [OF sh] have pf: "platform_wf pf" ..
  from assms(2) obtain c where step: "stage_step pf c (pl, H, at) (pl', H', at')"
    and idle: "\<And>c'. pool_stage (pl, H, at) (pl', H', at') \<Longrightarrow> c' \<noteq> c \<Longrightarrow> at c' = Idle"
    by (auto simp: pool_locked_step_def s s')
  show ?thesis
  proof (cases "pool_stage (pl, H, at) (pl', H', at')")
    case False
    note out = outside_step_call(1,2) [OF pf step False ok]
    from out(1) sh have "shared pf pl' H'" by (blast intro: shared_step)
    moreover have "stage_ok pl' H' c' (at c')" for c'
      by (rule outside_step_call(3) [OF pf step False ok])
    ultimately show ?thesis using one by (auto simp: exclusion_def s' out(2))
  next
    case True
    from stage_step_call [OF step ok] show ?thesis
    proof
      assume "pl' = pl \<and> H' = H \<and> (\<exists>st. at' = at(c := st) \<and> stage_ok pl H c st)"
      with sh idle [OF True] show ?thesis by (auto simp: exclusion_def s' split: if_splits)
    next
      assume "call_step pf c (pl, H) (pl', H') \<and> at' = at(c := Idle)"
      with shared_step [OF sh] idle [OF True] show ?thesis
        by (auto simp: exclusion_def s' split: if_splits)
    qed
  qed
qed

lemma pool_locked_run_exclusion:
  "rtranclp (pool_locked_step pf) s s' \<Longrightarrow> exclusion pf s \<Longrightarrow> exclusion pf s'"
  by (induction rule: rtranclp_induct) (auto intro: pool_locked_step_exclusion)

lemma exclusion_idle: "shared pf pl H \<Longrightarrow> exclusion pf (pl, H, \<lambda>c. Idle)"
  by (simp add: exclusion_def)

text \<open>
  The calls behind a run of stages: the stages before the last one of a call are
  not seen in pool and holdings, and the last one is the call.
\<close>

lemma exclusion_step_calls:
  assumes "exclusion pf (pl, H, at)" and "stage_step pf c (pl, H, at) (pl', H', at')"
  shows "(pl', H') = (pl, H) \<or> any_step pf (pl, H) (pl', H')"
proof -
  from assms(1) have "stage_ok pl H c (at c)" by (simp add: exclusion_def)
  from stage_step_call [OF assms(2) this] show ?thesis by (auto simp: any_step_def)
qed

lemma pool_locked_run_calls:
  assumes "rtranclp (pool_locked_step pf) s s'" and "exclusion pf s"
  shows "rtranclp (any_step pf) (fst s, fst (snd s)) (fst s', fst (snd s'))"
  using assms
proof (induction rule: rtranclp_induct)
  case base
  show ?case by simp
next
  case (step s1 s2)
  obtain pl1 H1 at1 pl2 H2 at2 where s: "s1 = (pl1, H1, at1)" "s2 = (pl2, H2, at2)"
    by (cases s1, cases s2) auto
  from step.hyps(1) step.prems have "exclusion pf s1" by (rule pool_locked_run_exclusion)
  with step.hyps(2) have "(pl2, H2) = (pl1, H1) \<or> any_step pf (pl1, H1) (pl2, H2)"
    by (auto simp: pool_locked_step_def s dest: exclusion_step_calls)
  with step.IH [OF step.prems] show ?case by (auto simp: s)
qed

section \<open>Properties of the staged callers\<close>

text \<open>
  C12. Under mutual exclusion of the pool functions the stages refine the atomic
  calls. From a state the atomic calls reach, with every caller idle, every run in
  which a caller runs a stage of \<^verbatim>\<open>mesh_packet_acquire\<close>,
  \<^verbatim>\<open>mesh_packet_ref_count_inc\<close> or \<^verbatim>\<open>mesh_packet_ref_count_dec\<close> only while no
  other caller is inside one of them is a run of atomic calls, whatever packet
  functions the callers run in between on the packets they hold: pool and
  holdings at every point of the run are reached from those at its start by whole
  calls, the reference counts are the numbers of references held, also while a
  caller is between two stages, and at most one caller is ever inside a pool
  function.
\<close>

theorem locked_run_refines_calls:
  assumes "shared pf pl H"
    and "rtranclp (pool_locked_step pf) (pl, H, \<lambda>c. Idle) (pl', H', at')"
  shows "rtranclp (any_step pf) (pl, H) (pl', H') \<and>
         shared pf pl' H' \<and> counts_agree pl' (held_refs H') \<and>
         (\<forall>c c'. at' c \<noteq> Idle \<longrightarrow> at' c' \<noteq> Idle \<longrightarrow> c = c')"
proof -
  note idle = exclusion_idle [OF assms(1)]
  from pool_locked_run_exclusion [OF assms(2) idle]
  have "shared pf pl' H'" and "\<forall>c c'. at' c \<noteq> Idle \<longrightarrow> at' c' \<noteq> Idle \<longrightarrow> c = c'"
    by (simp_all add: exclusion_def)
  with shared_counts_agree [of pf pl' H'] pool_locked_run_calls [OF assms(2) idle]
  show ?thesis by simp
qed

section \<open>Two callers on the pool of two slots\<close>

lemma shared_two_pool_init: "shared ficr_platform (two_pool [0, 0]) ({#} :: nat holdings)"
  using shared_init [of ficr_platform "two_pool [0, 0]"] by simp

lemma acquire_find_two_pool [simp]: "acquire_find (two_pool [0, 0]) = Some 0"
  by (simp add: acquire_find_Some)

text \<open>
  Caller 0 holds the first slot of the pool of two packets. Caller 1 acquires in two
  stages, and between them caller 0 builds a packet in its slot.
\<close>

lemma pool_locked_run_two_packets:
  "rtranclp (pool_locked_step ficr_platform)
     (two_packets [1, 0] rx_packet blank_packet, {#(0 :: nat, 0x20000000)#}, \<lambda>c. Idle)
     (two_packets [1, 1] (built_packet ficr_platform rx_packet 0x1234 7 None 0) blank_packet,
      {#(1, 0x20000028), (0, 0x20000000)#}, (\<lambda>c. Idle)(1 := AcquireFound 1, 1 := Idle))"
proof -
  let ?H = "{#(0 :: nat, 0x20000000)#}"
  let ?at = "(\<lambda>c :: nat. Idle)(1 := AcquireFound 1)"
  let ?built = "built_packet ficr_platform rx_packet 0x1234 7 None 0"
  have "stage_step ficr_platform 1 (two_packets [1, 0] rx_packet blank_packet, ?H, \<lambda>c. Idle)
          (two_packets [1, 0] rx_packet blank_packet, ?H, ?at)"
    by (intro stage_step.acquire_find) (simp_all add: acquire_find_Some less_Suc_eq)
  then have 1: "pool_locked_step ficr_platform
      (two_packets [1, 0] rx_packet blank_packet, ?H, \<lambda>c. Idle)
      (two_packets [1, 0] rx_packet blank_packet, ?H, ?at)"
    by (auto simp: pool_locked_step_def)
  have "stage_step ficr_platform 0 (two_packets [1, 0] rx_packet blank_packet, ?H, ?at)
          (two_packets [1, 0] ?built blank_packet, ?H, ?at)"
    by (intro stage_step.packet [where x = "Build (Some 0x20000000) 0x1234 7 None 0"
          and p = "0x20000000" and r = "RetCode NRF_SUCCESS"])
       (simp_all add: api_step.simps with_packet_def with_packet_opt_def mesh_packet_build_ok)
  then have 2: "pool_locked_step ficr_platform
      (two_packets [1, 0] rx_packet blank_packet, ?H, ?at)
      (two_packets [1, 0] ?built blank_packet, ?H, ?at)"
    by (auto simp: pool_locked_step_def pool_stage_def)
  have "stage_step ficr_platform 1 (two_packets [1, 0] ?built blank_packet, ?H, ?at)
          (two_packets [1, 1] ?built blank_packet, add_mset (1, 0x20000028) ?H, ?at(1 := Idle))"
    by (intro stage_step.acquire_claim [where i = 1]) (simp_all add: acquire_claim_def)
  then have 3: "pool_locked_step ficr_platform
      (two_packets [1, 0] ?built blank_packet, ?H, ?at)
      (two_packets [1, 1] ?built blank_packet, {#(1, 0x20000028), (0, 0x20000000)#},
       ?at(1 := Idle))"
    by (auto simp: pool_locked_step_def)
  from 1 2 3 show ?thesis
    by (meson rtranclp.rtrancl_into_rtrancl rtranclp.rtrancl_refl)
qed

theorem locked_run_refines_calls_witness:
  "rtranclp (any_step ficr_platform)
     (two_packets [1, 0] rx_packet blank_packet, {#(0 :: nat, 0x20000000)#})
     (two_packets [1, 1] (built_packet ficr_platform rx_packet 0x1234 7 None 0) blank_packet,
      {#(1, 0x20000028), (0, 0x20000000)#}) \<and>
   counts_agree
     (two_packets [1, 1] (built_packet ficr_platform rx_packet 0x1234 7 None 0) blank_packet)
     {#0x20000028, 0x20000000#}"
  using locked_run_refines_calls [OF shared_two_packets_1 pool_locked_run_two_packets] by simp

text \<open>
  Without mutual exclusion: both callers find slot 0 free before either claims it.
  Both are given its address, the count is 1 and two references are held.
\<close>

lemma free_run_two_pool:
  "rtranclp (free_step ficr_platform)
     (two_pool [0, 0], {#}, \<lambda>c. Idle)
     (two_pool [1, 0], {#(1 :: nat, 0x20000000), (0, 0x20000000)#},
      (\<lambda>c. Idle)(0 := AcquireFound 0, 1 := AcquireFound 0, 0 := Idle, 1 := Idle))"
proof -
  let ?a = "(\<lambda>c :: nat. Idle)(0 := AcquireFound 0)"
  let ?b = "?a(1 := AcquireFound 0)"
  let ?c = "?b(0 := Idle)"
  have "stage_step ficr_platform (0 :: nat) (two_pool [0, 0], {#}, \<lambda>c. Idle)
          (two_pool [0, 0], {#}, ?a)"
    by (intro stage_step.acquire_find) simp_all
  then have 1: "free_step ficr_platform (two_pool [0, 0], {#}, \<lambda>c :: nat. Idle)
      (two_pool [0, 0], {#}, ?a)"
    by (auto simp: free_step_def)
  have "stage_step ficr_platform (1 :: nat) (two_pool [0, 0], {#}, ?a) (two_pool [0, 0], {#}, ?b)"
    by (intro stage_step.acquire_find) simp_all
  then have 2: "free_step ficr_platform (two_pool [0, 0], {#}, ?a) (two_pool [0, 0], {#}, ?b)"
    by (auto simp: free_step_def)
  have "stage_step ficr_platform (0 :: nat) (two_pool [0, 0], {#}, ?b)
          (two_pool [1, 0], add_mset (0, 0x20000000) {#}, ?b(0 := Idle))"
    by (intro stage_step.acquire_claim [where i = 0]) (simp_all add: acquire_claim_def)
  then have 3: "free_step ficr_platform (two_pool [0, 0], {#}, ?b)
      (two_pool [1, 0], {#(0, 0x20000000)#}, ?c)"
    by (auto simp: free_step_def)
  have "stage_step ficr_platform (1 :: nat) (two_pool [1, 0], {#(0, 0x20000000)#}, ?c)
          (two_pool [1, 0], add_mset (1, 0x20000000) {#(0, 0x20000000)#}, ?c(1 := Idle))"
    by (intro stage_step.acquire_claim [where i = 0]) (simp_all add: acquire_claim_def)
  then have 4: "free_step ficr_platform (two_pool [1, 0], {#(0, 0x20000000)#}, ?c)
      (two_pool [1, 0], {#(1, 0x20000000), (0, 0x20000000)#}, ?c(1 := Idle))"
    by (auto simp: free_step_def)
  from 1 2 3 4 show ?thesis
    by (meson rtranclp.rtrancl_into_rtrancl rtranclp.rtrancl_refl)
qed

lemma free_run_breaks_counts:
  "\<exists>pl' H' at'. rtranclp (free_step ficr_platform)
       (two_pool [0, 0], ({#} :: nat holdings), \<lambda>c. Idle) (pl', H', at') \<and>
     (\<forall>c. at' c = Idle) \<and> \<not> counts_agree pl' (held_refs H')"
proof -
  have "\<not> counts_agree (two_pool [1, 0]) {#0x20000000, 0x20000000#}"
    using counts_agreeD(3) [of "two_pool [1, 0]" "{#0x20000000, 0x20000000#}" 0] by auto
  with free_run_two_pool show ?thesis
    by (intro exI [of _ "two_pool [1, 0]"] exI [of _ "{#(1, 0x20000000), (0, 0x20000000)#}"]
        exI [of _ "(\<lambda>c. Idle)(0 := AcquireFound 0, 1 := AcquireFound 0, 0 := Idle, 1 := Idle)"])
       simp
qed

end
