(* ===== verification/Spec2Isabelle.thy ===== *)
theory Spec2Isabelle
  imports Packet_Pool Pool_Pointers Pool_Machine Pool_Spec Local_Addr Adv_Data Packet_Build Sanitize
    Packet_Api Valid_Packets Independence Callers Holders Stray_Calls Schedules Preemption
    Mutual_Exclusion
begin

text \<open>
  \<^bold>\<open>The packet layer of the nRF51 broadcast mesh.\<close>
  The program is \<^verbatim>\<open>src/nRF51/rbc_mesh/src/mesh_packet.c\<close>: a fixed pool of
  advertisement packets with one reference count per slot, and the operations
  that fill, inspect and clean a packet. Its five parts and the theories that
  model them:

  \<^item> \<^emph>\<open>Packet pool\<close> (\<^verbatim>\<open>g_packet_pool\<close>, \<^verbatim>\<open>g_packet_refs\<close>, \<^verbatim>\<open>mesh_packet_init\<close>,
    \<^verbatim>\<open>mesh_packet_on_ts_begin\<close>, \<^verbatim>\<open>mesh_packet_acquire\<close>,
    \<^verbatim>\<open>mesh_packet_ref_count_inc\<close>, \<^verbatim>\<open>mesh_packet_ref_count_dec\<close>): theory
    \<open>Packet_Pool\<close>. The two static arrays and the address of the first are the
    record \<open>mesh_pool\<close>; a \<^verbatim>\<open>mesh_packet_t*\<close> is a 32-bit address, \<open>packet_ptr\<close> is
    \<^verbatim>\<open>&g_packet_pool[i]\<close> and \<open>packet_index\<close> the division
    \<^verbatim>\<open>((uint32_t) p - (uint32_t) g_packet_pool) / sizeof(mesh_packet_t)\<close> on 32-bit
    words. Each function is one definition of the same name; the scan loop of
    \<^verbatim>\<open>mesh_packet_acquire\<close> is \<open>acquire_scan\<close>. Theory \<open>Pool_Pointers\<close> sorts the
    32-bit addresses into those of a slot, those of the 40 bytes behind the last
    slot and all others (\<open>ptr_class_of\<close>). Theory \<open>Pool_Machine\<close> gives the
    calls as the datatype \<open>pool_op\<close> with the step function \<open>pool_step\<close>, runs
    of calls as \<open>pool_run\<close>, and the discipline of the callers as the inductive
    relation \<open>owned\<close> between a pool and the multiset of references that are held.
    Theory \<open>Pool_Spec\<close> has the pool the specification describes, a list of
    counters with the operations \<open>spec_op\<close> on slot numbers (\<open>spec_step\<close>,
    \<open>spec_run\<close>), and the abstraction of the pool of the code to it: \<open>abs_pool\<close>
    reads the counts as numbers, \<open>abs_ref\<close> turns an address into the slot it lies
    in or into no slot, \<open>abs_op\<close> and \<open>abs_result\<close> translate calls and what they
    return.
  \<^item> \<^emph>\<open>Address stamper\<close> (\<^verbatim>\<open>mesh_packet_set_local_addr\<close>): theory \<open>Local_Addr\<close>.
    The answer of the SoftDevice and the two FICR registers are the record
    \<open>platform\<close>, whose field \<open>SOFTDEVICE_PRESENT\<close> selects the branch of the
    \<^verbatim>\<open>#ifdef\<close>.
  \<^item> \<^emph>\<open>Packet builder\<close> (\<^verbatim>\<open>mesh_packet_build\<close>): theory \<open>Packet_Build\<close>. The
    assignments to the five members of the mesh structure are \<open>build_adv_header\<close>
    and the guarded \<^verbatim>\<open>memcpy\<close> of the data is \<open>build_copy\<close>.
  \<^item> \<^emph>\<open>Locator\<close> (\<^verbatim>\<open>mesh_packet_adv_data_get\<close>, \<^verbatim>\<open>mesh_packet_handle_get\<close>,
    \<^verbatim>\<open>mesh_packet_has_additional_data\<close>): theory \<open>Adv_Data\<close>. A
    \<^verbatim>\<open>mesh_adv_data_t*\<close> into the payload is its byte offset; the two loops are
    \<open>adv_data_scan\<close> and \<open>additional_data_scan\<close>, and their cursor advances by
    \<^verbatim>\<open>(adv_data_length + 1) * sizeof(mesh_adv_data_t)\<close> bytes, which is what the
    addition to a \<^verbatim>\<open>mesh_adv_data_t*\<close> in the source does.
  \<^item> \<^emph>\<open>Sanitizer and transfer of ownership\<close> (\<^verbatim>\<open>mesh_packet_adv_data_sanitize\<close>,
    \<^verbatim>\<open>mesh_packet_take_ownership\<close>): theory \<open>Sanitize\<close>; the \<^verbatim>\<open>for\<close> loop that
    moves the structure is \<open>adv_data_move\<close>.

  The builder and the transfer of ownership call the address stamper; the
  sanitizer and \<^verbatim>\<open>mesh_packet_handle_get\<close> call the locator; the pool hands out the
  packets the others work on. Nine theories put the parts together:

  \<^item> \<open>Packet_Api\<close> is the interface of the file as its callers see it. A call is
    a value of the datatype \<open>api_op\<close> (a pool operation, or a packet function
    with the pointers it is given), and \<open>api_step\<close> is its effect on the pool: a
    packet function reads the slot its pointer names (\<open>packet_at\<close>), runs the
    definition of its component on that packet and writes the slot back
    (\<open>packet_store\<close>); this is \<open>with_packet\<close>, and \<open>with_packet_opt\<close> where the
    function tests its pointer for \<^verbatim>\<open>NULL\<close>. An address that is not the address
    of a slot is a fault: the model says nothing about packets outside the pool.
    This includes \<^verbatim>\<open>NULL\<close>, in a pool that does not start at address 0, given
    to \<^verbatim>\<open>mesh_packet_set_local_addr\<close>, \<^verbatim>\<open>mesh_packet_has_additional_data\<close> and
    \<^verbatim>\<open>mesh_packet_take_ownership\<close>, which use their argument without a test
    (\<open>null_calls_fault\<close> in theory \<open>Stray_Calls\<close>). The slot is read before the
    function runs, so a call with such an address is a fault also on a path of
    the function that returns before it uses the pointer.
    \<open>api_run\<close> is a sequence of calls from one context.
  \<^item> \<open>Valid_Packets\<close> names the packets the layer is there to produce:
    \<open>mesh_valid\<close> is a well-formed packet of type \<^verbatim>\<open>ADV_NONCONN_IND\<close> with the
    mesh structure at the start of its payload, a length byte from 7 to 30 and a
    header length of 7 plus that byte. \<open>kept_by_calls pf P\<close> says of a predicate on
    packets that the four functions that write a packet keep it; the lemmas on
    steps and runs (\<open>api_step_keeps\<close>, \<open>api_run_keeps\<close>) are stated for every such
    predicate and used for \<open>packet_wf\<close> and \<open>mesh_valid\<close>.
  \<^item> \<open>Independence\<close> says which calls of a run can be exchanged: \<open>independent\<close>
    are two calls that are not both pool functions and do not name the same
    packet, and \<open>swap_at\<close> exchanges two neighbours of a list.
  \<^item> \<open>Callers\<close> has any number of callers on one pool. A state is the pool with
    the multiset of pairs of a caller and a reference it holds; \<open>call_step\<close> is
    one call of one caller under the discipline (a caller retains, releases,
    hands over and passes to packet functions only references it holds), each
    call an atomic step; \<open>shared\<close> are the states reached from
    \<^verbatim>\<open>mesh_packet_init\<close>; \<open>others_step\<close> are the steps of everyone but one caller.
    \<open>any_step\<close> is a step of whichever caller. \<open>Holders\<close> has what a caller can
    do with a reference it holds. \<open>Schedules\<close> has the same steps as
    a function: a \<open>call\<close> names the caller and what it passes, \<open>do_call\<close> is
    the state after it, or \<open>None\<close> for a call the discipline does not allow or
    that does not return, and \<open>schedule\<close> runs a list of calls.
  \<^item> \<open>Stray_Calls\<close> lets the callers leave the discipline: \<open>lax_step\<close> is a step
    of \<open>call_step\<close> or any call of the interface that returns, by anyone and with
    any argument, that is not one of the two calls that lower a count (\<open>frees\<close>:
    \<^verbatim>\<open>mesh_packet_init\<close> and \<^verbatim>\<open>mesh_packet_ref_count_dec\<close>). Such a call changes the
    pool and nobody's holdings. \<open>counts_cover\<close> says that the count of every slot
    is at least the number of references held to it.
  \<^item> \<open>Preemption\<close> splits \<^verbatim>\<open>mesh_packet_acquire\<close>,
    \<^verbatim>\<open>mesh_packet_ref_count_inc\<close> and \<^verbatim>\<open>mesh_packet_ref_count_dec\<close> between the
    read of a count and the write that follows (\<open>acquire_find\<close>, \<open>acquire_claim\<close>;
    \<open>ref_count_load\<close>, \<open>ref_count_inc_store\<close>; \<open>ref_count_dec_test\<close>,
    \<open>ref_count_dec_load\<close>, \<open>ref_count_dec_store\<close>), so that a call of another
    context can be placed in between; the stages in sequence are the function
    (\<open>acquire_stages\<close>, \<open>ref_count_inc_stages\<close>, \<open>ref_count_dec_stages\<close>).
  \<^item> \<open>Mutual_Exclusion\<close> runs the callers of \<open>Callers\<close> on the stages of
    \<open>Preemption\<close>: a caller is at a \<open>stage\<close> (idle, or inside a pool function
    with the index and the count it has read), \<open>stage_step\<close> is one stage of one
    caller, \<open>free_step\<close> lets any caller step and \<open>locked_step\<close> only a caller
    for whom all others are idle. \<open>pool_locked_step\<close> asks this only of the stages
    of the pool functions (\<open>pool_stage\<close>): it is the lock taken around
    \<^verbatim>\<open>mesh_packet_acquire\<close>, \<^verbatim>\<open>mesh_packet_ref_count_inc\<close> and
    \<^verbatim>\<open>mesh_packet_ref_count_dec\<close> and around nothing else.

  \<^bold>\<open>Data and effects.\<close> Theory \<open>Mesh_Prelude\<close> holds what the components share.
  Integers are words of their width (\<open>uint8_t\<close>, \<open>uint16_t\<close>, \<open>uint32_t\<close>), so
  that the reference count and the length bytes wrap as in C. An operation
  returns \<open>fault + 'a\<close>: \<open>Inl OutOfBounds\<close> for an access outside an array (which
  C leaves undefined), \<open>Inl (APP_ERROR e)\<close> where the macro \<^verbatim>\<open>APP_ERROR_CHECK\<close>
  (the definition \<open>APP_ERROR_CHECK\<close>) is given a code other than
  \<^verbatim>\<open>NRF_SUCCESS\<close>, after which no state is given, and \<open>Inr\<close> of the returned value
  together with the state the call leaves. Arrays are lists read and written
  through \<open>rd\<close>, \<open>wr\<close>, \<open>rd16\<close>, \<open>wr16\<close> (little endian) and \<open>memcpy\<close>, which
  fault outside the list; \<open>bindR\<close> sequences the steps. A pointer that may be
  \<^verbatim>\<open>NULL\<close> is an option. Theory \<open>Mesh_Types\<close> holds the packed structures as
  records, the constants, the sizes (40 bytes for a packet, 31 for a mesh
  structure) and the members of \<^verbatim>\<open>mesh_adv_data_t\<close> as accessors at their byte
  offsets. These come from headers that are not among the sources and follow the
  specification. The size of the mesh structure is what the results on the two
  scanning loops rest on: it is at least the payload, so that a cursor advanced by
  a multiple of it leaves the payload (\<open>stride_leaves_payload\<close>). \<open>packet_wf\<close>, \<open>pool_wf\<close> and \<open>platform_wf\<close> say that the arrays have
  their declared sizes and that the pool lies inside the 32-bit address space.

  \<^bold>\<open>What is shown.\<close>
  \<^item> Pool (\<open>Packet_Pool\<close>, \<open>Pool_Machine\<close>): every operation keeps \<open>pool_wf\<close> and
    the packets; the scan returns the first free slot; in every state reached
    under the discipline the count of a slot is the number of references held to
    it (\<open>counts_agree\<close>, by rule induction on \<open>owned\<close>), so a held slot is never
    handed out, a holder's release succeeds, and acquisition fails exactly when
    every slot is held; \<^verbatim>\<open>N\<close> acquisitions exhaust a pool of \<^verbatim>\<open>N\<close> slots; retain then
    release is the identity; release at count 0 changes nothing; retain at count
    255 ends in the fatal error; the guard \<^verbatim>\<open>index > MESH_PACKET_POOL_SIZE\<close> lets
    the index one past the end through to an access outside \<^verbatim>\<open>g_packet_refs\<close>.
  \<^item> Addresses (\<open>Pool_Pointers\<close>): what the two reference-count functions do
    with each of the \<open>2^32\<close> addresses, by its class. An address below the pool,
    where the subtraction wraps, and one more than 40 bytes behind the pool are
    refused; an address anywhere inside a slot, aligned or not, reaches the count
    of that slot; an address in the 40 bytes behind the last slot reaches the
    byte behind the count array. This needs room for one more packet between
    the pool and the end of the address space (\<open>pool_room\<close>): in a pool at the very
    top of memory \<^verbatim>\<open>NULL\<close> is such an address (\<open>ref_count_NULL_top_of_memory\<close>).
  \<^item> Pool against its specification (\<open>Pool_Spec\<close>): for a pool with \<open>pool_room\<close>
    every call is the operation of the specification on the abstracted pool,
    \<open>abs_result pl (pool_step pl x) = Some (spec_step (abs_pool pl) (abs_op pl x))\<close>,
    and so is every run (\<open>pool_run_refines\<close>), with the rollover of a count as the
    fault \<open>RefcountOverflow\<close> on both sides. The one exception is a pointer into
    the 40 bytes behind the pool (\<open>past_end\<close>): the specification refuses it, the
    code reads outside \<^verbatim>\<open>g_packet_refs\<close>.
  \<^item> Address stamper (\<open>Local_Addr\<close>): the outcome on both builds, the byte order
    of the address taken from the registers, and \<open>local_addr_stamp\<close> as the one
    equation the callers' proofs use.
  \<^item> Builder (\<open>Packet_Build\<close>): the eight bytes \<open>build_adv_header\<close> writes and the
    bytes \<open>build_copy\<close> copies or leaves; the three outcomes of a call; on success
    the packet is \<open>built_packet\<close>, its handle, version and data read back, it holds exactly
    one structure, neither length byte wraps; the status of the address stamper is
    ignored; with \<^verbatim>\<open>data == NULL\<close> the data bytes are stale.
  \<^item> Locator (\<open>Adv_Data\<close>): both loops terminate and are decided by the first
    structure (\<open>adv_data_get_wf\<close>, \<open>has_additional_data_wf\<close>); against the
    byte-wise walk of the wire format (\<open>chain_find\<close>, \<open>chain_has_foreign\<close>) the
    locator is sound but finds no structure behind another one and reports no
    foreign structure behind the mesh structure: for every legal header length
    its answer is that of the chain only when the first structure is the foreign
    one; it never reads outside the
    payload, while \<^verbatim>\<open>mesh_packet_has_additional_data\<close> does for a header length of
    39 or more.
  \<^item> Sanitizer (\<open>Sanitize\<close>): the move loop is an overlap-safe forward move
    (\<open>moved\<close>) and would relocate the structure the chain finds; the sanitizer as
    written only rewrites the header length, is idempotent and never enters the
    loop; the transfer of ownership amounts to stamping the address, so that a
    packet with a foreign structure in front of the mesh structure keeps it and
    its handle is not found afterwards.
  \<^item> Interface (\<open>Packet_Api\<close>): a call changes at most the slot its pointer names
    and, unless it is a pool operation, no count (\<open>api_step_frame\<close>,
    \<open>api_step_other_slot\<close>, \<open>api_step_refs\<close>); every run of calls that returns
    leaves a well-formed pool of the same size at the same address, whatever the
    arguments (\<open>api_run_frame_wf\<close>). A call with the address of a slot is decided by the packet in that
    slot (\<open>api_step_slot\<close>): \<open>call_faults\<close> are the three cases in which it reads
    outside an array (a build from a buffer shorter than the length given, and
    \<^verbatim>\<open>mesh_packet_has_additional_data\<close> or \<^verbatim>\<open>mesh_packet_take_ownership\<close> on a
    packet that satisfies \<open>length_overruns\<close>), and \<open>packet_call\<close> is the value it
    returns and the packet it leaves in every other case.
  \<^item> Valid packets (\<open>Valid_Packets\<close>): a successful build leaves a valid mesh
    packet in its slot (\<open>built_packet_valid\<close>, \<open>api_build_valid\<close>), and every run
    of calls that returns, with whatever arguments, leaves valid every packet that
    was valid (\<open>mesh_valid_kept\<close>, \<open>api_run_keeps\<close>): the address stamper and the
    transfer of ownership write the address only, a refused build writes nothing,
    the sanitizer writes the header length the packet has. On a valid packet the
    locator finds the structure at offset 0, \<^verbatim>\<open>mesh_packet_has_additional_data\<close>
    is false, sanitizing changes nothing (\<open>mesh_valid_reads\<close>) and the chain of the
    wire format is the mesh structure alone (\<open>mesh_valid_chain\<close>).
  \<^item> Exchange of calls (\<open>Independence\<close>): a pool function reads no packet
    (\<open>pool_step_packets\<close>), a packet function reads no count
    (\<open>api_step_refs_update\<close>) and no slot but its own (\<open>api_step_other_update\<close>);
    two steps of which neither reads what the other writes can be exchanged
    (\<open>frames_commute\<close>), hence two independent calls (\<open>independent_swap\<close>), and
    hence two independent neighbours anywhere in a run: the run returns the same
    values and the same pool, and faults in one order exactly if it faults in the
    other.
  \<^item> Callers (\<open>Callers\<close>, \<open>Holders\<close>): the counts agree with the references held
    in every state of \<open>shared\<close>; a packet whose reference one caller holds alone
    is not changed by any number of steps of the other callers, and that caller
    keeps its references; the call of a holder through its reference is
    \<open>packet_call\<close> on a well-formed packet or one of the three faults; what a
    caller builds in a packet it holds alone it reads back after any calls of the
    others; from every state of \<open>shared\<close> the callers can release all they hold,
    which leaves every count at 0 and the packets as they were; \<open>owned\<close> is the
    case of a single caller. Outside the discipline nothing of this holds: a
    pointer kept after its last release reads the packet of whoever acquired the
    slot next (\<open>stale_pointer_reads_new_packet\<close>), a release by a caller that
    holds nothing frees the slot under its holder
    (\<open>stray_release_frees_held_slot\<close>), and a second \<^verbatim>\<open>mesh_packet_init\<close> frees
    every held slot (\<open>init_frees_held_slots\<close>).
  \<^item> Outside the discipline (\<open>Stray_Calls\<close>): these two calls are the only ones
    that need the discipline for the pool to stay safe. After every run of
    \<open>lax_step\<close> from a state of \<open>shared\<close> the counts cover the references held
    (\<open>counts_cover\<close>), so \<^verbatim>\<open>mesh_packet_acquire\<close> returns no pointer that is held:
    the counts are those of the references held and of the references \<open>S\<close> that
    stray calls have made (\<open>lax_run_counts\<close>, from \<open>call_step_counts_agree_plus\<close>
    and \<open>stray_call_counts\<close>). What is lost is the isolation of a held packet
    (\<open>stray_build_overwrites_held_packet\<close>) and the slot of a stray reference, which
    the pool does not hand out again (\<open>leaked_slot_stays_taken\<close>,
    \<open>stray_retain_loses_slot\<close>).
  \<^item> Schedules (\<open>Schedules\<close>): the steps of \<open>call_step\<close> are the calls \<open>do_call\<close>
    accepts, the runs of \<open>any_step\<close> are the schedules, and the states of
    \<open>shared\<close> are the states schedules reach from an initialised pool
    (\<open>shared_iff_schedule\<close>), so that a state is shown reachable by evaluating
    a schedule (\<open>schedule_two_callers\<close>).
  \<^item> Preemption (\<open>Preemption\<close>): an acquisition preempted after its test by
    another acquisition hands out the same slot twice; of two increments or two
    decrements interleaved between read and write one is lost; a release
    preempted after its test by the release of the last reference wraps the count
    from 0 to 255. The source takes no lock and masks no interrupt, so the
    results on \<open>shared\<close> hold for callers that exclude each other by their own
    means.
  \<^item> Mutual exclusion (\<open>Mutual_Exclusion\<close>): every run of \<open>pool_locked_step\<close>
    from a state of \<open>shared\<close> with all callers idle is a run of atomic calls
    (\<open>any_step\<close>) between the same pools and holdings, stays in \<open>shared\<close>, and has
    at most one caller inside a pool function; the counts are the references held
    at every stage. The invariant is \<open>exclusion\<close>, kept by every step
    (\<open>pool_locked_step_exclusion\<close>): a stage inside a pool function changes neither
    pool nor holdings, the last stage is the whole \<open>call_step\<close>, and a packet
    function of one caller leaves what another caller inside a pool function has
    read (\<open>stage_ok_frame\<close>). \<open>locked_step\<close> is the special case of a lock
    around every call (\<open>locked_step_pool_locked\<close>). A run of \<open>free_step\<close> in
    which two callers find the same slot free ends with two references and
    count 1 (\<open>free_run_breaks_counts\<close>).
  \<^item> Running time (\<open>T_acquire_scan\<close>, \<open>T_adv_data_scan\<close>,
    \<open>T_additional_data_scan\<close>, \<open>T_adv_data_move\<close>, each beside its loop): the
    number of times a loop evaluates its condition, bounded by the pool size plus
    one, one, two and 256.
  \<^item> Across components (this theory): a packet built in a slot survives every run
    of pool operations; relaying a built packet gives the packet the relaying
    device would have built; sanitizing a built packet changes nothing; the
    bounds of the four loops together.

  Statements with premises come with an instance on concrete data: the pools
  \<open>two_pool\<close> and \<open>two_packets\<close> of two slots at \<open>0x20000000\<close>, the packets
  \<open>rx_packet\<close>, \<open>trailing_packet\<close> and \<open>overlong_packet\<close>, the devices
  \<open>ficr_platform\<close> and \<open>sd_off_platform\<close>.

  \<^bold>\<open>Bounds.\<close> The pool size is not fixed: \<^verbatim>\<open>MESH_PACKET_POOL_SIZE\<close> is the length of
  \<^verbatim>\<open>g_packet_refs\<close>, and \<open>pool_wf\<close> only asks that the pool ends below \<open>2^32\<close>, as
  it does on the device. No function uses fuel: each loop is a total function
  with a measure (remaining slots, remaining payload, remaining bytes to move),
  so every result holds for all inputs and all lengths of runs. The number of
  callers is not fixed either: a caller is a value of a type variable.

  \<^bold>\<open>Not modelled.\<close> Every line of the source file that is code is the subject of
  a definition; the lines that are not are the licence, the includes and the
  banner comments. \<^verbatim>\<open>app_error_handler\<close> behind \<^verbatim>\<open>APP_ERROR_CHECK\<close> (the call is
  the terminal outcome \<open>APP_ERROR\<close>); the SoftDevice and the FICR registers beyond
  the values they answer with; the radio transport, the timeslot handler and the
  propagation logic that call this layer (their calls are covered as arbitrary
  runs of \<open>api_op\<close> and steps of \<open>call_step\<close>). Preemption is modelled for the
  three pool functions, between the read and the write of a count; preemption of
  a preempting call by a third one is not. The packet functions are not split
  into stages: a context that keeps the discipline holds the packet it writes,
  no other context that keeps it has a reference to that packet, and calls on
  different packets can be exchanged, so a half-written packet is seen only by
  a context that already breaks the discipline. Packets outside the pool (a
  \<^verbatim>\<open>mesh_packet_t\<close> on the stack of a caller) are handled by the component
  theories, which take a packet, but not by \<open>api_step\<close>, which takes a pointer
  into the pool. A packet is a record of its members and not an image of 40
  bytes: the headers that declare the structures are not among the sources, and
  the specification gives the members and the sizes but neither the reserved bit
  fields nor the padding of \<open>ble_packet_header_t\<close>, so that a read of a packet
  through an address inside a slot has no faithful model. The pointer
  \<^verbatim>\<open>pp_packet\<close> through which \<^verbatim>\<open>mesh_packet_acquire\<close> stores its result is the
  returned option; a call with \<^verbatim>\<open>pp_packet == NULL\<close> is not modelled. The buffer
  \<^verbatim>\<open>data\<close> of \<^verbatim>\<open>mesh_packet_build\<close> is a list of its own: a buffer that overlaps
  the payload it is copied to is not modelled. A status of the SoftDevice that the
  source does not name is \<open>NRF_ERROR_SOFTDEVICE w\<close> with its value \<open>w\<close>; the value
  0 is \<^verbatim>\<open>NRF_SUCCESS\<close> on the device, while \<open>NRF_ERROR_SOFTDEVICE 0\<close> is an error
  of the model like the others. The functions \<open>T_acquire_scan\<close>,
  \<open>T_adv_data_scan\<close>, \<open>T_additional_data_scan\<close> and \<open>T_adv_data_move\<close> repeat
  the recursion of their loops and count the evaluations of the condition. For
  the scan of the pool and for the move the count is tied to the result of the
  loop: a scan from \<open>i\<close> that finds slot \<open>k\<close> takes \<open>k - i + 1\<close> passes
  (\<open>T_acquire_scan_found\<close>), a scan that finds none takes one pass per remaining
  slot and one more (\<open>T_acquire_scan_full\<close>), a move that returns takes one
  pass per byte and one more (\<open>T_adv_data_move_returns\<close>); the locator takes
  one pass whatever it returns (\<open>T_adv_data_scan_once\<close>). Beyond these the
  counters follow the loops by construction, clause by clause.

  \<^bold>\<open>Further work.\<close> The repaired locator (cursor advanced by bytes) with the
  proof that it refines \<open>chain_find\<close> and that the sanitizer over it meets the
  wire format's contract.
\<close>

section \<open>Properties that span the components\<close>

text \<open>
  A packet built in a slot of the pool stays as built under every sequence of
  pool operations that follows: initialisation, acquisition, and changes of any
  reference count leave \<^verbatim>\<open>g_packet_pool\<close> alone, so that
  \<^verbatim>\<open>mesh_packet_handle_get\<close> on the slot still returns the handle it was built with.
\<close>

lemma built_packet_survives_pool_ops:
  assumes "pool_wf pl" and "i < MESH_PACKET_POOL_SIZE pl" and "platform_wf pf"
    and "packet_at pl (packet_ptr pl i) = Inr pkt"
    and "mesh_packet_build pf (Some pkt) hdl ver data len = Inr (NRF_SUCCESS, Some pkt')"
    and "packet_store pl (packet_ptr pl i) pkt' = Inr pl1"
    and "pool_run pl1 ops = Inr (rs, pl2)"
  shows "pool_wf pl2 \<and> packet_at pl2 (packet_ptr pl i) = Inr pkt' \<and>
         mesh_packet_handle_get (Some pkt') = Inr hdl"
proof -
  note wf = packet_at_wf [OF assms(1,2,4)]
  note ok = mesh_packet_build_success [OF assms(3) wf assms(5)]
  have wf': "packet_wf pkt'"
    unfolding ok(3) using assms(3) wf ok(1,2) by (rule built_packet_wf)
  from assms(6) have pl1: "pl1 = pl\<lparr>g_packet_pool := (g_packet_pool pl)[i := pkt']\<rparr>"
    by (simp add: packet_store_slot [OF assms(1,2)])
  have wf1: "pool_wf pl1"
    unfolding pl1 using assms(1,2) wf' by (rule packet_store_wf)
  have i1: "i < MESH_PACKET_POOL_SIZE pl1"
    using assms(2) by (simp add: pl1 MESH_PACKET_POOL_SIZE_def)
  from pool_run_frame [OF assms(7)] pool_run_wf [OF assms(7)] wf1
  have fr: "pool_addr pl2 = pool_addr pl" "g_packet_pool pl2 = g_packet_pool pl1" "pool_wf pl2"
    by (simp_all add: pl1)
  from fr(3) i1 have i2: "i < MESH_PACKET_POOL_SIZE pl2"
    using wf1 by (simp add: pool_wf_def fr(2))
  have "packet_ptr pl2 i = packet_ptr pl i"
    by (simp add: packet_ptr_def fr(1))
  with packet_at_slot [OF fr(3) i2] have "packet_at pl2 (packet_ptr pl i) = Inr pkt'"
    using assms(1,2) by (simp add: fr(2) pl1 pool_wf_def)
  moreover have "mesh_packet_handle_get (Some pkt') = Inr hdl"
    using ok(1) wf' by (simp add: handle_get_wf ok(3) built_adv_length mesh_consts)
  ultimately show ?thesis using fr(3) by simp
qed

text \<open>
  C33. Relaying a packet that a peer built with \<^verbatim>\<open>mesh_packet_build\<close>:
  \<^verbatim>\<open>mesh_packet_take_ownership\<close> on a device that can give its address leaves
  exactly the packet that device would have built itself from the same handle,
  version and data.
\<close>

theorem relay_equals_local_build:
  assumes "platform_wf pf" and "platform_wf pf'" and "addr_available pf'" and "packet_wf p"
    and "mesh_packet_build pf (Some p) hdl ver data len = Inr (NRF_SUCCESS, Some q)"
  shows "bindR (mesh_packet_take_ownership pf' q) (\<lambda>q'. Inr (NRF_SUCCESS, Some q')) =
         mesh_packet_build pf' (Some p) hdl ver data len"
proof -
  note ok = mesh_packet_build_success [OF assms(1,4,5)]
  have wf: "packet_wf q"
    unfolding ok(3) using assms(1,4) ok(1,2) by (rule built_packet_wf)
  have "uint (length_field (header q)) = int (14 + unat len)"
    unfolding ok(3) using ok(1) by (rule built_header_length)
  moreover from ok(1) have "int (14 + unat len) \<le> 38"
    unfolding RBC_MESH_VALUE_MAX_LEN_def by linarith
  ultimately have "uint (length_field (header q)) \<le> 38"
    by (simp only:)
  then have "mesh_packet_take_ownership pf' q = Inr (local_addr_stamp pf' q)"
    by (rule take_ownership_wf [OF assms(2) wf])
  moreover have "local_addr_stamp pf' q = built_packet pf' p hdl ver data len"
    using assms(3) by (simp add: ok(3) local_addr_stamp_def built_packet_def Let_def)
  ultimately show ?thesis
    using ok(1,2) by (simp add: mesh_packet_build_ok [OF assms(2,4)])
qed

text \<open>
  Sanitizing a packet left by a successful \<^verbatim>\<open>mesh_packet_build\<close> succeeds and
  changes nothing: the header length the builder wrote is the one the sanitizer
  computes.
\<close>

lemma sanitize_built_identity:
  assumes "platform_wf pf" and "packet_wf p"
    and "mesh_packet_build pf (Some p) hdl ver data len = Inr (NRF_SUCCESS, Some q)"
  shows "mesh_packet_adv_data_sanitize (Some q) = Inr (NRF_SUCCESS, Some q)"
proof -
  note ok = mesh_packet_build_success [OF assms]
  have wf: "packet_wf q"
    unfolding ok(3) using assms(1,2) ok(1,2) by (rule built_packet_wf)
  have "sanitized q = q"
    by (simp add: ok(3) sanitized_def built_packet_def Let_def built_adv_length_byte mesh_consts)
  with ok(1) show ?thesis
    by (simp add: sanitize_wf [OF wf]) (simp add: ok(3) built_adv_length mesh_consts)
qed

text \<open>
  C24. Every loop of the file ends, within a number of passes that is fixed by the
  sizes: the scan of \<^verbatim>\<open>mesh_packet_acquire\<close> evaluates its condition at most
  \<^verbatim>\<open>MESH_PACKET_POOL_SIZE\<close> + 1 times, the loop of \<^verbatim>\<open>mesh_packet_adv_data_get\<close>
  once, that of \<^verbatim>\<open>mesh_packet_has_additional_data\<close> at most twice, and the move loop
  of the sanitizer, whose bound is an 8-bit value, at most 256 times.
\<close>

theorem loops_run_bounded:
  assumes "packet_wf p"
  shows "T_acquire_scan (g_packet_refs pl) 0 \<le> MESH_PACKET_POOL_SIZE pl + 1 \<and>
         T_adv_data_scan (payload p) 0 = 1 \<and>
         T_additional_data_scan (payload p) (uint (length_field (header p)) - 7) 0 \<le> 2 \<and>
         T_adv_data_move (payload p) off (unat (l + 1 :: uint8_t)) 0 \<le> 256"
proof -
  have "T_acquire_scan (g_packet_refs pl) 0 \<le> MESH_PACKET_POOL_SIZE pl + 1"
    using T_acquire_scan_bound [of "g_packet_refs pl" 0] by (simp add: MESH_PACKET_POOL_SIZE_def)
  moreover have "T_additional_data_scan (payload p) (uint (length_field (header p)) - 7) 0 \<le> 2"
    using packet_wf_lengths(2) [OF assms]
    by (intro T_additional_data_scan_twice) (simp add: mesh_consts)
  moreover have "unat (l + 1) < 256"
    using unsigned_less [of "l + 1", where ?'a = nat] by simp
  with T_adv_data_move_bound [of "payload p" off "unat (l + 1)" 0]
  have "T_adv_data_move (payload p) off (unat (l + 1)) 0 \<le> 256" by simp
  ultimately show ?thesis by (simp add: T_adv_data_scan_once)
qed

section \<open>Witnesses\<close>

text \<open>
  The pool of two slots after one acquisition; the slot at \<open>0x20000000\<close> is built
  for handle \<open>0x1234\<close>, then the second slot is acquired, retained and released.
\<close>

lemma two_pool_packets [simp]:
  "g_packet_pool (two_pool refs) = [blank_packet, blank_packet]"
  by (simp add: two_pool_def boot_pool_def blank_packet_def numeral_2_eq_2)

lemma built_packet_survives_pool_ops_witness:
  "\<exists>pl2. pool_run ((two_pool [1, 0])\<lparr>g_packet_pool :=
               [built_packet ficr_platform blank_packet 0x1234 7 (Some [0xAA, 0xBB, 0xCC]) 3,
                blank_packet]\<rparr>)
           [Acquire, RefCountInc 0x20000028, RefCountDec 0x20000028] = Inr
             ([RetPacket (Some 0x20000028), RetBool True, RetBool True], pl2) \<and>
         packet_at pl2 0x20000000 =
           Inr (built_packet ficr_platform blank_packet 0x1234 7 (Some [0xAA, 0xBB, 0xCC]) 3)"
proof -
  let ?b = "built_packet ficr_platform blank_packet 0x1234 7 (Some [0xAA, 0xBB, 0xCC]) 3"
  let ?pl1 = "(two_pool [1, 0])\<lparr>g_packet_pool := [?b, blank_packet]\<rparr>"
  let ?pl2 = "(two_pool [1, 1])\<lparr>g_packet_pool := [?b, blank_packet]\<rparr>"
  have wf: "pool_wf (two_pool [1, 0])" and i: "0 < MESH_PACKET_POOL_SIZE (two_pool [1, 0])"
    by simp_all
  have at: "packet_at (two_pool [1, 0]) (packet_ptr (two_pool [1, 0]) 0) = Inr blank_packet"
    using packet_at_slot [OF wf i] by simp
  have st: "packet_store (two_pool [1, 0]) (packet_ptr (two_pool [1, 0]) 0) ?b = Inr ?pl1"
    using packet_store_slot [OF wf i, of ?b] by simp
  have run: "pool_run ?pl1 [Acquire, RefCountInc 0x20000028, RefCountDec 0x20000028] =
             Inr ([RetPacket (Some 0x20000028), RetBool True, RetBool True], ?pl2)"
    by (simp add: mesh_packet_acquire_def acquire_scan_eq_first_free first_free_def
        mesh_packet_ref_count_inc_def mesh_packet_ref_count_dec_def packet_index_alt
        MESH_PACKET_POOL_SIZE_def packet_ptr_def sizeof_mesh_packet_t_eq rd_in Let_def
        two_pool_def boot_pool_def)
  from built_packet_survives_pool_ops [OF wf i ficr_platform_wf at build_blank_ficr st run] run
  show ?thesis by auto
qed

theorem relay_equals_local_build_witness:
  "bindR (mesh_packet_take_ownership ficr_platform
            (built_packet sd_off_platform blank_packet 0x1234 7 None 0))
     (\<lambda>q'. Inr (NRF_SUCCESS, Some q')) =
   mesh_packet_build ficr_platform (Some blank_packet) 0x1234 7 None 0"
proof -
  have "mesh_packet_build sd_off_platform (Some blank_packet) 0x1234 7 None 0 =
        Inr (NRF_SUCCESS, Some (built_packet sd_off_platform blank_packet 0x1234 7 None 0))"
    by (simp add: mesh_packet_build_ok mesh_consts)
  from relay_equals_local_build [OF sd_off_platform_wf ficr_platform_wf
      ficr_platform_available blank_packet_wf this]
  show ?thesis .
qed

lemma sanitize_built_identity_witness:
  "mesh_packet_adv_data_sanitize
     (Some (built_packet ficr_platform blank_packet 0x1234 7 (Some [0xAA, 0xBB, 0xCC]) 3)) =
   Inr (NRF_SUCCESS,
        Some (built_packet ficr_platform blank_packet 0x1234 7 (Some [0xAA, 0xBB, 0xCC]) 3))"
  by (rule sanitize_built_identity [OF ficr_platform_wf blank_packet_wf build_blank_ficr])

theorem loops_run_bounded_witness:
  "T_acquire_scan [1, 0] 0 \<le> 3 \<and> T_adv_data_scan rx_payload 0 = 1 \<and>
   T_additional_data_scan rx_payload 12 0 \<le> 2 \<and> T_adv_data_move rx_payload 3 10 0 \<le> 256"
  using loops_run_bounded [OF rx_packet_wf, of "two_pool [1, 0]" 3 9] by simp

end
